(* ===== verification/Prelude.thy ===== *)
theory Prelude
  imports Main "HOL-Library.Word"
begin

text \<open>
  Shared vocabulary of the development: the machine integer types of the firmware code, the
  outcome type of a C function (with memory faults, failed ASSERTs and returned statuses as
  values), byte buffers with little-endian accesses, and the generic word and list lemmas that
  the component theories use.
\<close>

unbundle bit_operations_syntax

named_theorems wp_rules \<open>rules that compute or reduce the weakest precondition of a model step\<close>
named_theorems buf_simps \<open>how buffer accesses read after buffer writes\<close>

section \<open>Machine integers\<close>

type_synonym u8 = "8 word"
type_synonym u16 = "16 word"
type_synonym u32 = "32 word"
type_synonym u64 = "64 word"

section \<open>Outcomes of a C function\<close>

text \<open>
  The statuses of \<^verbatim>\<open>MdePkg/Include/Base.h\<close> that the modelled code returns; RETURN_SUCCESS is the
  right injection of the outcome.
\<close>

datatype RETURN_STATUS =
    RETURN_UNSUPPORTED
  | RETURN_OUT_OF_RESOURCES
  | RETURN_VOLUME_CORRUPTED
  | RETURN_NOT_FOUND
  | RETURN_NOT_STARTED
  | RETURN_SECURITY_VIOLATION
  | RETURN_ABORTED

text \<open>
  Why a function does not return successfully: it returns an error status, it accesses memory
  outside of the buffer it was given, an ASSERT of the code does not hold, or (for the loops
  that take a fuel argument) the bound on the number of iterations is exhausted.
\<close>

datatype stop =
    Status RETURN_STATUS
  | OutOfBounds
  | AssertFailed
  | OutOfFuel

type_synonym 'a result = "stop + 'a"

abbreviation fail :: "RETURN_STATUS \<Rightarrow> 'a result" where
  "fail s \<equiv> Inl (Status s)"

definition bindR :: "'a result \<Rightarrow> ('a \<Rightarrow> 'b result) \<Rightarrow> 'b result" where
  "bindR m f = (case m of Inl e \<Rightarrow> Inl e | Inr x \<Rightarrow> f x)"

definition assertR :: "bool \<Rightarrow> 'a result \<Rightarrow> 'a result" where
  "assertR b k = (if b then k else Inl AssertFailed)"

text \<open>
  \<open>wp r Q\<close>: the outcome \<open>r\<close> is a returned status (no fault, no failed ASSERT, no exhausted
  fuel), and where that status is success the result satisfies \<open>Q\<close>.
\<close>

definition wp :: "'a result \<Rightarrow> ('a \<Rightarrow> bool) \<Rightarrow> bool" where
  "wp r Q = (case r of Inl (Status s) \<Rightarrow> True | Inl _ \<Rightarrow> False | Inr x \<Rightarrow> Q x)"

abbreviation safe :: "'a result \<Rightarrow> bool" where
  "safe r \<equiv> wp r (\<lambda>_. True)"

lemma bindR_simps [simp]:
  "bindR (Inl e) f = Inl e" "bindR (Inr x) f = f x"
  by (simp_all add: bindR_def)

lemma bindR_Inr_iff: "bindR m f = Inr y \<longleftrightarrow> (\<exists>x. m = Inr x \<and> f x = Inr y)"
  by (cases m) auto

lemma bindR_assoc: "bindR (bindR m f) g = bindR m (\<lambda>x. bindR (f x) g)"
  by (cases m) auto

lemma bindR_cong [fundef_cong]:
  "m = m' \<Longrightarrow> (\<And>x. m' = Inr x \<Longrightarrow> f x = f' x) \<Longrightarrow> bindR m f = bindR m' f'"
  by (cases m') auto

lemma assertR_simps [simp]: "assertR True k = k" "assertR False k = Inl AssertFailed"
  by (simp_all add: assertR_def)

lemma assertR_Inr_iff: "assertR b k = Inr y \<longleftrightarrow> b \<and> k = Inr y"
  by (simp add: assertR_def)

lemma assertR_cong [fundef_cong]: "b = b' \<Longrightarrow> (b' \<Longrightarrow> k = k') \<Longrightarrow> assertR b k = assertR b' k'"
  by (simp add: assertR_def)

lemma wp_simps [simp, wp_rules]:
  "wp (fail s) Q" "\<not> wp (Inl OutOfBounds) Q" "\<not> wp (Inl AssertFailed) Q"
  "\<not> wp (Inl OutOfFuel) Q" "wp (Inr x) Q = Q x"
  by (simp_all add: wp_def)

lemma wp_bind [simp, wp_rules]: "wp (bindR m f) Q = wp m (\<lambda>x. wp (f x) Q)"
  by (cases m) (auto simp: wp_def split: stop.splits)

lemma wp_assert [simp, wp_rules]: "wp (assertR b k) Q = (b \<and> wp k Q)"
  by (simp add: assertR_def)

lemma wp_if [simp, wp_rules]:
  "wp (if b then x else y) Q \<longleftrightarrow> (b \<longrightarrow> wp x Q) \<and> (\<not> b \<longrightarrow> wp y Q)"
  by simp

lemma wp_bindI: "wp m P \<Longrightarrow> (\<And>x. P x \<Longrightarrow> wp (f x) Q) \<Longrightarrow> wp (bindR m f) Q"
  by (cases m) (auto simp: wp_def split: stop.splits)

lemma wp_mono: "wp r P \<Longrightarrow> (\<And>x. r = Inr x \<Longrightarrow> P x \<Longrightarrow> Q x) \<Longrightarrow> wp r Q"
  by (cases r) (auto simp: wp_def split: stop.splits)

lemma wp_Inr: "wp r Q \<Longrightarrow> r = Inr x \<Longrightarrow> Q x"
  by simp

lemma wp_iff:
  "wp r Q \<longleftrightarrow> r \<noteq> Inl OutOfBounds \<and> r \<noteq> Inl AssertFailed \<and> r \<noteq> Inl OutOfFuel \<and>
     (\<forall>x. r = Inr x \<longrightarrow> Q x)"
  by (cases r) (auto simp: wp_def split: stop.splits)

lemma wp_conj: "wp r (\<lambda>x. P x \<and> Q x) \<longleftrightarrow> wp r P \<and> wp r Q"
  by (auto simp: wp_iff)

section \<open>Byte buffers\<close>

text \<open>
  A C buffer is its address together with the bytes that may be accessed through it. Every access
  is checked against the number of bytes: an access beyond them is the outcome \<open>OutOfBounds\<close>.
\<close>

record buffer =
  Address :: u64
  Bytes :: "u8 list"

fun le_of_bytes :: "u8 list \<Rightarrow> nat" where
  "le_of_bytes [] = 0"
| "le_of_bytes (b # bs) = unat b + 256 * le_of_bytes bs"

fun le_to_bytes :: "nat \<Rightarrow> nat \<Rightarrow> u8 list" where
  "le_to_bytes 0 v = []"
| "le_to_bytes (Suc n) v = word_of_nat (v mod 256) # le_to_bytes n (v div 256)"

definition get_word :: "nat \<Rightarrow> u8 list \<Rightarrow> nat \<Rightarrow> ('w::len) word" where
  "get_word n b off = word_of_nat (le_of_bytes (take n (drop off b)))"

definition read_word :: "nat \<Rightarrow> u8 list \<Rightarrow> nat \<Rightarrow> ('w::len) word result" where
  "read_word n b off = (if off + n \<le> length b then Inr (get_word n b off) else Inl OutOfBounds)"

definition write_bytes :: "u8 list \<Rightarrow> nat \<Rightarrow> u8 list \<Rightarrow> u8 list result" where
  "write_bytes b off bs =
     (if off + length bs \<le> length b then Inr (take off b @ bs @ drop (off + length bs) b)
      else Inl OutOfBounds)"

definition read_bytes :: "u8 list \<Rightarrow> nat \<Rightarrow> nat \<Rightarrow> u8 list result" where
  "read_bytes b off n =
     (if off + n \<le> length b then Inr (take n (drop off b)) else Inl OutOfBounds)"

definition readU8 :: "u8 list \<Rightarrow> nat \<Rightarrow> u8 result" where "readU8 = read_word 1"
definition readU16 :: "u8 list \<Rightarrow> nat \<Rightarrow> u16 result" where "readU16 = read_word 2"
definition ReadUnaligned32 :: "u8 list \<Rightarrow> nat \<Rightarrow> u32 result" where "ReadUnaligned32 = read_word 4"
definition ReadUnaligned64 :: "u8 list \<Rightarrow> nat \<Rightarrow> u64 result" where "ReadUnaligned64 = read_word 8"

definition writeU16 :: "u8 list \<Rightarrow> nat \<Rightarrow> u16 \<Rightarrow> u8 list result" where
  "writeU16 b off v = write_bytes b off (le_to_bytes 2 (unat v))"
definition WriteUnaligned32 :: "u8 list \<Rightarrow> nat \<Rightarrow> u32 \<Rightarrow> u8 list result" where
  "WriteUnaligned32 b off v = write_bytes b off (le_to_bytes 4 (unat v))"
definition WriteUnaligned64 :: "u8 list \<Rightarrow> nat \<Rightarrow> u64 \<Rightarrow> u8 list result" where
  "WriteUnaligned64 b off v = write_bytes b off (le_to_bytes 8 (unat v))"

text \<open>ZeroMem and CopyMem of BaseMemoryLib on two distinct buffers.\<close>

definition ZeroMem :: "u8 list \<Rightarrow> nat \<Rightarrow> nat \<Rightarrow> u8 list result" where
  "ZeroMem b off n = (if n = 0 then Inr b else write_bytes b off (replicate n 0))"

definition CopyMem :: "u8 list \<Rightarrow> nat \<Rightarrow> u8 list \<Rightarrow> nat \<Rightarrow> nat \<Rightarrow> u8 list result" where
  "CopyMem dst doff src soff n =
     (if n = 0 then Inr dst
      else bindR (read_bytes src soff n) (\<lambda>bs. write_bytes dst doff bs))"

subsection \<open>Laws of the buffer operations\<close>

lemma unat_less_size: "unat (w :: 'w::len word) < 2 ^ LENGTH('w)"
  by (rule unsigned_less)

lemma u8_less: "unat (b :: u8) < 256"
  using unat_less_size [of b] by simp

lemma u16_less: "unat (b :: u16) < 65536"
  using unat_less_size [of b] by simp

lemma u32_less: "unat (b :: u32) < 4294967296"
  using unat_less_size [of b] by simp

lemma u64_less: "unat (b :: u64) < 18446744073709551616"
  using unat_less_size [of b] by simp

lemma length_le_to_bytes [simp]: "length (le_to_bytes n v) = n"
  by (induction n arbitrary: v) auto

text \<open>A sum that fits is exact.\<close>

lemma unat_add_u32: "unat a + unat b < 4294967296 \<Longrightarrow> unat (a + b :: u32) = unat a + unat b"
  by (simp add: unat_word_ariths(1))

lemma unat_add_u64: "unat a + unat b < 18446744073709551616 \<Longrightarrow> unat (a + b :: u64) = unat a + unat b"
  by (simp add: unat_word_ariths(1))

lemma le_of_bytes_bound: "le_of_bytes bs < 256 ^ length bs"
proof (induction bs)
  case Nil
  then show ?case by simp
next
  case (Cons b bs)
  have "unat b < 256"
    by (rule u8_less)
  moreover have "le_of_bytes bs + 1 \<le> 256 ^ length bs"
    using Cons by simp
  ultimately show ?case
    by simp
qed

lemma le_of_to_bytes [simp]: "le_of_bytes (le_to_bytes n v) = v mod 256 ^ n"
proof (induction n arbitrary: v)
  case 0
  then show ?case by simp
next
  case (Suc n)
  have "unat (word_of_nat (v mod 256) :: u8) = v mod 256"
    by (simp add: unat_of_nat)
  then have "le_of_bytes (le_to_bytes (Suc n) v) = v mod 256 + 256 * (v div 256 mod 256 ^ n)"
    using Suc by simp
  also have "\<dots> = v mod 256 ^ Suc n"
    by (simp add: mod_mult2_eq [of v 256 "256 ^ n"])
  finally show ?case .
qed

lemma le_to_of_bytes [simp]: "n = length bs \<Longrightarrow> le_to_bytes n (le_of_bytes bs) = bs"
proof (induction bs arbitrary: n)
  case Nil
  then show ?case by simp
next
  case (Cons b bs)
  have "unat b < 256"
    by (rule u8_less)
  with Cons show ?case
    by (simp add: mod_mult_self4 div_mult_self4)
qed

lemma wp_read_word [simp, wp_rules]:
  "wp (read_word n b off) Q \<longleftrightarrow> off + n \<le> length b \<and> Q (get_word n b off)"
  by (auto simp: read_word_def)

lemma wp_read_fixed [simp, wp_rules]:
  "wp (readU8 b off) Q8 \<longleftrightarrow> off + 1 \<le> length b \<and> Q8 (get_word 1 b off)"
  "wp (readU16 b off) Q16 \<longleftrightarrow> off + 2 \<le> length b \<and> Q16 (get_word 2 b off)"
  "wp (ReadUnaligned32 b off) Q32 \<longleftrightarrow> off + 4 \<le> length b \<and> Q32 (get_word 4 b off)"
  "wp (ReadUnaligned64 b off) Q64 \<longleftrightarrow> off + 8 \<le> length b \<and> Q64 (get_word 8 b off)"
  by (simp_all add: readU8_def readU16_def ReadUnaligned32_def ReadUnaligned64_def)

lemma wp_read_bytes [simp, wp_rules]:
  "wp (read_bytes b off n) Q \<longleftrightarrow> off + n \<le> length b \<and> Q (take n (drop off b))"
  by (auto simp: read_bytes_def)

lemma write_bytes_Inr_iff:
  "write_bytes b off bs = Inr b' \<longleftrightarrow>
     off + length bs \<le> length b \<and> b' = take off b @ bs @ drop (off + length bs) b"
  by (auto simp: write_bytes_def)

lemma write_bytes_length: "write_bytes b off bs = Inr b' \<Longrightarrow> length b' = length b"
  by (auto simp: write_bytes_Inr_iff)

lemma write_bytes_nth [buf_simps]:
  "write_bytes b off bs = Inr b' \<Longrightarrow> i < length b \<Longrightarrow>
     b' ! i = (if off \<le> i \<and> i < off + length bs then bs ! (i - off) else b ! i)"
  by (auto simp: write_bytes_Inr_iff nth_append)

lemma wp_write_bytes:
  "wp (write_bytes b off bs) Q \<longleftrightarrow>
     off + length bs \<le> length b \<and> Q (take off b @ bs @ drop (off + length bs) b)"
  by (auto simp: write_bytes_def)

lemma ZeroMem_append:
  "off + n \<le> length b \<Longrightarrow> ZeroMem b off n = Inr (take off b @ replicate n 0 @ drop (off + n) b)"
  by (auto simp: ZeroMem_def write_bytes_def)

lemma CopyMem_append:
  "doff + n \<le> length dst \<Longrightarrow> (n \<noteq> 0 \<Longrightarrow> soff + n \<le> length src) \<Longrightarrow>
     CopyMem dst doff src soff n = Inr (take doff dst @ take n (drop soff src) @ drop (doff + n) dst)"
  by (auto simp: CopyMem_def read_bytes_def write_bytes_def)

text \<open>A write followed by a read of the same field returns the value; disjoint fields are kept.\<close>

lemma read_bytes_cong:
  assumes "length b' = length b" and "\<And>i. off \<le> i \<Longrightarrow> i < off + n \<Longrightarrow> i < length b \<Longrightarrow> b' ! i = b ! i"
  shows "read_bytes b' off n = read_bytes b off n"
proof -
  have "take n (drop off b') = take n (drop off b)" if "off + n \<le> length b"
    by (rule nth_equalityI) (use assms that in auto)
  then show ?thesis
    by (simp add: read_bytes_def assms(1))
qed

lemma read_word_read_bytes:
  "read_word n b off = bindR (read_bytes b off n) (\<lambda>bs. Inr (word_of_nat (le_of_bytes bs)))"
  by (simp add: read_word_def read_bytes_def get_word_def)

lemma get_word_cong:
  "take n (drop off b') = take n (drop off b) \<Longrightarrow> get_word n b' off = get_word n b off"
  by (simp add: get_word_def)

lemma read_word_cong:
  assumes "length b' = length b" and "\<And>i. off \<le> i \<Longrightarrow> i < off + n \<Longrightarrow> i < length b \<Longrightarrow> b' ! i = b ! i"
  shows "read_word n b' off = read_word n b off"
  by (simp add: read_word_read_bytes read_bytes_cong [OF assms])

lemma read_bytes_write_same:
  "write_bytes b off bs = Inr b' \<Longrightarrow> read_bytes b' off (length bs) = Inr bs"
  by (auto simp: write_bytes_Inr_iff read_bytes_def)

lemma read_word_write_same:
  fixes v :: "'w::len word"
  assumes "write_bytes b off (le_to_bytes n (unat v)) = Inr b'" and "LENGTH('w) = 8 * n"
  shows "read_word n b' off = Inr v"
proof -
  have "(256::nat) ^ n = 2 ^ LENGTH('w)"
    using assms(2) by (simp add: power_mult)
  moreover have "read_bytes b' off n = Inr (le_to_bytes n (unat v))"
    using read_bytes_write_same [OF assms(1)] by simp
  ultimately show ?thesis
    using unat_less_size [of v] by (simp only: read_word_read_bytes bindR_simps le_of_to_bytes mod_less of_nat_unat ucast_id)
qed

subsection \<open>Frames\<close>

definition changes_only :: "nat \<Rightarrow> nat \<Rightarrow> u8 list \<Rightarrow> u8 list \<Rightarrow> bool" where
  "changes_only a n b b' \<longleftrightarrow>
     length b' = length b \<and> (\<forall>i < length b. i < a \<or> a + n \<le> i \<longrightarrow> b' ! i = b ! i)"

lemma changes_only_refl [simp]: "changes_only a n b b"
  by (simp add: changes_only_def)

lemma changes_only_length: "changes_only a n b b' \<Longrightarrow> length b' = length b"
  by (simp add: changes_only_def)

lemma changes_only_trans:
  "changes_only a n b b' \<Longrightarrow> changes_only a n b' b'' \<Longrightarrow> changes_only a n b b''"
  by (simp add: changes_only_def)

lemma changes_only_mono:
  "changes_only a n b b' \<Longrightarrow> a' \<le> a \<Longrightarrow> a + n \<le> a' + n' \<Longrightarrow> changes_only a' n' b b'"
  by (auto simp: changes_only_def)

lemma changes_only_take_drop:
  assumes "changes_only a n b b'" "off + m \<le> a \<or> a + n \<le> off"
  shows "take m (drop off b') = take m (drop off b)"
proof (rule nth_equalityI)
  show "length (take m (drop off b')) = length (take m (drop off b))"
    using changes_only_length [OF assms(1)] by simp
  fix i
  assume "i < length (take m (drop off b'))"
  then show "take m (drop off b') ! i = take m (drop off b) ! i"
    using assms by (auto simp: changes_only_def)
qed

lemma changes_only_get_word:
  "changes_only a n b b' \<Longrightarrow> off + m \<le> a \<or> a + n \<le> off \<Longrightarrow> get_word m b' off = get_word m b off"
  by (rule get_word_cong) (rule changes_only_take_drop)

lemma write_bytes_changes_only: "write_bytes b off bs = Inr b' \<Longrightarrow> changes_only off (length bs) b b'"
  by (auto simp: changes_only_def write_bytes_length write_bytes_nth)

lemma get_word_write_same:
  fixes v :: "'w::len word"
  assumes "write_bytes b off (le_to_bytes n (unat v)) = Inr b'" "LENGTH('w) = 8 * n"
  shows "get_word n b' off = v"
  using read_word_write_same [OF assms] by (auto simp: read_word_def split: if_splits)

lemma wp_write_fixed:
  assumes "LENGTH('w) = 8 * n" "off + n \<le> length b"
    and "\<And>b'. changes_only off n b b' \<Longrightarrow> get_word n b' off = (v :: 'w::len word) \<Longrightarrow> Q b'"
  shows "wp (write_bytes b off (le_to_bytes n (unat v))) Q"
proof -
  obtain b' where b': "write_bytes b off (le_to_bytes n (unat v)) = Inr b'"
    using assms(2) by (simp add: write_bytes_def)
  with write_bytes_changes_only [OF b'] get_word_write_same [OF b' assms(1)] assms(3) show ?thesis
    by simp
qed

lemma wp_write16: "off + 2 \<le> length b \<Longrightarrow>
    (\<And>b'. changes_only off 2 b b' \<Longrightarrow> get_word 2 b' off = v \<Longrightarrow> Q b') \<Longrightarrow> wp (writeU16 b off v) Q"
  unfolding writeU16_def by (rule wp_write_fixed) simp_all

lemma wp_write32: "off + 4 \<le> length b \<Longrightarrow>
    (\<And>b'. changes_only off 4 b b' \<Longrightarrow> get_word 4 b' off = v \<Longrightarrow> Q b') \<Longrightarrow> wp (WriteUnaligned32 b off v) Q"
  unfolding WriteUnaligned32_def by (rule wp_write_fixed) simp_all

lemma wp_write64: "off + 8 \<le> length b \<Longrightarrow>
    (\<And>b'. changes_only off 8 b b' \<Longrightarrow> get_word 8 b' off = v \<Longrightarrow> Q b') \<Longrightarrow> wp (WriteUnaligned64 b off v) Q"
  unfolding WriteUnaligned64_def by (rule wp_write_fixed) simp_all

end
