(* ===== verification/Alignment.thy ===== *)
theory Alignment
  imports Prelude
begin

text \<open>
  The power-of-two and alignment macros of \<^verbatim>\<open>MdePkg/Include/Base.h\<close>, which every size and
  address computation of the image loaders uses. They are bit operations on machine words; the
  lemmas give their meaning as divisibility and rounding of the represented numbers.
\<close>

section \<open>The macros\<close>

definition IS_POW2 :: "'w::len word \<Rightarrow> bool" where
  "IS_POW2 Value \<longleftrightarrow> Value \<noteq> 0 \<and> Value AND (Value - 1) = 0"

definition ALIGN_VALUE_SUBTRAHEND :: "'w::len word \<Rightarrow> 'w word \<Rightarrow> 'w word" where
  "ALIGN_VALUE_SUBTRAHEND Value Alignment = Value AND (Alignment - 1)"

definition IS_ALIGNED :: "'w::len word \<Rightarrow> 'w word \<Rightarrow> bool" where
  "IS_ALIGNED Value Alignment \<longleftrightarrow> ALIGN_VALUE_SUBTRAHEND Value Alignment = 0"

definition ALIGN_VALUE_ADDEND :: "'w::len word \<Rightarrow> 'w word \<Rightarrow> 'w word" where
  "ALIGN_VALUE_ADDEND Value Alignment = (Alignment - Value) AND (Alignment - 1)"

definition ALIGN_VALUE :: "'w::len word \<Rightarrow> 'w word \<Rightarrow> 'w word" where
  "ALIGN_VALUE Value Alignment = Value + ALIGN_VALUE_ADDEND Value Alignment"

section \<open>Powers of two\<close>

lemma double_pow2_iff: "(\<exists>k. m = (2 :: nat) ^ k) \<longleftrightarrow> (\<exists>k. 2 * m = 2 ^ k)"
proof
  assume "\<exists>k. 2 * m = 2 ^ k"
  then obtain k where "2 * m = 2 ^ k" ..
  then show "\<exists>k. m = 2 ^ k"
    by (cases k) auto
qed (metis power_Suc)

lemma odd_pow2_iff: "(\<exists>k. 2 * m + 1 = (2 :: nat) ^ k) \<longleftrightarrow> m = 0"
proof
  assume "\<exists>k. 2 * m + 1 = (2 :: nat) ^ k"
  then obtain k where k: "2 * m + 1 = (2 :: nat) ^ k" ..
  then show "m = 0"
    by (cases k) (auto, presburger)
qed (auto intro: exI [of _ 0])

lemma nat_and_pred_eq_0_iff: "(n :: nat) AND (n - 1) = 0 \<longleftrightarrow> n = 0 \<or> (\<exists>k. n = 2 ^ k)"
proof (induction n rule: less_induct)
  case (less n)
  show ?case
  proof (cases "n = 0")
    case False
    show ?thesis
    proof (cases "even n")
      case True
      then obtain m where n: "n = 2 * m"
        by blast
      with False have m: "0 < m" "m < n"
        by auto
      have "(n - 1) div 2 = m - 1"
        using n m by simp
      then have "n AND (n - 1) = 2 * (m AND (m - 1))"
        using n by (subst and_rec) simp
      then have "n AND (n - 1) = 0 \<longleftrightarrow> (\<exists>k. m = 2 ^ k)"
        using less.IH [OF m(2)] m(1) by simp
      moreover have "(\<exists>k. m = 2 ^ k) \<longleftrightarrow> (\<exists>k. n = 2 ^ k)"
        using n True by (simp add: double_pow2_iff [of m])
      ultimately show ?thesis
        using False by simp
    next
      case odd: False
      then obtain m where n: "n = 2 * m + 1"
        by (elim oddE)
      have "n AND (n - 1) = 2 * m"
        using n by (subst and_rec) simp
      moreover have "(\<exists>k. n = 2 ^ k) \<longleftrightarrow> m = 0"
        using n odd by (simp only: odd_pow2_iff)
      ultimately show ?thesis
        using False by simp
    qed
  qed simp
qed

lemma unat_pred: "a \<noteq> 0 \<Longrightarrow> unat (a - 1) = unat a - 1"
  by (rule unat_minus_one)

lemma IS_POW2_iff:
  "IS_POW2 (a :: 'w::len word) \<longleftrightarrow> (\<exists>k < LENGTH('w). unat a = 2 ^ k)"
proof -
  have "a AND (a - 1) = 0 \<longleftrightarrow> unat a AND (unat a - 1) = 0" if "a \<noteq> 0"
    using that by (simp add: unsigned_and_eq [symmetric] unat_pred [symmetric] unat_eq_zero
        del: One_nat_def)
  moreover have "k < LENGTH('w)" if "unat a = 2 ^ k" for k
    using that unat_less_size [of a] by simp
  moreover have "unat a \<noteq> 0" if "a \<noteq> 0"
    using that by (simp add: unat_eq_zero)
  ultimately show ?thesis
    unfolding IS_POW2_def using nat_and_pred_eq_0_iff [of "unat a"]
    by (cases "a = 0") auto
qed

lemma IS_POW2_E:
  assumes "IS_POW2 (a :: 'w::len word)"
  obtains k where "k < LENGTH('w)" "unat a = 2 ^ k"
  using assms by (auto simp: IS_POW2_iff)

lemma IS_POW2_pos: "IS_POW2 a \<Longrightarrow> 0 < unat a"
  by (auto simp: IS_POW2_iff)

lemma IS_POW2_nonzero [dest]: "IS_POW2 a \<Longrightarrow> a \<noteq> 0"
  by (simp add: IS_POW2_def)

section \<open>Alignment\<close>

lemma unat_and_pred:
  assumes "IS_POW2 a"
  shows "unat (v AND (a - 1)) = unat v mod unat a"
proof -
  obtain k where k: "unat a = 2 ^ k"
    using assms by (auto elim: IS_POW2_E)
  have "unat (v AND (a - 1)) = unat v AND (2 ^ k - 1)"
    using assms k by (simp add: unsigned_and_eq unat_pred IS_POW2_nonzero del: One_nat_def)
  also have "\<dots> = take_bit k (unat v)"
    by (simp only: take_bit_eq_mask mask_eq_exp_minus_1)
  finally show ?thesis
    by (simp add: k take_bit_eq_mod)
qed

lemma IS_ALIGNED_iff_dvd: "IS_POW2 a \<Longrightarrow> IS_ALIGNED v a \<longleftrightarrow> unat a dvd unat v"
  by (simp add: IS_ALIGNED_def ALIGN_VALUE_SUBTRAHEND_def unat_eq_zero [symmetric] unat_and_pred
      dvd_eq_mod_eq_0)

lemma unat_and_not_pred:
  assumes "IS_POW2 a"
  shows "unat (v AND NOT (a - 1)) = unat v - unat v mod unat a"
proof -
  have "v AND NOT (a - 1) = v - (v AND (a - 1))"
    by (subst disjunctive_diff) (auto intro: bit_eqI simp: bit_simps)
  moreover have "v AND (a - 1) \<le> v"
    using assms by (simp add: word_le_nat_alt unat_and_pred)
  ultimately show ?thesis
    using assms by (simp add: unat_sub unat_and_pred)
qed

lemma unat_ALIGN_VALUE_ADDEND:
  assumes "IS_POW2 (a :: 'w::len word)"
  shows "unat (ALIGN_VALUE_ADDEND v a) = (unat a - unat v mod unat a) mod unat a"
proof -
  obtain k where k: "k < LENGTH('w)" "unat a = 2 ^ k"
    using assms by (auto elim: IS_POW2_E)
  have dvd: "int (2 ^ k) dvd 2 ^ LENGTH('w)"
    using k by (simp add: le_imp_power_dvd)
  have "uint (a - v) mod int (2 ^ k) = (uint a - uint v) mod int (2 ^ k)"
    using dvd by (simp add: uint_word_ariths mod_mod_cancel)
  also have "\<dots> = (- uint v) mod int (2 ^ k)"
    using k(2) by (simp add: uint_nat del: of_nat_unat)
  finally have "int (unat (a - v) mod 2 ^ k) = (- int (unat v)) mod int (2 ^ k)"
    by (simp add: of_nat_mod)
  also have "\<dots> = int ((2 ^ k - unat v mod 2 ^ k) mod 2 ^ k)"
    by (simp add: of_nat_mod of_nat_diff zmod_zminus1_eq_if less_imp_le)
  finally show ?thesis
    using assms k by (simp only: ALIGN_VALUE_ADDEND_def unat_and_pred of_nat_eq_iff)
qed

text \<open>The least multiple of \<open>a\<close> that is at least \<open>v\<close>, as a natural number.\<close>

definition align_up :: "nat \<Rightarrow> nat \<Rightarrow> nat" where
  "align_up v a = v + (a - v mod a) mod a"

lemma align_up_eq_div: "0 < a \<Longrightarrow> align_up v a = (v + (a - 1)) div a * a"
proof -
  assume a: "0 < a"
  define q r where "q = v div a" and "r = v mod a"
  have v: "v = q * a + r" and r: "r < a"
    using a by (simp_all add: q_def r_def)
  show ?thesis
  proof (cases "r = 0")
    case True
    then have "(v + (a - 1)) div a = q"
      using v a by (intro div_nat_eqI) (simp_all add: algebra_simps)
    then show ?thesis
      using v True by (simp add: align_up_def)
  next
    case False
    then have "(v + (a - 1)) div a = q + 1"
      using v r a by (intro div_nat_eqI) (simp_all add: algebra_simps)
    then show ?thesis
      using v r False by (simp add: align_up_def)
  qed
qed

lemma align_up_dvd [simp, intro]: "0 < a \<Longrightarrow> a dvd align_up v a"
  by (simp add: align_up_eq_div)

lemma align_up_ge [simp]: "v \<le> align_up v a"
  by (simp add: align_up_def)

lemma align_up_less: "0 < a \<Longrightarrow> align_up v a < v + a"
  by (simp add: align_up_def)

lemma align_up_least: "a dvd w \<Longrightarrow> v \<le> w \<Longrightarrow> align_up v a \<le> w"
proof (cases "a = 0")
  case False
  assume "a dvd w" "v \<le> w"
  then obtain k where w: "w = a * k"
    by blast
  show ?thesis
  proof (rule ccontr)
    assume "\<not> align_up v a \<le> w"
    moreover obtain j where j: "align_up v a = a * j"
      using False align_up_dvd by blast
    ultimately have "k < j"
      using w by simp
    then have "a * (k + 1) \<le> a * j"
      by (intro mult_le_mono2) simp
    then have "w + a \<le> align_up v a"
      using w j by simp
    moreover have "align_up v a < v + a"
      using False by (simp add: align_up_less)
    ultimately show False
      using \<open>v \<le> w\<close> by linarith
  qed
qed (simp add: align_up_def)

lemma align_up_id_iff: "0 < a \<Longrightarrow> align_up v a = v \<longleftrightarrow> a dvd v"
  by (metis align_up_dvd align_up_ge align_up_least le_antisym order_refl)

lemma align_up_mono: "v \<le> w \<Longrightarrow> align_up v a \<le> align_up w a"
  by (cases "a = 0") (simp_all add: align_up_eq_div div_le_mono, simp add: align_up_def)

lemma pow2_dvd_size:
  assumes "IS_POW2 (a :: 'w::len word)"
  shows "unat a dvd 2 ^ LENGTH('w)"
  using assms by (auto simp: IS_POW2_iff le_imp_power_dvd)

lemma align_up_le_size:
  assumes "IS_POW2 (a :: 'w::len word)"
  shows "align_up (unat (v :: 'w word)) (unat a) \<le> 2 ^ LENGTH('w)"
  by (rule align_up_least [OF pow2_dvd_size [OF assms]]) (rule less_imp_le [OF unat_less_size])

lemma unat_ALIGN_VALUE:
  assumes "IS_POW2 (a :: 'w::len word)"
  shows "unat (ALIGN_VALUE v a) = align_up (unat v) (unat a) mod 2 ^ LENGTH('w)"
  using assms
  by (simp add: ALIGN_VALUE_def align_up_def unat_word_ariths(1) unat_ALIGN_VALUE_ADDEND)

end
