(* ===== verification/Overflow.thy ===== *)
theory Overflow
  imports Alignment "HOL-Library.Signed_Division"
begin

text \<open>
  BaseOverflowLib: checked integer arithmetic. Each operation returns the overflow flag together
  with the value stored through the result pointer. The definitions are the portable branches of
  the code (those compiled where the compiler offers no overflow builtins); UINTN and INTN are the
  64-bit types. The contract of such an operation is the locale \<open>checked_op\<close>: the flag is raised
  exactly when the mathematical result is not representable, and otherwise the stored value is that
  result. Signed values are words read by \<^const>\<open>sint\<close>.
\<close>

section \<open>Base operations (BaseBitOverflow.c)\<close>

subsection \<open>BaseLib 64-bit helpers\<close>

text \<open>
  The shift counts in the modelled code are the literals 1 and 32, so that the
  \<^verbatim>\<open>ASSERT (Count < 64)\<close> of the two shift functions always holds.
\<close>

definition RShiftU64 :: "u64 \<Rightarrow> nat \<Rightarrow> u64" where "RShiftU64 Operand Count = drop_bit Count Operand"
definition LShiftU64 :: "u64 \<Rightarrow> nat \<Rightarrow> u64" where "LShiftU64 Operand Count = push_bit Count Operand"
definition MultU64x64 :: "u64 \<Rightarrow> u64 \<Rightarrow> u64" where
  "MultU64x64 Multiplicand Multiplier = Multiplicand * Multiplier"
definition MultS64x64 :: "u64 \<Rightarrow> u64 \<Rightarrow> u64" where
  "MultS64x64 Multiplicand Multiplier = MultU64x64 Multiplicand Multiplier"

abbreviation (input) MAX_UINT16 :: "'w::len word" where "MAX_UINT16 \<equiv> 0xFFFF"
abbreviation (input) MAX_UINT32 :: "'w::len word" where "MAX_UINT32 \<equiv> 0xFFFFFFFF"
abbreviation (input) MAX_UINT64 :: "u64" where "MAX_UINT64 \<equiv> 0xFFFFFFFFFFFFFFFF"
abbreviation (input) MIN_INT32 :: "u64" where "MIN_INT32 \<equiv> - 0x80000000"
abbreviation (input) MAX_INT32 :: "u64" where "MAX_INT32 \<equiv> 0x7FFFFFFF"
abbreviation (input) MIN_INT64 :: "u64" where "MIN_INT64 \<equiv> 0x8000000000000000"
abbreviation (input) MAX_INT64 :: "u64" where "MAX_INT64 \<equiv> 0x7FFFFFFFFFFFFFFF"

subsection \<open>16-bit\<close>

definition BaseOverflowAddU16 :: "u16 \<Rightarrow> u16 \<Rightarrow> bool \<times> u16" where
  "BaseOverflowAddU16 A B =
     (let Temp = (ucast A + ucast B :: u32);
          Result = ucast Temp
      in if Temp \<le> MAX_UINT16 then (False, Result) else (True, Result))"

definition BaseOverflowSubU16 :: "u16 \<Rightarrow> u16 \<Rightarrow> bool \<times> u16" where
  "BaseOverflowSubU16 A B =
     (let Result = A - B
      in if B \<le> A then (False, Result) else (True, Result))"

definition BaseOverflowMulU16 :: "u16 \<Rightarrow> u16 \<Rightarrow> bool \<times> u16" where
  "BaseOverflowMulU16 A B =
     (let Temp = (ucast A * ucast B :: u32);
          Result = ucast Temp
      in if Temp \<le> MAX_UINT32 then (False, Result) else (True, Result))"

subsection \<open>32-bit\<close>

definition BaseOverflowAddU32 :: "u32 \<Rightarrow> u32 \<Rightarrow> bool \<times> u32" where
  "BaseOverflowAddU32 A B =
     (let Temp = A + B
      in if A \<le> Temp then (False, Temp) else (True, Temp))"

definition BaseOverflowSubU32 :: "u32 \<Rightarrow> u32 \<Rightarrow> bool \<times> u32" where
  "BaseOverflowSubU32 A B =
     (let Result = A - B
      in if B \<le> A then (False, Result) else (True, Result))"

definition BaseOverflowMulU32 :: "u32 \<Rightarrow> u32 \<Rightarrow> bool \<times> u32" where
  "BaseOverflowMulU32 A B =
     (let Temp = (ucast A * ucast B :: u64);
          Result = ucast Temp
      in if Temp \<le> MAX_UINT32 then (False, Result) else (True, Result))"

definition BaseOverflowAddS32 :: "u32 \<Rightarrow> u32 \<Rightarrow> bool \<times> u32" where
  "BaseOverflowAddS32 A B =
     (let Temp = (scast A + scast B :: u64);
          Result = ucast Temp
      in if MIN_INT32 \<le>s Temp \<and> Temp \<le>s MAX_INT32 then (False, Result) else (True, Result))"

definition BaseOverflowSubS32 :: "u32 \<Rightarrow> u32 \<Rightarrow> bool \<times> u32" where
  "BaseOverflowSubS32 A B =
     (let Temp = (scast A - scast B :: u64);
          Result = ucast Temp
      in if MIN_INT32 \<le>s Temp \<and> Temp \<le>s MAX_INT32 then (False, Result) else (True, Result))"

definition BaseOverflowMulS32 :: "u32 \<Rightarrow> u32 \<Rightarrow> bool \<times> u32" where
  "BaseOverflowMulS32 A B =
     (let Temp = MultS64x64 (scast A) (scast B);
          Result = ucast Temp
      in if MIN_INT32 \<le>s Temp \<and> Temp \<le>s MAX_INT32 then (False, Result) else (True, Result))"

subsection \<open>64-bit\<close>

definition BaseOverflowAddU64 :: "u64 \<Rightarrow> u64 \<Rightarrow> bool \<times> u64" where
  "BaseOverflowAddU64 A B =
     (let Temp = A + B
      in if A \<le> Temp then (False, Temp) else (True, Temp))"

definition BaseOverflowSubU64 :: "u64 \<Rightarrow> u64 \<Rightarrow> bool \<times> u64" where
  "BaseOverflowSubU64 A B =
     (let Result = A - B
      in if B \<le> A then (False, Result) else (True, Result))"

definition BaseOverflowMulU64 :: "u64 \<Rightarrow> u64 \<Rightarrow> bool \<times> u64" where
  "BaseOverflowMulU64 A B =
     (let AHi = RShiftU64 A 32;
          ALo = A AND MAX_UINT32;
          BHi = RShiftU64 B 32;
          BLo = B AND MAX_UINT32;
          LoBits = MultU64x64 ALo BLo
      in if AHi = 0 \<and> BHi = 0 then (False, LoBits)
         else
           let Overflow = (0 < AHi \<and> 0 < BHi);
               HiBits1 = MultU64x64 ALo BHi;
               HiBits2 = MultU64x64 AHi BLo;
               Result = LoBits + LShiftU64 (HiBits1 + HiBits2) 32
           in (Overflow \<or> Result < LoBits \<or> RShiftU64 HiBits1 32 \<noteq> 0 \<or> RShiftU64 HiBits2 32 \<noteq> 0,
               Result))"

definition BaseOverflowAddS64 :: "u64 \<Rightarrow> u64 \<Rightarrow> bool \<times> u64" where
  "BaseOverflowAddS64 A B =
     (if (B \<le>s 0 \<or> A \<le>s MAX_INT64 - B) \<and> (0 \<le>s B \<or> MIN_INT64 - B \<le>s A)
      then (False, A + B)
      else (True, 0))"

definition BaseOverflowSubS64 :: "u64 \<Rightarrow> u64 \<Rightarrow> bool \<times> u64" where
  "BaseOverflowSubS64 A B =
     (if (0 \<le>s B \<or> A \<le>s MAX_INT64 + B) \<and> (B \<le>s 0 \<or> MIN_INT64 + B \<le>s A)
      then (False, A - B)
      else (True, 0))"

definition OC_ABS_64 :: "u64 \<Rightarrow> u64" where
  "OC_ABS_64 X = (if X <s 0 then (- (X + 1)) + 1 else X)"

definition BaseOverflowMulS64 :: "u64 \<Rightarrow> u64 \<Rightarrow> bool \<times> u64" where
  "BaseOverflowMulS64 A B =
     (let AU = OC_ABS_64 A;
          BU = OC_ABS_64 B;
          (Overflow, ResultU) = BaseOverflowMulU64 AU BU
      in if Overflow then (True, 0)
         else if (A <s 0) = (B <s 0) then
           (if ResultU \<le> MAX_INT64 then (False, ResultU) else (True, 0))
         else
           (if ResultU < OC_ABS_64 MIN_INT64 then (False, - ResultU)
            else if ResultU = OC_ABS_64 MIN_INT64 then (False, MIN_INT64)
            else (True, 0)))"

section \<open>Native-width operations (BaseNativeOverflow.c)\<close>

definition sizeof_UINTN :: nat where "sizeof_UINTN = 8"
definition sizeof_UINT64 :: nat where "sizeof_UINT64 = 8"

definition native :: "(u64 \<Rightarrow> u64 \<Rightarrow> bool \<times> u64) \<Rightarrow> (u32 \<Rightarrow> u32 \<Rightarrow> bool \<times> u32) \<Rightarrow> u64 \<Rightarrow> u64 \<Rightarrow> bool \<times> u64"
  where
  "native op64 op32 A B =
     (if sizeof_UINTN = sizeof_UINT64 then op64 A B
      else let (Overflow, Result) = op32 (ucast A) (ucast B) in (Overflow, ucast Result))"

definition BaseOverflowAddUN :: "u64 \<Rightarrow> u64 \<Rightarrow> bool \<times> u64" where
  "BaseOverflowAddUN A B = native BaseOverflowAddU64 BaseOverflowAddU32 A B"
definition BaseOverflowSubUN :: "u64 \<Rightarrow> u64 \<Rightarrow> bool \<times> u64" where
  "BaseOverflowSubUN A B = native BaseOverflowSubU64 BaseOverflowSubU32 A B"
definition BaseOverflowMulUN :: "u64 \<Rightarrow> u64 \<Rightarrow> bool \<times> u64" where
  "BaseOverflowMulUN A B = native BaseOverflowMulU64 BaseOverflowMulU32 A B"
definition BaseOverflowAddSN :: "u64 \<Rightarrow> u64 \<Rightarrow> bool \<times> u64" where
  "BaseOverflowAddSN A B = native BaseOverflowAddS64 BaseOverflowAddS32 A B"
definition BaseOverflowSubSN :: "u64 \<Rightarrow> u64 \<Rightarrow> bool \<times> u64" where
  "BaseOverflowSubSN A B = native BaseOverflowSubS64 BaseOverflowSubS32 A B"
definition BaseOverflowMulSN :: "u64 \<Rightarrow> u64 \<Rightarrow> bool \<times> u64" where
  "BaseOverflowMulSN A B = native BaseOverflowMulS64 BaseOverflowMulS32 A B"

section \<open>Combined operations (BaseTripleOverflow.c)\<close>

text \<open>
  Every combined operation performs a first and a second checked operation and reports an overflow
  of either.
\<close>

definition BaseOverflowTriAddU32 :: "u32 \<Rightarrow> u32 \<Rightarrow> u32 \<Rightarrow> bool \<times> u32" where
  "BaseOverflowTriAddU32 A B C =
     (let (BaseFirst, BaseTmp) = BaseOverflowAddU32 A B;
          (BaseSecond, Result) = BaseOverflowAddU32 BaseTmp C
      in (BaseFirst \<or> BaseSecond, Result))"

definition BaseOverflowTriMulU32 :: "u32 \<Rightarrow> u32 \<Rightarrow> u32 \<Rightarrow> bool \<times> u32" where
  "BaseOverflowTriMulU32 A B C =
     (let (BaseFirst, BaseTmp) = BaseOverflowMulU32 A B;
          (BaseSecond, Result) = BaseOverflowMulU32 BaseTmp C
      in (BaseFirst \<or> BaseSecond, Result))"

definition BaseOverflowAddMulU32 :: "u32 \<Rightarrow> u32 \<Rightarrow> u32 \<Rightarrow> bool \<times> u32" where
  "BaseOverflowAddMulU32 A B C =
     (let (BaseFirst, BaseTmp) = BaseOverflowAddU32 A B;
          (BaseSecond, Result) = BaseOverflowMulU32 BaseTmp C
      in (BaseFirst \<or> BaseSecond, Result))"

definition BaseOverflowMulAddU32 :: "u32 \<Rightarrow> u32 \<Rightarrow> u32 \<Rightarrow> bool \<times> u32" where
  "BaseOverflowMulAddU32 A B C =
     (let (BaseFirst, BaseTmp) = BaseOverflowMulU32 A B;
          (BaseSecond, Result) = BaseOverflowAddU32 BaseTmp C
      in (BaseFirst \<or> BaseSecond, Result))"

definition BaseOverflowTriAddS32 :: "u32 \<Rightarrow> u32 \<Rightarrow> u32 \<Rightarrow> bool \<times> u32" where
  "BaseOverflowTriAddS32 A B C =
     (let (BaseFirst, BaseTmp) = BaseOverflowAddS32 A B;
          (BaseSecond, Result) = BaseOverflowAddS32 BaseTmp C
      in (BaseFirst \<or> BaseSecond, Result))"

definition BaseOverflowTriMulS32 :: "u32 \<Rightarrow> u32 \<Rightarrow> u32 \<Rightarrow> bool \<times> u32" where
  "BaseOverflowTriMulS32 A B C =
     (let (BaseFirst, BaseTmp) = BaseOverflowMulS32 A B;
          (BaseSecond, Result) = BaseOverflowMulS32 BaseTmp C
      in (BaseFirst \<or> BaseSecond, Result))"

definition BaseOverflowAddMulS32 :: "u32 \<Rightarrow> u32 \<Rightarrow> u32 \<Rightarrow> bool \<times> u32" where
  "BaseOverflowAddMulS32 A B C =
     (let (BaseFirst, BaseTmp) = BaseOverflowAddS32 A B;
          (BaseSecond, Result) = BaseOverflowMulS32 BaseTmp C
      in (BaseFirst \<or> BaseSecond, Result))"

definition BaseOverflowMulAddS32 :: "u32 \<Rightarrow> u32 \<Rightarrow> u32 \<Rightarrow> bool \<times> u32" where
  "BaseOverflowMulAddS32 A B C =
     (let (BaseFirst, BaseTmp) = BaseOverflowMulS32 A B;
          (BaseSecond, Result) = BaseOverflowAddS32 BaseTmp C
      in (BaseFirst \<or> BaseSecond, Result))"

definition BaseOverflowTriAddU64 :: "u64 \<Rightarrow> u64 \<Rightarrow> u64 \<Rightarrow> bool \<times> u64" where
  "BaseOverflowTriAddU64 A B C =
     (let (BaseFirst, BaseTmp) = BaseOverflowAddU64 A B;
          (BaseSecond, Result) = BaseOverflowAddU64 BaseTmp C
      in (BaseFirst \<or> BaseSecond, Result))"

definition BaseOverflowTriMulU64 :: "u64 \<Rightarrow> u64 \<Rightarrow> u64 \<Rightarrow> bool \<times> u64" where
  "BaseOverflowTriMulU64 A B C =
     (let (BaseFirst, BaseTmp) = BaseOverflowMulU64 A B;
          (BaseSecond, Result) = BaseOverflowMulU64 BaseTmp C
      in (BaseFirst \<or> BaseSecond, Result))"

definition BaseOverflowAddMulU64 :: "u64 \<Rightarrow> u64 \<Rightarrow> u64 \<Rightarrow> bool \<times> u64" where
  "BaseOverflowAddMulU64 A B C =
     (let (BaseFirst, BaseTmp) = BaseOverflowAddU64 A B;
          (BaseSecond, Result) = BaseOverflowMulU64 BaseTmp C
      in (BaseFirst \<or> BaseSecond, Result))"

definition BaseOverflowMulAddU64 :: "u64 \<Rightarrow> u64 \<Rightarrow> u64 \<Rightarrow> bool \<times> u64" where
  "BaseOverflowMulAddU64 A B C =
     (let (BaseFirst, BaseTmp) = BaseOverflowMulU64 A B;
          (BaseSecond, Result) = BaseOverflowAddU64 BaseTmp C
      in (BaseFirst \<or> BaseSecond, Result))"

definition BaseOverflowTriAddS64 :: "u64 \<Rightarrow> u64 \<Rightarrow> u64 \<Rightarrow> bool \<times> u64" where
  "BaseOverflowTriAddS64 A B C =
     (let (BaseFirst, BaseTmp) = BaseOverflowAddS64 A B;
          (BaseSecond, Result) = BaseOverflowAddS64 BaseTmp C
      in (BaseFirst \<or> BaseSecond, Result))"

definition BaseOverflowTriMulS64 :: "u64 \<Rightarrow> u64 \<Rightarrow> u64 \<Rightarrow> bool \<times> u64" where
  "BaseOverflowTriMulS64 A B C =
     (let (BaseFirst, BaseTmp) = BaseOverflowMulS64 A B;
          (BaseSecond, Result) = BaseOverflowMulS64 BaseTmp C
      in (BaseFirst \<or> BaseSecond, Result))"

definition BaseOverflowAddMulS64 :: "u64 \<Rightarrow> u64 \<Rightarrow> u64 \<Rightarrow> bool \<times> u64" where
  "BaseOverflowAddMulS64 A B C =
     (let (BaseFirst, BaseTmp) = BaseOverflowAddS64 A B;
          (BaseSecond, Result) = BaseOverflowMulS64 BaseTmp C
      in (BaseFirst \<or> BaseSecond, Result))"

definition BaseOverflowMulAddS64 :: "u64 \<Rightarrow> u64 \<Rightarrow> u64 \<Rightarrow> bool \<times> u64" where
  "BaseOverflowMulAddS64 A B C =
     (let (BaseFirst, BaseTmp) = BaseOverflowMulS64 A B;
          (BaseSecond, Result) = BaseOverflowAddS64 BaseTmp C
      in (BaseFirst \<or> BaseSecond, Result))"

definition BaseOverflowTriAddUN :: "u64 \<Rightarrow> u64 \<Rightarrow> u64 \<Rightarrow> bool \<times> u64" where
  "BaseOverflowTriAddUN A B C =
     (let (BaseFirst, BaseTmp) = BaseOverflowAddUN A B;
          (BaseSecond, Result) = BaseOverflowAddUN BaseTmp C
      in (BaseFirst \<or> BaseSecond, Result))"

definition BaseOverflowTriMulUN :: "u64 \<Rightarrow> u64 \<Rightarrow> u64 \<Rightarrow> bool \<times> u64" where
  "BaseOverflowTriMulUN A B C =
     (let (BaseFirst, BaseTmp) = BaseOverflowMulUN A B;
          (BaseSecond, Result) = BaseOverflowMulUN BaseTmp C
      in (BaseFirst \<or> BaseSecond, Result))"

definition BaseOverflowAddMulUN :: "u64 \<Rightarrow> u64 \<Rightarrow> u64 \<Rightarrow> bool \<times> u64" where
  "BaseOverflowAddMulUN A B C =
     (let (BaseFirst, BaseTmp) = BaseOverflowAddUN A B;
          (BaseSecond, Result) = BaseOverflowMulUN BaseTmp C
      in (BaseFirst \<or> BaseSecond, Result))"

definition BaseOverflowMulAddUN :: "u64 \<Rightarrow> u64 \<Rightarrow> u64 \<Rightarrow> bool \<times> u64" where
  "BaseOverflowMulAddUN A B C =
     (let (BaseFirst, BaseTmp) = BaseOverflowMulUN A B;
          (BaseSecond, Result) = BaseOverflowAddUN BaseTmp C
      in (BaseFirst \<or> BaseSecond, Result))"

definition BaseOverflowTriAddSN :: "u64 \<Rightarrow> u64 \<Rightarrow> u64 \<Rightarrow> bool \<times> u64" where
  "BaseOverflowTriAddSN A B C =
     (let (BaseFirst, BaseTmp) = BaseOverflowAddSN A B;
          (BaseSecond, Result) = BaseOverflowAddSN BaseTmp C
      in (BaseFirst \<or> BaseSecond, Result))"

definition BaseOverflowTriMulSN :: "u64 \<Rightarrow> u64 \<Rightarrow> u64 \<Rightarrow> bool \<times> u64" where
  "BaseOverflowTriMulSN A B C =
     (let (BaseFirst, BaseTmp) = BaseOverflowMulSN A B;
          (BaseSecond, Result) = BaseOverflowMulSN BaseTmp C
      in (BaseFirst \<or> BaseSecond, Result))"

definition BaseOverflowAddMulSN :: "u64 \<Rightarrow> u64 \<Rightarrow> u64 \<Rightarrow> bool \<times> u64" where
  "BaseOverflowAddMulSN A B C =
     (let (BaseFirst, BaseTmp) = BaseOverflowAddSN A B;
          (BaseSecond, Result) = BaseOverflowMulSN BaseTmp C
      in (BaseFirst \<or> BaseSecond, Result))"

definition BaseOverflowMulAddSN :: "u64 \<Rightarrow> u64 \<Rightarrow> u64 \<Rightarrow> bool \<times> u64" where
  "BaseOverflowMulAddSN A B C =
     (let (BaseFirst, BaseTmp) = BaseOverflowMulSN A B;
          (BaseSecond, Result) = BaseOverflowAddSN BaseTmp C
      in (BaseFirst \<or> BaseSecond, Result))"

section \<open>Alignment and long division (BaseAlignment.c, BaseMath.c)\<close>

definition BaseOverflowAlignUpU32 :: "u32 \<Rightarrow> u32 \<Rightarrow> bool \<times> u32" where
  "BaseOverflowAlignUpU32 Value Alignment =
     (let (Status, Result) = BaseOverflowAddU32 Value (Alignment - 1)
      in (Status, Result AND NOT (Alignment - 1)))"

definition DivU64x64Remainder :: "u64 \<Rightarrow> u64 \<Rightarrow> (u64 \<times> u64) result" where
  "DivU64x64Remainder Dividend Divisor =
     assertR (Divisor \<noteq> 0) (Inr (Dividend div Divisor, Dividend mod Divisor))"

definition DivU64x32Remainder :: "u64 \<Rightarrow> u32 \<Rightarrow> (u64 \<times> u32) result" where
  "DivU64x32Remainder Dividend Divisor =
     assertR (Divisor \<noteq> 0) (Inr (Dividend div ucast Divisor, ucast (Dividend mod ucast Divisor)))"

section \<open>The contract of checked arithmetic\<close>

text \<open>
  \<open>val\<close> reads a machine integer, \<open>repr\<close> says which integers the type represents, \<open>exact\<close> is
  the mathematical operation and \<open>op\<close> the checked one.
\<close>

locale checked_op =
  fixes val :: "'a \<Rightarrow> int" and repr :: "int \<Rightarrow> bool"
    and exact :: "int \<Rightarrow> int \<Rightarrow> int" and op :: "'a \<Rightarrow> 'a \<Rightarrow> bool \<times> 'a"
  assumes val_repr: "repr (val a)"
    and flag_iff: "fst (op a b) \<longleftrightarrow> \<not> repr (exact (val a) (val b))"
    and value_exact: "\<not> fst (op a b) \<Longrightarrow> val (snd (op a b)) = exact (val a) (val b)"

text \<open>Two checked operations in a row, as all functions of BaseTripleOverflow.c perform them.\<close>

locale checked_pair =
  first: checked_op val repr exact1 op1 + second: checked_op val repr exact2 op2
  for val :: "'a \<Rightarrow> int" and repr :: "int \<Rightarrow> bool"
    and exact1 :: "int \<Rightarrow> int \<Rightarrow> int" and op1 :: "'a \<Rightarrow> 'a \<Rightarrow> bool \<times> 'a"
    and exact2 :: "int \<Rightarrow> int \<Rightarrow> int" and op2 :: "'a \<Rightarrow> 'a \<Rightarrow> bool \<times> 'a" +
  fixes combined :: "'a \<Rightarrow> 'a \<Rightarrow> 'a \<Rightarrow> bool \<times> 'a"
  assumes combined_def: "combined a b c =
    (let (BaseFirst, BaseTmp) = op1 a b; (BaseSecond, Result) = op2 BaseTmp c
     in (BaseFirst \<or> BaseSecond, Result))"
begin

lemma combined_flag_iff:
  "fst (combined a b c) \<longleftrightarrow>
     \<not> repr (exact1 (val a) (val b)) \<or> \<not> repr (exact2 (exact1 (val a) (val b)) (val c))"
  using first.flag_iff [of a b] first.value_exact [of a b] second.flag_iff [of "snd (op1 a b)" c]
  by (auto simp: combined_def split: prod.splits)

lemma combined_value_exact:
  "\<not> fst (combined a b c) \<Longrightarrow> val (snd (combined a b c)) = exact2 (exact1 (val a) (val b)) (val c)"
  using first.flag_iff [of a b] first.value_exact [of a b] second.value_exact [of "snd (op1 a b)" c]
  by (auto simp: combined_def split: prod.splits)

end

section \<open>Representable ranges\<close>

definition unsigned_range :: "nat \<Rightarrow> int \<Rightarrow> bool" where
  "unsigned_range w x \<longleftrightarrow> 0 \<le> x \<and> x < 2 ^ w"

definition signed_range :: "nat \<Rightarrow> int \<Rightarrow> bool" where
  "signed_range w x \<longleftrightarrow> - (2 ^ (w - 1)) \<le> x \<and> x < 2 ^ (w - 1)"

lemma uint_in_range [simp]: "unsigned_range LENGTH('w) (uint (a :: 'w::len word))"
  by (simp add: unsigned_range_def)

lemma sint_in_range [simp]: "signed_range LENGTH('w) (sint (a :: 'w::len word))"
  unfolding signed_range_def by (intro conjI sint_ge sint_lt)

lemma sint_of_int_range: "signed_range LENGTH('w) x \<Longrightarrow> sint (word_of_int x :: 'w::len word) = x"
  by (simp add: signed_range_def sint_sbintrunc' signed_take_bit_int_eq_self)

lemma uint_of_int_range: "unsigned_range LENGTH('w) x \<Longrightarrow> uint (word_of_int x :: 'w::len word) = x"
  by (simp add: unsigned_range_def uint_word_of_int)

lemma sint_add_range:
  "signed_range LENGTH('w) (sint a + sint b) \<Longrightarrow> sint (a + b :: 'w::len word) = sint a + sint b"
  by (drule sint_of_int_range) simp

lemma sint_diff_range:
  "signed_range LENGTH('w) (sint a - sint b) \<Longrightarrow> sint (a - b :: 'w::len word) = sint a - sint b"
  by (drule sint_of_int_range) simp

lemma sint_mult_range:
  "signed_range LENGTH('w) (sint a * sint b) \<Longrightarrow> sint (a * b :: 'w::len word) = sint a * sint b"
  by (drule sint_of_int_range) simp

lemma sint_narrow:
  fixes t :: u64
  assumes "signed_range 32 (sint t)"
  shows "sint (ucast t :: u32) = sint t"
proof -
  have eq: "(ucast t :: u32) = word_of_int (sint t)"
    by transfer (simp add: take_bit_signed_take_bit)
  show ?thesis
    unfolding eq by (rule sint_of_int_range) (use assms in simp)
qed

lemma S32_flag_iff:
  "MIN_INT32 \<le>s t \<and> t \<le>s MAX_INT32 \<longleftrightarrow> signed_range 32 (sint (t :: u64))"
  by (simp add: word_sle_eq signed_range_def) linarith

lemma sint_scast_32_64 [simp]: "sint (scast (a :: u32) :: u64) = sint a"
  by (rule sint_up_scast) (simp add: is_up)

lemma sint_u32_bounds: "- (2 ^ 31) \<le> sint (a :: u32)" "sint a < 2 ^ 31"
  using sint_in_range [of a] by (simp_all add: signed_range_def)

lemma sint_mult_bound:
  assumes "\<bar>x\<bar> \<le> 2 ^ 31" "\<bar>y\<bar> \<le> (2 ^ 31 :: int)"
  shows "\<bar>x * y\<bar> \<le> 2 ^ 62"
  using mult_mono [OF assms] by (simp add: abs_mult)

section \<open>The base operations satisfy the contract\<close>

lemma uint_add_flag: "a + b < a \<longleftrightarrow> \<not> unsigned_range LENGTH('w) (uint a + uint (b :: 'w::len word))"
  by (auto simp: word_less_def uint_word_ariths unsigned_range_def mod_add_if_z)

lemma uint_add_exact:
  "unsigned_range LENGTH('w) (uint a + uint b) \<Longrightarrow> uint (a + b :: 'w::len word) = uint a + uint b"
  by (simp add: uint_word_ariths unsigned_range_def)

lemma uint_sub_flag: "a < b \<longleftrightarrow> \<not> unsigned_range LENGTH('w) (uint a - uint (b :: 'w::len word))"
  using uint_lt2p [of a] uint_ge_0 [of b] by (auto simp: word_less_def unsigned_range_def simp del: uint_ge_0)

lemma uint_sub_exact:
  "unsigned_range LENGTH('w) (uint a - uint b) \<Longrightarrow> uint (a - b :: 'w::len word) = uint a - uint b"
  by (simp add: uint_word_ariths unsigned_range_def)

lemma unsigned_add_contract:
  fixes op :: "'w::len word \<Rightarrow> 'w word \<Rightarrow> bool \<times> 'w word"
  assumes "w = LENGTH('w)"
    and "\<And>a b. op a b = (let Temp = a + b in if a \<le> Temp then (False, Temp) else (True, Temp))"
  shows "checked_op uint (unsigned_range w) (+) op"
proof
  fix a b :: "'w word"
  show flag: "fst (op a b) \<longleftrightarrow> \<not> unsigned_range w (uint a + uint b)"
    using uint_add_flag [of a b] by (auto simp: assms Let_def not_le)
  show "\<not> fst (op a b) \<Longrightarrow> uint (snd (op a b)) = uint a + uint b"
    using flag uint_add_exact [of a b] by (simp add: assms Let_def)
qed (simp add: assms)

lemma unsigned_sub_contract:
  fixes op :: "'w::len word \<Rightarrow> 'w word \<Rightarrow> bool \<times> 'w word"
  assumes "w = LENGTH('w)"
    and "\<And>a b. op a b = (let Result = a - b in if b \<le> a then (False, Result) else (True, Result))"
  shows "checked_op uint (unsigned_range w) (-) op"
proof
  fix a b :: "'w word"
  show flag: "fst (op a b) \<longleftrightarrow> \<not> unsigned_range w (uint a - uint b)"
    using uint_sub_flag [of a b] by (auto simp: assms Let_def not_le)
  show "\<not> fst (op a b) \<Longrightarrow> uint (snd (op a b)) = uint a - uint b"
    using flag uint_sub_exact [of a b] by (simp add: assms Let_def)
qed (simp add: assms)

text \<open>The operations that compute in a type of twice the width.\<close>

lemma unsigned_wide_contract:
  fixes op :: "'w::len word \<Rightarrow> 'w word \<Rightarrow> bool \<times> 'w word" and wide :: "'w word \<Rightarrow> 'w word \<Rightarrow> 'v::len word"
  assumes "w = LENGTH('w)" and "uint bound = 2 ^ w - 1"
    and wide: "\<And>a b. uint (wide a b) = exact (uint a) (uint b)"
    and op: "\<And>a b. op a b = (let Temp = wide a b; Result = ucast Temp in
           if Temp \<le> bound then (False, Result) else (True, Result))"
  shows "checked_op uint (unsigned_range w) exact op"
proof
  fix a b :: "'w word"
  have "0 \<le> exact (uint a) (uint b)"
    by (simp flip: wide)
  then show flag: "fst (op a b) \<longleftrightarrow> \<not> unsigned_range w (exact (uint a) (uint b))"
    by (auto simp: op Let_def word_le_def wide assms(2) unsigned_range_def)
  show "\<not> fst (op a b) \<Longrightarrow> uint (snd (op a b)) = exact (uint a) (uint b)"
    using flag assms(1)
    by (simp add: op Let_def unsigned_ucast_eq wide unsigned_range_def take_bit_int_eq_self)
qed (simp add: assms)

lemma uint_ucast_up [simp]:
  "uint (ucast (a :: u16) :: u32) = uint a" "uint (ucast (c :: u32) :: u64) = uint c"
  by (simp_all add: uint_up_ucast is_up)

lemma uint_mult_wide:
  assumes "uint (a :: 'w::len word) < 2 ^ k" "uint b < 2 ^ k" "2 * k \<le> LENGTH('w)"
  shows "uint (a * b) = uint a * uint b"
proof -
  have "uint a * uint b < 2 ^ k * 2 ^ k"
    using assms by (intro mult_strict_mono') simp_all
  also have "\<dots> = 2 ^ (2 * k)"
    by (simp add: mult_2 power_add)
  also have "\<dots> \<le> (2 ^ LENGTH('w) :: int)"
    using assms(3) by (intro power_increasing) simp_all
  finally show ?thesis
    by (simp add: uint_word_ariths)
qed

lemma uint_ucast_mult [simp]:
  "uint (ucast (a :: u32) * ucast (b :: u32) :: u64) = uint a * uint b"
  using uint_mult_wide [of "ucast a :: u64" 32 "ucast b"] uint_lt2p [of a] uint_lt2p [of b] by simp

lemma uint_ucast_add [simp]:
  "uint (ucast (a :: u16) + ucast (b :: u16) :: u32) = uint a + uint b"
  using uint_lt2p [of a] uint_lt2p [of b] by (simp add: uint_word_ariths)

interpretation AddU16: checked_op uint "unsigned_range 16" "(+)" BaseOverflowAddU16
  by (rule unsigned_wide_contract [OF _ _ _ BaseOverflowAddU16_def]) simp_all

interpretation SubU16: checked_op uint "unsigned_range 16" "(-)" BaseOverflowSubU16
  by (rule unsigned_sub_contract [OF _ BaseOverflowSubU16_def]) simp

interpretation AddU32: checked_op uint "unsigned_range 32" "(+)" BaseOverflowAddU32
  by (rule unsigned_add_contract [OF _ BaseOverflowAddU32_def]) simp

interpretation SubU32: checked_op uint "unsigned_range 32" "(-)" BaseOverflowSubU32
  by (rule unsigned_sub_contract [OF _ BaseOverflowSubU32_def]) simp

interpretation MulU32: checked_op uint "unsigned_range 32" "(*)" BaseOverflowMulU32
  by (rule unsigned_wide_contract [OF _ _ _ BaseOverflowMulU32_def]) simp_all

interpretation AddU64: checked_op uint "unsigned_range 64" "(+)" BaseOverflowAddU64
  by (rule unsigned_add_contract [OF _ BaseOverflowAddU64_def]) simp

interpretation SubU64: checked_op uint "unsigned_range 64" "(-)" BaseOverflowSubU64
  by (rule unsigned_sub_contract [OF _ BaseOverflowSubU64_def]) simp

text \<open>The 32-bit signed operations compute in 64 bits and check the range of the result.\<close>

lemma S32_contract:
  assumes "\<And>a b. sint (wide a b :: u64) = exact (sint a) (sint (b :: u32))"
    and "\<And>a b. op a b = (let Temp = wide a b; Result = ucast Temp in
           if MIN_INT32 \<le>s Temp \<and> Temp \<le>s MAX_INT32 then (False, Result) else (True, Result))"
  shows "checked_op sint (signed_range 32) exact op"
proof
  show "signed_range 32 (sint (a :: u32))" for a
    using sint_in_range [of a] by simp
qed (auto simp: assms Let_def S32_flag_iff sint_narrow)

lemma sint_sum_range: "signed_range 64 (sint (a :: u32) + sint (b :: u32))"
  using sint_u32_bounds [of a] sint_u32_bounds [of b] by (simp add: signed_range_def)

lemma sint_difference_range: "signed_range 64 (sint (a :: u32) - sint (b :: u32))"
  using sint_u32_bounds [of a] sint_u32_bounds [of b] by (simp add: signed_range_def)

lemma sint_product_range: "signed_range 64 (sint (a :: u32) * sint (b :: u32))"
  using sint_u32_bounds [of a] sint_u32_bounds [of b] sint_mult_bound [of "sint a" "sint b"]
  by (simp add: signed_range_def abs_le_iff)

interpretation AddS32: checked_op sint "signed_range 32" "(+)" BaseOverflowAddS32
  by (rule S32_contract [OF _ BaseOverflowAddS32_def])
    (use sint_add_range [where 'w = 64] sint_sum_range in simp)

interpretation SubS32: checked_op sint "signed_range 32" "(-)" BaseOverflowSubS32
  by (rule S32_contract [OF _ BaseOverflowSubS32_def])
    (use sint_diff_range [where 'w = 64] sint_difference_range in simp)

interpretation MulS32: checked_op sint "signed_range 32" "(*)" BaseOverflowMulS32
  by (rule S32_contract [OF _ BaseOverflowMulS32_def])
    (use sint_mult_range [where 'w = 64] sint_product_range in \<open>simp add: MultS64x64_def MultU64x64_def\<close>)

text \<open>The 64-bit additions compare before they compute.\<close>

lemma sint_u64_bounds: "- (2 ^ 63) \<le> sint (a :: u64)" "sint a < 2 ^ 63"
  using sint_in_range [of a] by (simp_all add: signed_range_def)

interpretation AddS64: checked_op sint "signed_range 64" "(+)" BaseOverflowAddS64
proof
  fix a b :: u64
  note bounds = sint_u64_bounds [of a] sint_u64_bounds [of b]
  have max: "0 \<le> sint b \<Longrightarrow> sint (MAX_INT64 - b) = sint MAX_INT64 - sint b"
    and min: "sint b \<le> 0 \<Longrightarrow> sint (MIN_INT64 - b) = sint MIN_INT64 - sint b"
    using bounds sint_diff_range [of MAX_INT64 b] sint_diff_range [of MIN_INT64 b]
    by (simp_all add: signed_range_def)
  show flag: "fst (BaseOverflowAddS64 a b) \<longleftrightarrow> \<not> signed_range 64 (sint a + sint b)"
    using bounds max min
    by (cases "0 \<le> sint b"; cases "sint b \<le> 0")
      (auto simp: BaseOverflowAddS64_def word_sle_eq signed_range_def)
  show "\<not> fst (BaseOverflowAddS64 a b) \<Longrightarrow> sint (snd (BaseOverflowAddS64 a b)) = sint a + sint b"
    using flag sint_add_range [of a b] by (auto simp: BaseOverflowAddS64_def split: if_splits)
qed (use sint_in_range [where 'w = 64] in simp)

interpretation SubS64: checked_op sint "signed_range 64" "(-)" BaseOverflowSubS64
proof
  fix a b :: u64
  note bounds = sint_u64_bounds [of a] sint_u64_bounds [of b]
  have max: "sint b \<le> 0 \<Longrightarrow> sint (MAX_INT64 + b) = sint MAX_INT64 + sint b"
    and min: "0 \<le> sint b \<Longrightarrow> sint (MIN_INT64 + b) = sint MIN_INT64 + sint b"
    using bounds sint_add_range [of MAX_INT64 b] sint_add_range [of MIN_INT64 b]
    by (simp_all add: signed_range_def)
  show flag: "fst (BaseOverflowSubS64 a b) \<longleftrightarrow> \<not> signed_range 64 (sint a - sint b)"
    using bounds max min
    by (cases "0 \<le> sint b"; cases "sint b \<le> 0")
      (auto simp: BaseOverflowSubS64_def word_sle_eq signed_range_def)
  show "\<not> fst (BaseOverflowSubS64 a b) \<Longrightarrow> sint (snd (BaseOverflowSubS64 a b)) = sint a - sint b"
    using flag sint_diff_range [of a b] by (auto simp: BaseOverflowSubS64_def split: if_splits)
qed (use sint_in_range [where 'w = 64] in simp)

subsection \<open>64-bit multiplication from 32-bit halves\<close>

lemma mask32: "(mask 32 :: u64) = MAX_UINT32"
  by (simp add: mask_eq_exp_minus_1)

lemma unat_RShiftU64: "unat (RShiftU64 a n) = unat a div 2 ^ n"
  by (simp only: RShiftU64_def unat_drop_bit_eq) (simp only: drop_bit_eq_div)

lemma RShiftU64_0 [simp]: "RShiftU64 0 n = 0"
  by (simp add: RShiftU64_def)

lemma split_halves:
  fixes A :: u64
  shows "unat A = unat (RShiftU64 A 32) * 2 ^ 32 + unat (A AND MAX_UINT32)"
    and "unat (RShiftU64 A 32) < 2 ^ 32" and "unat (A AND MAX_UINT32) < 2 ^ 32"
proof -
  have lo: "unat (A AND MAX_UINT32) = unat A mod 2 ^ 32"
    by (simp only: mask32 [symmetric] take_bit_eq_mask [symmetric] unsigned_take_bit_eq) (simp only: take_bit_eq_mod)
  have hi: "unat (RShiftU64 A 32) = unat A div 2 ^ 32"
    by (rule unat_RShiftU64)
  show "unat A = unat (RShiftU64 A 32) * 2 ^ 32 + unat (A AND MAX_UINT32)"
    by (simp only: lo hi div_mult_mod_eq)
  show "unat (RShiftU64 A 32) < 2 ^ 32"
    using u64_less [of A] by (simp only: hi) (simp add: div_less_iff_less_mult less_mult_imp_div_less)
  show "unat (A AND MAX_UINT32) < 2 ^ 32"
    by (simp only: lo) simp
qed

lemma unat_mult_halves:
  fixes x y :: u64
  assumes "unat x < 2 ^ 32" "unat y < 2 ^ 32"
  shows "unat (x * y) = unat x * unat y"
proof -
  have "unat x * unat y < 2 ^ 32 * 2 ^ 32"
    using assms by (intro mult_strict_mono') simp_all
  then show ?thesis
    by (simp add: unat_word_ariths(2))
qed

lemma MulU64_wraps: "snd (BaseOverflowMulU64 A B) = A * B"
proof -
  define ah al bh bl where "ah = RShiftU64 A 32" and "al = A AND MAX_UINT32"
    and "bh = RShiftU64 B 32" and "bl = B AND MAX_UINT32"
  have split: "A = ah * 2 ^ 32 + al" "B = bh * 2 ^ 32 + bl"
    using bits_ident [of 32 A] bits_ident [of 32 B] mask32
    by (simp_all add: ah_def al_def bh_def bl_def RShiftU64_def push_bit_eq_mult take_bit_eq_mask)
  have "A * B = al * bl + (al * bh + ah * bl) * 2 ^ 32 + ah * bh * 2 ^ 64"
    by (simp only: split) (simp add: algebra_simps)
  moreover have "(2 :: u64) ^ 64 = 0"
    by simp
  ultimately have "A * B = al * bl + push_bit 32 (al * bh + ah * bl)"
    by (simp only: push_bit_eq_mult mult_zero_right add_0_right)
  then show ?thesis
    by (simp add: BaseOverflowMulU64_def Let_def MultU64x64_def LShiftU64_def
        flip: ah_def al_def bh_def bl_def)
qed

lemma half_product_flag:
  fixes al bh lo :: u64
  assumes "unat al < 2 ^ 32" "unat bh < 2 ^ 32"
  shows "lo + push_bit 32 (al * bh) < lo \<or> RShiftU64 (al * bh) 32 \<noteq> 0 \<longleftrightarrow>
    2 ^ 64 \<le> unat lo + unat al * unat bh * 2 ^ 32"
proof -
  define h where "h = unat (al * bh)"
  have h: "h = unat al * unat bh"
    using unat_mult_halves [OF assms] by (simp add: h_def)
  have shift: "RShiftU64 (al * bh) 32 \<noteq> 0 \<longleftrightarrow> 2 ^ 32 \<le> h"
    by (simp add: unat_eq_zero [symmetric] unat_RShiftU64 h_def [symmetric] div_eq_0_iff not_less)
  show ?thesis
  proof (cases "2 ^ 32 \<le> h")
    case True
    then have "2 ^ 32 * 2 ^ 32 \<le> h * 2 ^ 32"
      by (intro mult_right_mono) simp_all
    with True shift show ?thesis
      by (simp add: h [symmetric])
  next
    case False
    then have "h * 2 ^ 32 < 2 ^ 64"
      by simp
    moreover have "unat (push_bit 32 (al * bh)) = h * 2 ^ 32 mod 2 ^ 64"
      by (simp add: push_bit_eq_mult unat_word_ariths(2) h_def)
    ultimately have "unat (push_bit 32 (al * bh)) = h * 2 ^ 32"
      by simp
    then have "lo + push_bit 32 (al * bh) < lo \<longleftrightarrow> 2 ^ 64 \<le> unat lo + h * 2 ^ 32"
      using u64_less [of lo] \<open>h * 2 ^ 32 < 2 ^ 64\<close>
      by (auto simp: word_less_nat_alt unat_word_ariths(1) mod_if)
    with False shift show ?thesis
      by (simp add: h [symmetric])
  qed
qed

lemma MulU64_flag: "fst (BaseOverflowMulU64 A B) \<longleftrightarrow> 2 ^ 64 \<le> unat A * unat B"
proof -
  define ah al bh bl where "ah = RShiftU64 A 32" and "al = A AND MAX_UINT32"
    and "bh = RShiftU64 B 32" and "bl = B AND MAX_UINT32"
  note halves = split_halves [of A, folded ah_def al_def] split_halves [of B, folded bh_def bl_def]
  note lo = unat_mult_halves [OF halves(3) halves(6)]
  consider "ah = 0" "bh = 0" | "ah = 0" "bh \<noteq> 0" | "ah \<noteq> 0" "bh = 0" | "ah \<noteq> 0" "bh \<noteq> 0"
    by blast
  then show ?thesis
  proof cases
    case 1
    have "unat al * unat bl < 2 ^ 64"
      using lo u64_less [of "al * bl"] by simp
    with 1 show ?thesis
      using halves by (simp add: BaseOverflowMulU64_def Let_def flip: ah_def al_def bh_def bl_def)
  next
    case 2
    with half_product_flag [OF halves(3) halves(5), of "al * bl"] show ?thesis
      using halves lo
      by (auto simp: BaseOverflowMulU64_def Let_def MultU64x64_def LShiftU64_def algebra_simps
          simp flip: ah_def al_def bh_def bl_def)
  next
    case 3
    with half_product_flag [OF halves(6) halves(2), of "al * bl"] show ?thesis
      using halves lo
      by (auto simp: BaseOverflowMulU64_def Let_def MultU64x64_def LShiftU64_def algebra_simps
          simp flip: ah_def al_def bh_def bl_def)
  next
    case 4
    then have "1 \<le> unat ah" "1 \<le> unat bh"
      by (simp_all add: Suc_le_eq unat_gt_0)
    then have "2 ^ 32 * 2 ^ 32 \<le> unat A * unat B"
      using halves by (intro mult_mono) simp_all
    with 4 show ?thesis
      by (simp add: BaseOverflowMulU64_def Let_def word_gt_0 flip: ah_def al_def bh_def bl_def)
  qed
qed

interpretation MulU64: checked_op uint "unsigned_range 64" "(*)" BaseOverflowMulU64
proof
  fix a b :: u64
  have "uint a * uint b = int (unat a * unat b)"
    by simp
  then have "unat a * unat b < 2 ^ 64 \<longleftrightarrow> uint a * uint b < 2 ^ 64"
    by (simp only: of_nat_less_numeral_power_cancel_iff)
  moreover have "0 \<le> uint a * uint b"
    by simp
  ultimately show flag: "fst (BaseOverflowMulU64 a b) \<longleftrightarrow> \<not> unsigned_range 64 (uint a * uint b)"
    by (simp only: MulU64_flag unsigned_range_def not_less [symmetric]) simp
  show "\<not> fst (BaseOverflowMulU64 a b) \<Longrightarrow> uint (snd (BaseOverflowMulU64 a b)) = uint a * uint b"
    using flag by (simp add: MulU64_wraps uint_word_ariths unsigned_range_def)
qed (use uint_in_range [where 'w = 64] in simp)

subsection \<open>Signed 64-bit multiplication by magnitudes\<close>

lemma uint_OC_ABS_64: "uint (OC_ABS_64 x) = \<bar>sint x\<bar>"
proof (cases "x <s 0")
  case True
  then have "sint x < 0"
    by (simp add: word_sless_alt)
  moreover have "OC_ABS_64 x = word_of_int (- sint x)"
    using True by (simp add: OC_ABS_64_def)
  ultimately show ?thesis
    using uint_of_int_range [where 'w = 64, of "- sint x"] sint_u64_bounds [of x]
    by (simp add: unsigned_range_def)
next
  case False
  then have "0 \<le> sint x"
    by (simp add: word_sless_alt)
  moreover have "OC_ABS_64 x = word_of_int (sint x)"
    using False by (simp add: OC_ABS_64_def)
  ultimately show ?thesis
    using uint_of_int_range [where 'w = 64, of "sint x"] sint_u64_bounds [of x]
    by (simp add: unsigned_range_def)
qed

lemma word_of_uint_eq: "uint (r :: u64) = x \<Longrightarrow> r = word_of_int x"
  by auto

lemma MulS64_cases:
  fixes a b :: u64
  defines "r \<equiv> snd (BaseOverflowMulU64 (OC_ABS_64 a) (OC_ABS_64 b))"
  shows "BaseOverflowMulS64 a b =
    (if 2 ^ 64 \<le> \<bar>sint a * sint b\<bar> then (True, 0)
     else if (sint a < 0) = (sint b < 0) then
       (if \<bar>sint a * sint b\<bar> < 2 ^ 63 then (False, r) else (True, 0))
     else (if \<bar>sint a * sint b\<bar> < 2 ^ 63 then (False, - r)
           else if \<bar>sint a * sint b\<bar> = 2 ^ 63 then (False, MIN_INT64)
           else (True, 0)))"
    and "\<bar>sint a * sint b\<bar> < 2 ^ 64 \<Longrightarrow> uint r = \<bar>sint a * sint b\<bar>"
proof -
  have flag: "fst (BaseOverflowMulU64 (OC_ABS_64 a) (OC_ABS_64 b)) \<longleftrightarrow> 2 ^ 64 \<le> \<bar>sint a * sint b\<bar>"
    by (simp add: MulU64.flag_iff uint_OC_ABS_64 unsigned_range_def abs_mult not_less)
  show r: "uint r = \<bar>sint a * sint b\<bar>" if "\<bar>sint a * sint b\<bar> < 2 ^ 64"
    using MulU64.value_exact [of "OC_ABS_64 a" "OC_ABS_64 b"] flag that
    by (simp add: r_def uint_OC_ABS_64 abs_mult)
  have abs_min: "OC_ABS_64 MIN_INT64 = 0x8000000000000000"
    by (simp add: OC_ABS_64_def word_sless_alt)
  show "BaseOverflowMulS64 a b =
    (if 2 ^ 64 \<le> \<bar>sint a * sint b\<bar> then (True, 0)
     else if (sint a < 0) = (sint b < 0) then
       (if \<bar>sint a * sint b\<bar> < 2 ^ 63 then (False, r) else (True, 0))
     else (if \<bar>sint a * sint b\<bar> < 2 ^ 63 then (False, - r)
           else if \<bar>sint a * sint b\<bar> = 2 ^ 63 then (False, MIN_INT64)
           else (True, 0)))"
  proof (cases "2 ^ 64 \<le> \<bar>sint a * sint b\<bar>")
    case True
    with flag show ?thesis
      by (simp add: BaseOverflowMulS64_def Let_def split_beta)
  next
    case False
    with r have "uint r = \<bar>sint a * sint b\<bar>"
      by simp
    then have "r \<le> MAX_INT64 \<longleftrightarrow> \<bar>sint a * sint b\<bar> < 2 ^ 63" "r < MIN_INT64 \<longleftrightarrow> \<bar>sint a * sint b\<bar> < 2 ^ 63"
      "r = MIN_INT64 \<longleftrightarrow> \<bar>sint a * sint b\<bar> = 2 ^ 63"
      by (auto simp: word_le_def word_less_def word_uint_eq_iff)
    with flag False show ?thesis
      by (simp add: BaseOverflowMulS64_def Let_def r_def abs_min word_sless_alt split_beta)
  qed
qed

interpretation MulS64: checked_op sint "signed_range 64" "(*)" BaseOverflowMulS64
proof
  fix a b :: u64
  define p where "p = sint a * sint b"
  have same: "(sint a < 0) = (sint b < 0) \<Longrightarrow> 0 \<le> p" and opp: "(sint a < 0) \<noteq> (sint b < 0) \<Longrightarrow> p \<le> 0"
    by (auto simp: p_def zero_le_mult_iff mult_le_0_iff)
  show flag: "fst (BaseOverflowMulS64 a b) \<longleftrightarrow> \<not> signed_range 64 (sint a * sint b)"
    using same opp unfolding MulS64_cases(1) p_def [symmetric]
    by (cases "(sint a < 0) = (sint b < 0)") (auto simp: signed_range_def)
  assume "\<not> fst (BaseOverflowMulS64 a b)"
  with flag have range: "signed_range 64 p"
    by (simp add: p_def)
  have "uint (snd (BaseOverflowMulU64 (OC_ABS_64 a) (OC_ABS_64 b))) = \<bar>p\<bar>"
    unfolding p_def by (rule MulS64_cases(2)) (use range in \<open>auto simp: signed_range_def p_def\<close>)
  then have "snd (BaseOverflowMulU64 (OC_ABS_64 a) (OC_ABS_64 b)) = word_of_int \<bar>p\<bar>"
    by (rule word_of_uint_eq)
  moreover have "sint (word_of_int p :: u64) = p"
    by (rule sint_of_int_range) (use range in simp)
  ultimately have "sint (snd (BaseOverflowMulS64 a b)) = p"
    using same opp range unfolding MulS64_cases(1) p_def [symmetric]
    by (cases "(sint a < 0) = (sint b < 0)") (auto simp: signed_range_def)
  then show "sint (snd (BaseOverflowMulS64 a b)) = sint a * sint b"
    by (simp add: p_def)
qed (use sint_in_range [where 'w = 64] in simp)

section \<open>Native-width and combined operations\<close>

lemma native_is_64: "native op64 op32 = op64"
  by (intro ext) (simp add: native_def sizeof_UINTN_def sizeof_UINT64_def)

lemma native_contract:
  "checked_op val repr exact op64 \<Longrightarrow> (\<And>a b. op a b = native op64 op32 a b) \<Longrightarrow>
     checked_op val repr exact op"
  by (simp add: native_is_64 checked_op_def)

interpretation AddUN: checked_op uint "unsigned_range 64" "(+)" BaseOverflowAddUN
  by (rule native_contract [OF AddU64.checked_op_axioms BaseOverflowAddUN_def])

interpretation AddSN: checked_op sint "signed_range 64" "(+)" BaseOverflowAddSN
  by (rule native_contract [OF AddS64.checked_op_axioms BaseOverflowAddSN_def])

interpretation SubUN: checked_op uint "unsigned_range 64" "(-)" BaseOverflowSubUN
  by (rule native_contract [OF SubU64.checked_op_axioms BaseOverflowSubUN_def])

interpretation SubSN: checked_op sint "signed_range 64" "(-)" BaseOverflowSubSN
  by (rule native_contract [OF SubS64.checked_op_axioms BaseOverflowSubSN_def])

interpretation MulUN: checked_op uint "unsigned_range 64" "(*)" BaseOverflowMulUN
  by (rule native_contract [OF MulU64.checked_op_axioms BaseOverflowMulUN_def])

interpretation MulSN: checked_op sint "signed_range 64" "(*)" BaseOverflowMulSN
  by (rule native_contract [OF MulS64.checked_op_axioms BaseOverflowMulSN_def])

interpretation TriAddU32: checked_pair uint "unsigned_range 32" "(+)" BaseOverflowAddU32 "(+)" BaseOverflowAddU32
  BaseOverflowTriAddU32
  by unfold_locales (rule BaseOverflowTriAddU32_def)

interpretation TriMulU32: checked_pair uint "unsigned_range 32" "(*)" BaseOverflowMulU32 "(*)" BaseOverflowMulU32
  BaseOverflowTriMulU32
  by unfold_locales (rule BaseOverflowTriMulU32_def)

interpretation AddMulU32: checked_pair uint "unsigned_range 32" "(+)" BaseOverflowAddU32 "(*)" BaseOverflowMulU32
  BaseOverflowAddMulU32
  by unfold_locales (rule BaseOverflowAddMulU32_def)

interpretation MulAddU32: checked_pair uint "unsigned_range 32" "(*)" BaseOverflowMulU32 "(+)" BaseOverflowAddU32
  BaseOverflowMulAddU32
  by unfold_locales (rule BaseOverflowMulAddU32_def)

interpretation TriAddS32: checked_pair sint "signed_range 32" "(+)" BaseOverflowAddS32 "(+)" BaseOverflowAddS32
  BaseOverflowTriAddS32
  by unfold_locales (rule BaseOverflowTriAddS32_def)

interpretation TriMulS32: checked_pair sint "signed_range 32" "(*)" BaseOverflowMulS32 "(*)" BaseOverflowMulS32
  BaseOverflowTriMulS32
  by unfold_locales (rule BaseOverflowTriMulS32_def)

interpretation AddMulS32: checked_pair sint "signed_range 32" "(+)" BaseOverflowAddS32 "(*)" BaseOverflowMulS32
  BaseOverflowAddMulS32
  by unfold_locales (rule BaseOverflowAddMulS32_def)

interpretation MulAddS32: checked_pair sint "signed_range 32" "(*)" BaseOverflowMulS32 "(+)" BaseOverflowAddS32
  BaseOverflowMulAddS32
  by unfold_locales (rule BaseOverflowMulAddS32_def)

interpretation TriAddU64: checked_pair uint "unsigned_range 64" "(+)" BaseOverflowAddU64 "(+)" BaseOverflowAddU64
  BaseOverflowTriAddU64
  by unfold_locales (rule BaseOverflowTriAddU64_def)

interpretation TriMulU64: checked_pair uint "unsigned_range 64" "(*)" BaseOverflowMulU64 "(*)" BaseOverflowMulU64
  BaseOverflowTriMulU64
  by unfold_locales (rule BaseOverflowTriMulU64_def)

interpretation AddMulU64: checked_pair uint "unsigned_range 64" "(+)" BaseOverflowAddU64 "(*)" BaseOverflowMulU64
  BaseOverflowAddMulU64
  by unfold_locales (rule BaseOverflowAddMulU64_def)

interpretation MulAddU64: checked_pair uint "unsigned_range 64" "(*)" BaseOverflowMulU64 "(+)" BaseOverflowAddU64
  BaseOverflowMulAddU64
  by unfold_locales (rule BaseOverflowMulAddU64_def)

interpretation TriAddS64: checked_pair sint "signed_range 64" "(+)" BaseOverflowAddS64 "(+)" BaseOverflowAddS64
  BaseOverflowTriAddS64
  by unfold_locales (rule BaseOverflowTriAddS64_def)

interpretation TriMulS64: checked_pair sint "signed_range 64" "(*)" BaseOverflowMulS64 "(*)" BaseOverflowMulS64
  BaseOverflowTriMulS64
  by unfold_locales (rule BaseOverflowTriMulS64_def)

interpretation AddMulS64: checked_pair sint "signed_range 64" "(+)" BaseOverflowAddS64 "(*)" BaseOverflowMulS64
  BaseOverflowAddMulS64
  by unfold_locales (rule BaseOverflowAddMulS64_def)

interpretation MulAddS64: checked_pair sint "signed_range 64" "(*)" BaseOverflowMulS64 "(+)" BaseOverflowAddS64
  BaseOverflowMulAddS64
  by unfold_locales (rule BaseOverflowMulAddS64_def)

interpretation TriAddUN: checked_pair uint "unsigned_range 64" "(+)" BaseOverflowAddUN "(+)" BaseOverflowAddUN
  BaseOverflowTriAddUN
  by unfold_locales (rule BaseOverflowTriAddUN_def)

interpretation TriMulUN: checked_pair uint "unsigned_range 64" "(*)" BaseOverflowMulUN "(*)" BaseOverflowMulUN
  BaseOverflowTriMulUN
  by unfold_locales (rule BaseOverflowTriMulUN_def)

interpretation AddMulUN: checked_pair uint "unsigned_range 64" "(+)" BaseOverflowAddUN "(*)" BaseOverflowMulUN
  BaseOverflowAddMulUN
  by unfold_locales (rule BaseOverflowAddMulUN_def)

interpretation MulAddUN: checked_pair uint "unsigned_range 64" "(*)" BaseOverflowMulUN "(+)" BaseOverflowAddUN
  BaseOverflowMulAddUN
  by unfold_locales (rule BaseOverflowMulAddUN_def)

interpretation TriAddSN: checked_pair sint "signed_range 64" "(+)" BaseOverflowAddSN "(+)" BaseOverflowAddSN
  BaseOverflowTriAddSN
  by unfold_locales (rule BaseOverflowTriAddSN_def)

interpretation TriMulSN: checked_pair sint "signed_range 64" "(*)" BaseOverflowMulSN "(*)" BaseOverflowMulSN
  BaseOverflowTriMulSN
  by unfold_locales (rule BaseOverflowTriMulSN_def)

interpretation AddMulSN: checked_pair sint "signed_range 64" "(+)" BaseOverflowAddSN "(*)" BaseOverflowMulSN
  BaseOverflowAddMulSN
  by unfold_locales (rule BaseOverflowAddMulSN_def)

interpretation MulAddSN: checked_pair sint "signed_range 64" "(*)" BaseOverflowMulSN "(+)" BaseOverflowAddSN
  BaseOverflowMulAddSN
  by unfold_locales (rule BaseOverflowMulAddSN_def)

text \<open>The two 32-bit operations on which the image loaders rely most, in closed form.\<close>

lemma AddU32_eq: "BaseOverflowAddU32 a b = (2 ^ 32 \<le> unat a + unat b, a + b)"
proof (rule prod_eqI)
  have "uint a + uint b = int (unat a + unat b)"
    by simp
  moreover have "fst (BaseOverflowAddU32 a b) \<longleftrightarrow> \<not> uint a + uint b < 2 ^ 32"
    by (simp add: AddU32.flag_iff unsigned_range_def)
  ultimately show "fst (BaseOverflowAddU32 a b) = fst (2 ^ 32 \<le> unat a + unat b, a + b)"
    by (simp only: of_nat_less_numeral_power_cancel_iff not_less fst_conv)
qed (simp add: BaseOverflowAddU32_def Let_def)

lemma ucast_mult_down: "ucast (ucast a * ucast b :: u64) = (a * b :: u32)"
proof -
  have "unat (ucast a * ucast b :: u64) = unat a * unat b"
    by (simp only: unat_eq_nat_uint uint_ucast_mult nat_mult_distrib uint_ge_0)
  then have "unat (ucast (ucast a * ucast b :: u64) :: u32) = unat a * unat b mod 2 ^ 32"
    by (simp add: unsigned_ucast_eq take_bit_eq_mod)
  then show ?thesis
    by (simp add: word_unat_eq_iff unat_word_ariths(2))
qed

lemma MulU32_eq: "BaseOverflowMulU32 a b = (2 ^ 32 \<le> unat a * unat b, a * b)"
proof (rule prod_eqI)
  have "uint a * uint b = int (unat a * unat b)"
    by simp
  moreover have "fst (BaseOverflowMulU32 a b) \<longleftrightarrow> \<not> uint a * uint b < 2 ^ 32"
    by (simp add: MulU32.flag_iff unsigned_range_def)
  ultimately show "fst (BaseOverflowMulU32 a b) = fst (2 ^ 32 \<le> unat a * unat b, a * b)"
    by (simp only: of_nat_less_numeral_power_cancel_iff not_less fst_conv)
qed (simp add: BaseOverflowMulU32_def Let_def ucast_mult_down)

lemma SubU32_eq: "BaseOverflowSubU32 a b = (unat a < unat b, a - b)"
  by (auto simp: BaseOverflowSubU32_def word_le_nat_alt Let_def)

section \<open>Rounding up with overflow\<close>

lemma round_down_mod:
  assumes "a dvd (M :: nat)"
  shows "x mod M div a * a = (x div a * a) mod M"
proof (cases "a = 0")
  case False
  obtain m where M: "M = a * m"
    using assms by blast
  have "x mod M div a = x div a mod m"
    using False by (simp add: M mod_mult2_eq)
  then show ?thesis
    by (simp add: M mult_mod_left mult.commute)
qed simp

lemma AlignUpU32_spec:
  assumes "IS_POW2 a"
  shows "fst (BaseOverflowAlignUpU32 v a) \<longleftrightarrow> 2 ^ 32 \<le> unat v + (unat a - 1)"
    and "unat (snd (BaseOverflowAlignUpU32 v a)) = align_up (unat v) (unat a) mod 2 ^ 32"
proof -
  have pred: "unat (a - 1) = unat a - 1" and pos: "0 < unat a"
    using assms by (simp_all add: unat_pred IS_POW2_nonzero IS_POW2_pos)
  have snd_eq: "snd (BaseOverflowAlignUpU32 v a) = (v + (a - 1)) AND NOT (a - 1)"
    by (simp add: BaseOverflowAlignUpU32_def BaseOverflowAddU32_def Let_def split_beta)
  have sum: "unat (v + (a - 1)) = (unat v + (unat a - 1)) mod 2 ^ 32"
    by (simp add: unat_word_ariths(1) pred del: One_nat_def)
  show "fst (BaseOverflowAlignUpU32 v a) \<longleftrightarrow> 2 ^ 32 \<le> unat v + (unat a - 1)"
    using sum u32_less [of v] u32_less [of a]
    by (auto simp: BaseOverflowAlignUpU32_def BaseOverflowAddU32_def Let_def split_beta word_le_nat_alt
        mod_if not_le simp del: One_nat_def)
  have "unat a dvd 2 ^ 32"
    using pow2_dvd_size [OF assms] by simp
  then have "(unat v + (unat a - 1)) mod 2 ^ 32 div unat a * unat a =
      ((unat v + (unat a - 1)) div unat a * unat a) mod 2 ^ 32"
    by (rule round_down_mod)
  then show "unat (snd (BaseOverflowAlignUpU32 v a)) = align_up (unat v) (unat a) mod 2 ^ 32"
    using assms pos
    by (simp only: snd_eq unat_and_not_pred sum align_up_eq_div minus_mod_eq_div_mult)
qed

lemma AlignUpU32_eq:
  assumes "IS_POW2 a"
  shows "BaseOverflowAlignUpU32 v a =
    (if align_up (unat v) (unat a) = 2 ^ 32 then (True, 0)
     else (False, word_of_nat (align_up (unat v) (unat a))))"
proof -
  have pos: "0 < unat a" and dvd: "unat a dvd 2 ^ 32"
    using assms pow2_dvd_size [OF assms] by (simp_all add: IS_POW2_pos)
  have le: "align_up (unat v) (unat a) \<le> 2 ^ 32"
    using align_up_le_size [OF assms, of v] by simp
  have "2 ^ 32 \<le> unat v + (unat a - 1) \<longleftrightarrow> align_up (unat v) (unat a) = 2 ^ 32"
  proof
    assume "2 ^ 32 \<le> unat v + (unat a - 1)"
    then have "2 ^ 32 div unat a * unat a \<le> align_up (unat v) (unat a)"
      using pos by (simp only: align_up_eq_div) (intro mult_right_mono div_le_mono, simp_all)
    with le dvd show "align_up (unat v) (unat a) = 2 ^ 32"
      by simp
  qed (use align_up_less [OF pos, of "unat v"] in simp)
  with le AlignUpU32_spec [OF assms, of v] show ?thesis
    by (intro prod_eqI) (auto simp: word_unat_eq_iff unat_of_nat)
qed

section \<open>Multiplication followed by a division\<close>

lemma unat_half_less: "a \<noteq> 0 \<Longrightarrow> unat (RShiftU64 a (Suc 0)) < unat a"
  by (simp add: unat_RShiftU64 unat_gt_0)

function BaseMultThenDivU64x64x32 :: "u64 \<Rightarrow> u64 \<Rightarrow> u32 \<Rightarrow> (u64 \<times> u32) result" where
  "BaseMultThenDivU64x64x32 Multiplicand Multiplier Divisor =
     bindR (DivU64x64Remainder MAX_UINT64 Multiplier) (\<lambda>Limit.
     if fst Limit < Multiplicand then
       let Bigger = (if Multiplicand < Multiplier then Multiplier else Multiplicand);
           Smaller = (if Multiplicand < Multiplier then Multiplicand else Multiplier)
       in bindR (BaseMultThenDivU64x64x32 (RShiftU64 Bigger 1) Smaller Divisor) (\<lambda>(Uint64, LocalRemainder).
          bindR (if Bigger AND 1 = 1
                 then bindR (DivU64x32Remainder Smaller Divisor) (\<lambda>(Quotient, Uint32).
                        Inr (LShiftU64 Uint64 1 + Quotient, Uint32))
                 else Inr (LShiftU64 Uint64 1, 0)) (\<lambda>(Uint64, Uint32).
          bindR (DivU64x32Remainder (ucast Uint32 + LShiftU64 (ucast LocalRemainder) 1) Divisor)
            (\<lambda>(Quotient, Remainder). Inr (Uint64 + Quotient, Remainder))))
     else DivU64x32Remainder (MultU64x64 Multiplicand Multiplier) Divisor)"
  by pat_completeness auto

termination
  by (relation "measure (\<lambda>(a, b, d). unat a * unat b)")
    (auto simp: DivU64x64Remainder_def assertR_Inr_iff unat_gt_0 mult.commute intro!: unat_half_less)

declare BaseMultThenDivU64x64x32.simps [simp del]

lemma DivU64x64_limit:
  assumes "b \<noteq> 0"
  shows "MAX_UINT64 div b < a \<longleftrightarrow> 2 ^ 64 \<le> unat a * unat b"
proof -
  have "0 < unat b"
    using assms by (simp add: unat_gt_0)
  then have "18446744073709551615 div unat b < unat a \<longleftrightarrow> 18446744073709551615 < unat a * unat b"
    by (rule div_less_iff_less_mult)
  moreover have "unat (MAX_UINT64 div b) = 18446744073709551615 div unat b"
    by (simp add: unat_div)
  moreover have "18446744073709551615 < n \<longleftrightarrow> 2 ^ 64 \<le> n" for n :: nat
    by auto
  ultimately show ?thesis
    by (simp only: word_less_nat_alt)
qed

lemma unat_ucast_32_64: "unat (ucast (d :: u32) :: u64) = unat d"
  by (simp only: unat_eq_nat_uint uint_ucast_up)

lemma ucast_add_down: "ucast (a + b :: u64) = (ucast a + ucast b :: u32)"
proof -
  have "take_bit 32 (take_bit 64 x + take_bit 64 y) = take_bit 32 (x + y)" for x y :: int
  proof -
    have "take_bit 32 (take_bit 64 x + take_bit 64 y) = take_bit 32 (take_bit 32 (take_bit 64 x) + take_bit 32 (take_bit 64 y))"
      by (simp only: take_bit_add)
    also have "\<dots> = take_bit 32 (take_bit 32 x + take_bit 32 y)"
      by simp
    finally show ?thesis
      by (simp only: take_bit_add)
  qed
  then show ?thesis
    by transfer simp
qed

lemma IS_POW2_ucast_32_64: "IS_POW2 (a :: u32) \<Longrightarrow> IS_POW2 (ucast a :: u64)"
  by (auto simp: IS_POW2_iff unat_ucast_32_64 intro: less_trans)

lemma IS_ALIGNED_numeral:
  "IS_ALIGNED (v :: u32) 4 \<longleftrightarrow> 4 dvd unat v" "IS_ALIGNED (v :: u32) 8 \<longleftrightarrow> 8 dvd unat v"
  by (subst IS_ALIGNED_iff_dvd; simp add: IS_POW2_def)+

lemma DivU64x32_exact:
  assumes "d \<noteq> 0"
  shows "DivU64x32Remainder x d = Inr (word_of_nat (unat x div unat d), word_of_nat (unat x mod unat d))"
proof -
  have "x div ucast d = word_of_nat (unat x div unat d)" "x mod ucast d = word_of_nat (unat x mod unat d)"
    by (simp_all add: word_arith_nat_div word_arith_nat_mod unat_ucast_32_64)
  moreover have "ucast (word_of_nat n :: u64) = (word_of_nat n :: u32)" for n
    by transfer simp
  ultimately show ?thesis
    using assms by (simp add: DivU64x32Remainder_def assertR_def)
qed

text \<open>The arithmetic step behind the recursion: doubling a quotient and its remainder.\<close>

lemma double_quotient:
  fixes d :: nat
  assumes "0 < d" and m: "m = 2 * h + e"
  shows "m * n div d = 2 * (h * n div d) + e * n div d + (e * n mod d + 2 * (h * n mod d)) div d"
    and "m * n mod d = (e * n mod d + 2 * (h * n mod d)) mod d"
proof -
  define x y where "x = h * n" and "y = e * n"
  have "x = d * (x div d) + x mod d" "y = d * (y div d) + y mod d"
    by simp_all
  then have "2 * x + y = y mod d + 2 * (x mod d) + d * (2 * (x div d) + y div d)"
    unfolding distrib_left mult.left_commute [of d 2] by linarith
  then have "m * n = e * n mod d + 2 * (h * n mod d) + d * (2 * (h * n div d) + e * n div d)"
    by (simp add: m x_def y_def distrib_right)
  then show "m * n div d = 2 * (h * n div d) + e * n div d + (e * n mod d + 2 * (h * n mod d)) div d"
    and "m * n mod d = (e * n mod d + 2 * (h * n mod d)) mod d"
    using assms(1) by simp_all
qed

lemma LShiftU64_1 [simp]: "LShiftU64 x (Suc 0) = 2 * x"
  by (simp add: LShiftU64_def push_bit_eq_mult mult.commute)

lemma unat_remainder:
  assumes "d \<noteq> (0 :: u32)"
  shows "unat (ucast (word_of_nat (x mod unat d) :: u32) :: u64) = x mod unat d"
    and "x mod unat d < 2 ^ 32"
proof -
  have "x mod unat d < unat d"
    using assms by (simp add: unat_gt_0)
  then show "x mod unat d < 2 ^ 32"
    using u32_less [of d] by simp
  then show "unat (ucast (word_of_nat (x mod unat d) :: u32) :: u64) = x mod unat d"
    by (simp add: unat_ucast_32_64 unat_of_nat)
qed

lemma unat_sum_remainders:
  assumes "d \<noteq> (0 :: u32)"
  shows "unat (ucast (word_of_nat (x mod unat d) :: u32) + 2 * ucast (word_of_nat (y mod unat d) :: u32) :: u64)
    = x mod unat d + 2 * (y mod unat d)"
    and "unat (2 * ucast (word_of_nat (y mod unat d) :: u32) :: u64) = 2 * (y mod unat d)"
  using unat_remainder [OF assms, of x] unat_remainder [OF assms, of y]
  by (simp_all add: unat_word_ariths)

lemma MultThenDiv_exact:
  assumes "d \<noteq> 0" "b \<noteq> 0"
  shows "BaseMultThenDivU64x64x32 a b d =
    Inr (word_of_nat (unat a * unat b div unat d), word_of_nat (unat a * unat b mod unat d))"
  using assms
proof (induction a b d rule: BaseMultThenDivU64x64x32.induct)
  case (1 a b d)
  have pos: "0 < unat d"
    using 1 by (simp add: unat_gt_0)
  show ?case
  proof (cases "2 ^ 64 \<le> unat a * unat b")
    case True
    define m n where "m = (if a < b then b else a)" and "n = (if a < b then a else b)"
    have prod: "unat a * unat b = unat m * unat n"
      by (simp add: m_def n_def)
    have "n \<noteq> 0"
      using True by (auto simp: n_def)
    then have IH: "BaseMultThenDivU64x64x32 (RShiftU64 m 1) n d =
      Inr (word_of_nat (unat m div 2 * unat n div unat d), word_of_nat (unat m div 2 * unat n mod unat d))"
      using 1 True
      by (simp add: DivU64x64Remainder_def assertR_def DivU64x64_limit m_def n_def unat_RShiftU64)
    define e where "e = (if m AND 1 = 1 then 1 else 0 :: nat)"
    have odd: "m AND 1 = 1 \<longleftrightarrow> odd (unat m)"
      by (simp add: and_one_eq odd_iff_mod_2_eq_one word_unat_eq_iff unat_mod)
    then have m: "unat m = 2 * (unat m div 2) + e"
      by (simp add: e_def)
    show ?thesis
      unfolding prod double_quotient [OF pos m]
      using 1 True IH
      by (simp add: BaseMultThenDivU64x64x32.simps [of a b d] DivU64x64Remainder_def assertR_def
          DivU64x64_limit Let_def DivU64x32_exact unat_sum_remainders e_def
          flip: m_def n_def)
  next
    case False
    with 1 show ?thesis
      by (simp add: BaseMultThenDivU64x64x32.simps [of a b d] DivU64x64Remainder_def assertR_def
          DivU64x64_limit DivU64x32_exact MultU64x64_def unat_word_ariths(2))
  qed
qed

section \<open>Properties of the checked arithmetic\<close>

text \<open>C34: BaseOverflowMulU64, which multiplies 32-bit halves, reports an overflow exactly when the
  mathematical product does not fit in 64 bits, and always stores the product modulo $2^{64}$.\<close>
theorem BaseOverflowMulU64_exact:
  "BaseOverflowMulU64 A B = (2 ^ 64 \<le> unat A * unat B, A * B)"
  by (rule prod_eqI) (simp_all add: MulU64_flag MulU64_wraps)

text \<open>C35: BaseOverflowMulS64, which multiplies magnitudes, returns the signed product whenever it is
  representable (the minimum included) and otherwise reports an overflow and stores zero.\<close>
theorem BaseOverflowMulS64_exact:
  "BaseOverflowMulS64 A B =
     (let p = sint A * sint B
      in if - (2 ^ 63) \<le> p \<and> p < 2 ^ 63 then (False, word_of_int p) else (True, 0))"
proof (cases "signed_range 64 (sint A * sint B)")
  case True
  then have "\<not> fst (BaseOverflowMulS64 A B)"
    by (simp add: MulS64.flag_iff)
  moreover from this have "snd (BaseOverflowMulS64 A B) = word_of_int (sint A * sint B)"
    by (simp flip: MulS64.value_exact)
  ultimately show ?thesis
    using True by (intro prod_eqI) (auto simp: signed_range_def Let_def)
next
  case False
  then have "fst (BaseOverflowMulS64 A B)"
    by (simp add: MulS64.flag_iff)
  with False show ?thesis
    unfolding MulS64_cases(1) by (auto simp: signed_range_def Let_def split: if_splits)
qed

text \<open>The combined unsigned operations report an overflow exactly when the whole expression does
  not fit, although they check the two operations separately, and store the wrapped value.\<close>
theorem BaseOverflow_combined_exact:
  "BaseOverflowTriAddU32 A B C = (2 ^ 32 \<le> unat A + unat B + unat C, A + B + C) \<and>
   BaseOverflowMulAddU64 X Y Z = (2 ^ 64 \<le> unat X * unat Y + unat Z, X * Y + Z)"
proof
  have "fst (BaseOverflowTriAddU32 A B C) \<longleftrightarrow> \<not> uint A + uint B + uint C < 2 ^ 32"
    using uint_ge_0 [of A] uint_ge_0 [of B] uint_ge_0 [of C]
    unfolding TriAddU32.combined_flag_iff unsigned_range_def by linarith
  moreover have "uint A + uint B + uint C = int (unat A + unat B + unat C)"
    by simp
  ultimately show "BaseOverflowTriAddU32 A B C = (2 ^ 32 \<le> unat A + unat B + unat C, A + B + C)"
    by (intro prod_eqI) (simp_all only: of_nat_less_numeral_power_cancel_iff not_less fst_conv,
        simp add: BaseOverflowTriAddU32_def BaseOverflowAddU32_def Let_def split_beta)
  have "fst (BaseOverflowMulAddU64 X Y Z) \<longleftrightarrow> \<not> uint X * uint Y + uint Z < 2 ^ 64"
    using uint_ge_0 [of Z] mult_nonneg_nonneg [OF uint_ge_0 [of X] uint_ge_0 [of Y]]
    unfolding MulAddU64.combined_flag_iff unsigned_range_def by linarith
  moreover have "uint X * uint Y + uint Z = int (unat X * unat Y + unat Z)"
    by simp
  ultimately show "BaseOverflowMulAddU64 X Y Z = (2 ^ 64 \<le> unat X * unat Y + unat Z, X * Y + Z)"
    by (intro prod_eqI) (simp_all only: of_nat_less_numeral_power_cancel_iff not_less fst_conv,
        simp add: BaseOverflowMulAddU64_def BaseOverflowAddU64_def Let_def split_beta MulU64_wraps)
qed

text \<open>C36: for a power-of-two alignment, BaseOverflowAlignUpU32 returns the least multiple of the
  alignment that is at least the value; it reports an overflow exactly when that multiple is
  $2^{32}$, and then the stored value is zero.\<close>
theorem BaseOverflowAlignUpU32_exact:
  assumes "IS_POW2 Alignment"
  shows "BaseOverflowAlignUpU32 Value Alignment =
    (let r = align_up (unat Value) (unat Alignment)
     in if r = 2 ^ 32 then (True, 0) else (False, word_of_nat r))"
  using AlignUpU32_eq [OF assms] by (simp add: Let_def)

theorem BaseOverflowAlignUpU32_exact_witness:
  "IS_POW2 (0x1000 :: u32) \<and> BaseOverflowAlignUpU32 0xFFFFF001 0x1000 = (True, 0) \<and>
   BaseOverflowAlignUpU32 0x1234 0x1000 = (False, 0x2000)"
  using BaseOverflowAlignUpU32_exact [of "0x1000" "0xFFFFF001"] BaseOverflowAlignUpU32_exact [of "0x1000" "0x1234"]
  by (simp add: IS_POW2_def align_up_def)



text \<open>The portable BaseOverflowMulU16 compares the 32-bit product with MAX_UINT32, so it never
  reports an overflow: 0x100 times 0x100 yields zero with no overflow reported.\<close>
theorem BaseOverflowMulU16_never_reports:
  "fst (BaseOverflowMulU16 A B) = False \<and> BaseOverflowMulU16 0x100 0x100 = (False, 0)"
proof -
  have "x \<le> MAX_UINT32" for x :: u32
    using u32_less [of x] by (simp add: word_le_nat_alt)
  then show ?thesis
    by (simp add: BaseOverflowMulU16_def Let_def)
qed

end
