(* ===== verification/PeImage.thy ===== *)
theory PeImage
  imports Overflow
begin

text \<open>
  The data of the PE/COFF loader: the platform configuration (PCDs and page granularities), the
  section header and its layout in the file (\<^verbatim>\<open>IndustryStandard/PeImage2.h\<close>), and the image
  context of \<^verbatim>\<open>Library/PeCoffLib2.h\<close>, together with the getters of \<^verbatim>\<open>PeCoffInfo.c\<close>.
\<close>

section \<open>Platform configuration\<close>

record loader_cfg =
  PcdImageLoaderAlignmentPolicy :: u32
  PcdImageLoaderWXorX :: bool
  PcdImageLoaderRemoveXForWX :: bool
  PcdImageLoaderAllowMisalignedOffset :: bool
  PcdImageLoaderLoadHeader :: bool
  PcdImageLoaderRelocTypePolicy :: u32
  PcdImageLoaderRtRelocAllowTargetMismatch :: bool
  PcdImageLoaderHashProhibitOverlap :: bool
  PcdImageLoaderDebugSupport :: bool
  PcdImageProtectionPolicy :: u32
  DEFAULT_PAGE_ALLOCATION_GRANULARITY :: u32
  RUNTIME_PAGE_ALLOCATION_GRANULARITY :: u32

abbreviation (input) PCD_ALIGNMENT_POLICY_CONTIGUOUS_SECTIONS :: u32 where
  "PCD_ALIGNMENT_POLICY_CONTIGUOUS_SECTIONS \<equiv> 1"
abbreviation (input) PCD_ALIGNMENT_POLICY_RELOCATION_BLOCK_SIZES :: u32 where
  "PCD_ALIGNMENT_POLICY_RELOCATION_BLOCK_SIZES \<equiv> 2"
abbreviation (input) PCD_ALIGNMENT_POLICY_CERTIFICATE_SIZES :: u32 where
  "PCD_ALIGNMENT_POLICY_CERTIFICATE_SIZES \<equiv> 4"
abbreviation (input) PCD_RELOC_TYPE_POLICY_ARM :: u32 where
  "PCD_RELOC_TYPE_POLICY_ARM \<equiv> 1"
abbreviation (input) PCD_IMAGE_PROTECTION_POLICY_FV_STOP_BOOT :: u32 where
  "PCD_IMAGE_PROTECTION_POLICY_FV_STOP_BOOT \<equiv> 0x80000000"

text \<open>What ProcessorBind.h and the STATIC_ASSERT of PeCoffInit.c fix for every architecture.\<close>

definition wf_cfg :: "loader_cfg \<Rightarrow> bool" where
  "wf_cfg cfg \<longleftrightarrow>
     IS_POW2 (DEFAULT_PAGE_ALLOCATION_GRANULARITY cfg) \<and>
     IS_POW2 (RUNTIME_PAGE_ALLOCATION_GRANULARITY cfg) \<and>
     DEFAULT_PAGE_ALLOCATION_GRANULARITY cfg \<le> RUNTIME_PAGE_ALLOCATION_GRANULARITY cfg"

text \<open>Whether sections must be adjacent (strict) or need only be disjoint and ordered (relaxed).\<close>

definition strict_sections :: "loader_cfg \<Rightarrow> bool" where
  "strict_sections cfg \<longleftrightarrow>
     PcdImageLoaderAlignmentPolicy cfg AND PCD_ALIGNMENT_POLICY_CONTIGUOUS_SECTIONS = 0"

datatype UEFI_IMAGE_ORIGIN =
  UefiImageOriginFv | UefiImageOriginOptionROM | UefiImageOriginUserImage

fun origin_value :: "UEFI_IMAGE_ORIGIN \<Rightarrow> nat" where
  "origin_value UefiImageOriginFv = 0"
| "origin_value UefiImageOriginOptionROM = 1"
| "origin_value UefiImageOriginUserImage = 2"

section \<open>Image file layout\<close>

record EFI_IMAGE_SECTION_HEADER =
  SectionName :: "u8 list"
  VirtualSize :: u32
  VirtualAddress :: u32
  SizeOfRawData :: u32
  PointerToRawData :: u32
  PointerToRelocations :: u32
  PointerToLinenumbers :: u32
  NumberOfRelocations :: u16
  NumberOfLinenumbers :: u16
  Characteristics :: u32

abbreviation (input) EFI_IMAGE_SCN_MEM_DISCARDABLE :: u32 where "EFI_IMAGE_SCN_MEM_DISCARDABLE \<equiv> 0x02000000"
abbreviation (input) EFI_IMAGE_SCN_MEM_EXECUTE :: u32 where "EFI_IMAGE_SCN_MEM_EXECUTE \<equiv> 0x20000000"
abbreviation (input) EFI_IMAGE_SCN_MEM_READ :: u32 where "EFI_IMAGE_SCN_MEM_READ \<equiv> 0x40000000"
abbreviation (input) EFI_IMAGE_SCN_MEM_WRITE :: u32 where "EFI_IMAGE_SCN_MEM_WRITE \<equiv> 0x80000000"

abbreviation (input) sizeof_DOS_HEADER :: nat where "sizeof_DOS_HEADER \<equiv> 64"
abbreviation (input) sizeof_COMMON_HDR :: nat where "sizeof_COMMON_HDR \<equiv> 24"
abbreviation (input) sizeof_NT_HEADERS32 :: nat where "sizeof_NT_HEADERS32 \<equiv> 120"
abbreviation (input) sizeof_NT_HEADERS64 :: nat where "sizeof_NT_HEADERS64 \<equiv> 136"
abbreviation (input) sizeof_SECTION_HEADER :: nat where "sizeof_SECTION_HEADER \<equiv> 40"
abbreviation (input) sizeof_DATA_DIRECTORY :: nat where "sizeof_DATA_DIRECTORY \<equiv> 8"
abbreviation (input) sizeof_BASE_RELOCATION_BLOCK :: nat where "sizeof_BASE_RELOCATION_BLOCK \<equiv> 8"
abbreviation (input) sizeof_WIN_CERTIFICATE :: nat where "sizeof_WIN_CERTIFICATE \<equiv> 8"
abbreviation (input) EFI_IMAGE_NUMBER_OF_DIRECTORY_ENTRIES :: u32 where "EFI_IMAGE_NUMBER_OF_DIRECTORY_ENTRIES \<equiv> 16"
abbreviation (input) EFI_PAGE_SIZE :: u32 where "EFI_PAGE_SIZE \<equiv> 0x1000"

definition section_header :: "u8 list \<Rightarrow> nat \<Rightarrow> EFI_IMAGE_SECTION_HEADER" where
  "section_header b off =
     \<lparr> SectionName = take 8 (drop off b),
       VirtualSize = get_word 4 b (off + 8),
       VirtualAddress = get_word 4 b (off + 12),
       SizeOfRawData = get_word 4 b (off + 16),
       PointerToRawData = get_word 4 b (off + 20),
       PointerToRelocations = get_word 4 b (off + 24),
       PointerToLinenumbers = get_word 4 b (off + 28),
       NumberOfRelocations = get_word 2 b (off + 32),
       NumberOfLinenumbers = get_word 2 b (off + 34),
       Characteristics = get_word 4 b (off + 36) \<rparr>"

text \<open>The array of section headers that a pointer into the file denotes.\<close>

definition section_table :: "u8 list \<Rightarrow> nat \<Rightarrow> nat \<Rightarrow> EFI_IMAGE_SECTION_HEADER list" where
  "section_table b off n = map (\<lambda>i. section_header b (off + sizeof_SECTION_HEADER * i)) [0..<n]"

definition read_sections :: "u8 list \<Rightarrow> nat \<Rightarrow> nat \<Rightarrow> EFI_IMAGE_SECTION_HEADER list result" where
  "read_sections b off n =
     (if off + sizeof_SECTION_HEADER * n \<le> length b then Inr (section_table b off n)
      else Inl OutOfBounds)"

section \<open>The image context\<close>

datatype PE_COFF_LOADER_IMAGE_TYPE = PeCoffLoaderTypePe32 | PeCoffLoaderTypePe32Plus

text \<open>
  The loaded image: not loaded yet, loaded into a destination buffer of its own, or executed from
  the file buffer (the pointer ImageBuffer then aliases FileBuffer).
\<close>

datatype image_buffer = NotLoaded | Destination buffer | Inplace

record PE_COFF_LOADER_IMAGE_CONTEXT =
  ImageBase :: u64
  FileBuffer :: buffer
  FileSize :: u32
  ImageBuffer :: image_buffer
  SectionsOffset :: u32
  NumberOfSections :: u16
  SizeOfImage :: u32
  SectionAlignment :: u32
  ExeHdrOffset :: u32
  SizeOfHeaders :: u32
  AddressOfEntryPoint :: u32
  RelocsStripped :: bool
  ImageType :: PE_COFF_LOADER_IMAGE_TYPE
  Subsystem :: u16
  Machine :: u16
  RelocDirRva :: u32
  RelocDirSize :: u32
  SecDirOffset :: u32
  SecDirSize :: u32

type_synonym pe_context = PE_COFF_LOADER_IMAGE_CONTEXT

abbreviation FileBytes :: "pe_context \<Rightarrow> u8 list" where
  "FileBytes Context \<equiv> Bytes (FileBuffer Context)"

definition zero_context :: "buffer \<Rightarrow> u32 \<Rightarrow> pe_context" where
  "zero_context Buffer Size =
     \<lparr> ImageBase = 0, FileBuffer = Buffer, FileSize = Size, ImageBuffer = NotLoaded,
       SectionsOffset = 0, NumberOfSections = 0, SizeOfImage = 0, SectionAlignment = 0,
       ExeHdrOffset = 0, SizeOfHeaders = 0, AddressOfEntryPoint = 0, RelocsStripped = False,
       ImageType = PeCoffLoaderTypePe32, Subsystem = 0, Machine = 0, RelocDirRva = 0,
       RelocDirSize = 0, SecDirOffset = 0, SecDirSize = 0 \<rparr>"

text \<open>The bytes reached through ImageBuffer, and the context after they have been changed.\<close>

fun image_bytes :: "pe_context \<Rightarrow> image_buffer \<Rightarrow> u8 list" where
  "image_bytes Context NotLoaded = []"
| "image_bytes Context (Destination d) = Bytes d"
| "image_bytes Context Inplace = FileBytes Context"

definition ImageBytes :: "pe_context \<Rightarrow> u8 list" where
  "ImageBytes Context = image_bytes Context (ImageBuffer Context)"

definition set_ImageBytes :: "pe_context \<Rightarrow> u8 list \<Rightarrow> pe_context" where
  "set_ImageBytes Context b =
     (case ImageBuffer Context of
        NotLoaded \<Rightarrow> Context
      | Destination d \<Rightarrow> Context\<lparr>ImageBuffer := Destination (d\<lparr>Bytes := b\<rparr>)\<rparr>
      | Inplace \<Rightarrow> Context\<lparr>FileBuffer := (FileBuffer Context)\<lparr>Bytes := b\<rparr>\<rparr>)"

fun ImageAddress :: "pe_context \<Rightarrow> image_buffer \<Rightarrow> u64" where
  "ImageAddress Context NotLoaded = 0"
| "ImageAddress Context (Destination d) = Address d"
| "ImageAddress Context Inplace = Address (FileBuffer Context)"

definition Sections :: "pe_context \<Rightarrow> EFI_IMAGE_SECTION_HEADER list" where
  "Sections Context =
     section_table (FileBytes Context) (unat (SectionsOffset Context)) (unat (NumberOfSections Context))"

section \<open>Getters (PeCoffInfo.c)\<close>

definition PeCoffGetAddressOfEntryPoint :: "pe_context \<Rightarrow> u32" where
  "PeCoffGetAddressOfEntryPoint Context = AddressOfEntryPoint Context"
definition PeCoffGetMachine :: "pe_context \<Rightarrow> u16" where
  "PeCoffGetMachine Context = Machine Context"
definition PeCoffGetSubsystem :: "pe_context \<Rightarrow> u16" where
  "PeCoffGetSubsystem Context = Subsystem Context"
definition PeCoffGetSectionAlignment :: "pe_context \<Rightarrow> u32" where
  "PeCoffGetSectionAlignment Context = SectionAlignment Context"
definition PeCoffGetSizeOfImage :: "pe_context \<Rightarrow> u32" where
  "PeCoffGetSizeOfImage Context = SizeOfImage Context"
definition PeCoffGetImageBase :: "pe_context \<Rightarrow> u64" where
  "PeCoffGetImageBase Context = ImageBase Context"
definition PeCoffGetSizeOfHeaders :: "pe_context \<Rightarrow> u32" where
  "PeCoffGetSizeOfHeaders Context = SizeOfHeaders Context"
definition PeCoffGetRelocsStripped :: "pe_context \<Rightarrow> bool" where
  "PeCoffGetRelocsStripped Context = RelocsStripped Context"

text \<open>The section table is read through the pointer it returns, so reading it may fault.\<close>

definition PeCoffGetSectionTable :: "pe_context \<Rightarrow> EFI_IMAGE_SECTION_HEADER list result" where
  "PeCoffGetSectionTable Context =
     read_sections (FileBytes Context) (unat (SectionsOffset Context)) (unat (NumberOfSections Context))"

definition PeCoffLoaderGetImageAddress :: "pe_context \<Rightarrow> u64 result" where
  "PeCoffLoaderGetImageAddress Context =
     assertR (ImageBuffer Context \<noteq> NotLoaded) (Inr (ImageAddress Context (ImageBuffer Context)))"

section \<open>Laws of the data\<close>

text \<open>Section extents as natural numbers.\<close>

abbreviation sec_start :: "EFI_IMAGE_SECTION_HEADER \<Rightarrow> nat" where
  "sec_start s \<equiv> unat (VirtualAddress s)"
abbreviation sec_end :: "EFI_IMAGE_SECTION_HEADER \<Rightarrow> nat" where
  "sec_end s \<equiv> unat (VirtualAddress s) + unat (VirtualSize s)"
abbreviation raw_end :: "EFI_IMAGE_SECTION_HEADER \<Rightarrow> nat" where
  "raw_end s \<equiv> unat (PointerToRawData s) + unat (SizeOfRawData s)"

lemma length_section_table [simp]: "length (section_table b off n) = n"
  by (simp add: section_table_def)

lemma length_Sections [simp]: "length (Sections c) = unat (NumberOfSections c)"
  by (simp add: Sections_def)

lemma wp_read_sections [simp, wp_rules]:
  "wp (read_sections b off n) Q \<longleftrightarrow> off + sizeof_SECTION_HEADER * n \<le> length b \<and> Q (section_table b off n)"
  by (auto simp: read_sections_def)

lemma image_bytes_after_set:
  "ImageBuffer c \<noteq> NotLoaded \<Longrightarrow> ImageBytes (set_ImageBytes c b) = b"
  by (auto simp: ImageBytes_def set_ImageBytes_def split: image_buffer.splits)

text \<open>Changing the loaded bytes changes no other field of the context.\<close>

lemma set_ImageBytes_fields [simp]:
  "ImageBase (set_ImageBytes c b) = ImageBase c"
  "FileSize (set_ImageBytes c b) = FileSize c"
  "SectionsOffset (set_ImageBytes c b) = SectionsOffset c"
  "NumberOfSections (set_ImageBytes c b) = NumberOfSections c"
  "SizeOfImage (set_ImageBytes c b) = SizeOfImage c"
  "SectionAlignment (set_ImageBytes c b) = SectionAlignment c"
  "SizeOfHeaders (set_ImageBytes c b) = SizeOfHeaders c"
  "AddressOfEntryPoint (set_ImageBytes c b) = AddressOfEntryPoint c"
  "RelocsStripped (set_ImageBytes c b) = RelocsStripped c"
  "RelocDirRva (set_ImageBytes c b) = RelocDirRva c"
  "RelocDirSize (set_ImageBytes c b) = RelocDirSize c"
  "ImageAddress (set_ImageBytes c b) (ImageBuffer (set_ImageBytes c b)) = ImageAddress c (ImageBuffer c)"
  by (auto simp: set_ImageBytes_def split: image_buffer.splits)

end
