(* ===== verification/PeCoffInit.thy ===== *)
theory PeCoffInit
  imports PeImage
begin

text \<open>
  \<^verbatim>\<open>PeCoffInit.c\<close>: the validation of an untrusted PE/COFF file and the construction of its image
  context. \<open>InternalInitializePe\<close> is written as the sequence of its phases, each of which is a
  definition of its own. The well-formedness predicate \<open>wf_context\<close> states the rules that the
  rest of the loader relies on; the lemmas show that a successful initialisation establishes them,
  and that no input makes the validation read outside of the file or fail an ASSERT.
\<close>

section \<open>Section headers\<close>

text \<open>
  The loop of \<open>InternalVerifySections\<close>. It carries the two variables that the iterations change:
  Context->SectionAlignment and NextSectRva.
\<close>

definition VerifySectionAddress :: "loader_cfg \<Rightarrow> EFI_IMAGE_SECTION_HEADER \<Rightarrow> u32 \<Rightarrow> u32 \<Rightarrow> u32 result" where
  "VerifySectionAddress cfg s Alignment NextSectRva =
     (if PcdImageLoaderAlignmentPolicy cfg AND PCD_ALIGNMENT_POLICY_CONTIGUOUS_SECTIONS = 0 then
        if VirtualAddress s \<noteq> NextSectRva then fail RETURN_VOLUME_CORRUPTED
        else Inr Alignment
      else if VirtualAddress s < NextSectRva then fail RETURN_VOLUME_CORRUPTED
      else if \<not> IS_ALIGNED (VirtualAddress s) Alignment then
        if IS_ALIGNED (VirtualAddress s) (RUNTIME_PAGE_ALLOCATION_GRANULARITY cfg)
        then Inr (RUNTIME_PAGE_ALLOCATION_GRANULARITY cfg)
        else if DEFAULT_PAGE_ALLOCATION_GRANULARITY cfg < RUNTIME_PAGE_ALLOCATION_GRANULARITY cfg \<and>
                IS_ALIGNED (VirtualAddress s) (DEFAULT_PAGE_ALLOCATION_GRANULARITY cfg)
        then Inr (DEFAULT_PAGE_ALLOCATION_GRANULARITY cfg)
        else Inr 1
      else Inr Alignment)"

definition VerifySectionRawData :: "EFI_IMAGE_SECTION_HEADER \<Rightarrow> u32 \<Rightarrow> unit result" where
  "VerifySectionRawData s Size =
     (if 0 < SizeOfRawData s then
        let (Overflow, SectRawEnd) = BaseOverflowAddU32 (PointerToRawData s) (SizeOfRawData s)
        in if Overflow then fail RETURN_VOLUME_CORRUPTED
           else if SectRawEnd > Size then fail RETURN_VOLUME_CORRUPTED
           else Inr ()
      else Inr ())"

definition NextSectionRva :: "loader_cfg \<Rightarrow> EFI_IMAGE_SECTION_HEADER \<Rightarrow> u32 \<Rightarrow> u32 result" where
  "NextSectionRva cfg s Alignment =
     (let (Overflow, NextSectRva) = BaseOverflowAddU32 (VirtualAddress s) (VirtualSize s)
      in if Overflow then fail RETURN_VOLUME_CORRUPTED
         else if PcdImageLoaderAlignmentPolicy cfg AND PCD_ALIGNMENT_POLICY_CONTIGUOUS_SECTIONS = 0 then
           let (Overflow, NextSectRva) = BaseOverflowAlignUpU32 NextSectRva Alignment
           in if Overflow then fail RETURN_VOLUME_CORRUPTED else Inr NextSectRva
         else Inr NextSectRva)"

fun VerifySectionsLoop ::
  "loader_cfg \<Rightarrow> u32 \<Rightarrow> EFI_IMAGE_SECTION_HEADER list \<Rightarrow> u32 \<Rightarrow> u32 \<Rightarrow> (u32 \<times> u32) result" where
  "VerifySectionsLoop cfg Size [] Alignment NextSectRva = Inr (Alignment, NextSectRva)"
| "VerifySectionsLoop cfg Size (s # ss) Alignment NextSectRva =
     (if PcdImageLoaderWXorX cfg \<and> \<not> PcdImageLoaderRemoveXForWX cfg \<and>
         Characteristics s AND (EFI_IMAGE_SCN_MEM_EXECUTE OR EFI_IMAGE_SCN_MEM_WRITE) =
           EFI_IMAGE_SCN_MEM_EXECUTE OR EFI_IMAGE_SCN_MEM_WRITE
      then fail RETURN_VOLUME_CORRUPTED
      else
        bindR (VerifySectionAddress cfg s Alignment NextSectRva) (\<lambda>Alignment.
        bindR (VerifySectionRawData s Size) (\<lambda>_.
        bindR (NextSectionRva cfg s Alignment) (\<lambda>NextSectRva.
        VerifySectionsLoop cfg Size ss Alignment NextSectRva))))"

text \<open>The end of \<open>InternalVerifySections\<close>: SizeOfImage and the final alignment.\<close>

definition DetermineSizeOfImage :: "loader_cfg \<Rightarrow> u32 \<Rightarrow> u32 \<Rightarrow> u32 \<times> u32" where
  "DetermineSizeOfImage cfg Alignment NextSectRva =
     (if PcdImageLoaderAlignmentPolicy cfg AND PCD_ALIGNMENT_POLICY_CONTIGUOUS_SECTIONS = 0
      then (Alignment, NextSectRva)
      else
        let (Overflow, Size) = BaseOverflowAlignUpU32 NextSectRva Alignment
        in if \<not> Overflow then (Alignment, Size)
           else
             let Alignment = RUNTIME_PAGE_ALLOCATION_GRANULARITY cfg;
                 (Overflow, Size) = BaseOverflowAlignUpU32 NextSectRva Alignment;
                 (Overflow, Size, Alignment) =
                   (if DEFAULT_PAGE_ALLOCATION_GRANULARITY cfg < RUNTIME_PAGE_ALLOCATION_GRANULARITY cfg \<and> Overflow
                    then let Alignment = DEFAULT_PAGE_ALLOCATION_GRANULARITY cfg;
                             (Overflow, Size) = BaseOverflowAlignUpU32 NextSectRva Alignment
                         in (Overflow, Size, Alignment)
                    else (Overflow, Size, Alignment))
             in (if Overflow then 1 else Alignment, Size))"

definition InternalVerifySections ::
  "loader_cfg \<Rightarrow> pe_context \<Rightarrow> u32 \<Rightarrow> (pe_context \<times> u32) result" where
  "InternalVerifySections cfg Context Size =
     assertR (IS_POW2 (SectionAlignment Context))
     (if NumberOfSections Context = 0 then fail RETURN_VOLUME_CORRUPTED
      else
        bindR (PeCoffGetSectionTable Context) (\<lambda>Sections.
        bindR
          (if VirtualAddress (hd Sections) = 0 then Inr 0
           else if PcdImageLoaderAlignmentPolicy cfg AND PCD_ALIGNMENT_POLICY_CONTIGUOUS_SECTIONS = 0 then
             let (Overflow, NextSectRva) =
                   BaseOverflowAlignUpU32 (SizeOfHeaders Context) (SectionAlignment Context)
             in if Overflow then fail RETURN_VOLUME_CORRUPTED else Inr NextSectRva
           else Inr (SizeOfHeaders Context)) (\<lambda>StartAddress.
        bindR (VerifySectionsLoop cfg Size Sections (SectionAlignment Context) StartAddress)
          (\<lambda>(Alignment, NextSectRva).
        let (Alignment, ImageSize) = DetermineSizeOfImage cfg Alignment NextSectRva
        in Inr (Context\<lparr>SizeOfImage := ImageSize, SectionAlignment := Alignment\<rparr>, StartAddress)))))"

section \<open>Relocation information\<close>

definition InternalValidateRelocInfo :: "pe_context \<Rightarrow> u32 \<Rightarrow> unit result" where
  "InternalValidateRelocInfo Context StartAddress =
     assertR (\<not> RelocsStripped Context \<or> RelocDirSize Context = 0)
     (bindR
       (if RelocDirSize Context \<noteq> 0 then
          if sizeof_BASE_RELOCATION_BLOCK > unat (RelocDirSize Context) then fail RETURN_VOLUME_CORRUPTED
          else if StartAddress > RelocDirRva Context then fail RETURN_VOLUME_CORRUPTED
          else
            let (Overflow, SectRvaEnd) = BaseOverflowAddU32 (RelocDirRva Context) (RelocDirSize Context)
            in if Overflow \<or> SectRvaEnd > SizeOfImage Context then fail RETURN_VOLUME_CORRUPTED
               else if \<not> IS_ALIGNED (RelocDirRva Context) 4 then fail RETURN_VOLUME_CORRUPTED
               else Inr ()
        else Inr ()) (\<lambda>_.
      if \<not> IS_ALIGNED (ImageBase Context) (ucast (SectionAlignment Context))
      then fail RETURN_VOLUME_CORRUPTED
      else Inr ()))"

section \<open>The PE headers\<close>

text \<open>
  The part of InternalInitializePe that dispatches on the Optional Header magic and copies the
  fields of the PE32 or PE32+ header. Besides the context it yields the file offset of the data
  directory, NumberOfRvaAndSizes and HdrSizeWithoutDataDir.
\<close>

definition InitializePeOptionalHeader ::
  "loader_cfg \<Rightarrow> pe_context \<Rightarrow> u32 \<Rightarrow> (pe_context \<times> nat \<times> u32 \<times> u32) result" where
  "InitializePeOptionalHeader cfg Context Size =
     (let b = FileBytes Context; o' = unat (ExeHdrOffset Context) in
      bindR (readU16 b (o' + sizeof_COMMON_HDR)) (\<lambda>Magic.
      if Magic = 0x10B then
        if sizeof_NT_HEADERS32 > unat (Size - ExeHdrOffset Context) then fail RETURN_VOLUME_CORRUPTED
        else
          bindR (readU16 b (o' + 92)) (\<lambda>Subsys.
          bindR (ReadUnaligned32 b (o' + 84)) (\<lambda>HeaderSize.
          bindR (ReadUnaligned32 b (o' + 52)) (\<lambda>Base.
          bindR (ReadUnaligned32 b (o' + 40)) (\<lambda>EntryPoint.
          bindR (ReadUnaligned32 b (o' + 56)) (\<lambda>Alignment.
          bindR (ReadUnaligned32 b (o' + 116)) (\<lambda>NumberOfRvaAndSizes.
          Inr (Context\<lparr>ImageType := PeCoffLoaderTypePe32, Subsystem := Subsys,
                       SizeOfHeaders := HeaderSize, ImageBase := ucast Base,
                       AddressOfEntryPoint := EntryPoint, SectionAlignment := Alignment\<rparr>,
               o' + sizeof_NT_HEADERS32, NumberOfRvaAndSizes,
               word_of_nat (sizeof_NT_HEADERS32 - sizeof_COMMON_HDR))))))))
      else if Magic = 0x20B then
        if sizeof_NT_HEADERS64 > unat (Size - ExeHdrOffset Context) then fail RETURN_VOLUME_CORRUPTED
        else if \<not> PcdImageLoaderAllowMisalignedOffset cfg \<and> \<not> IS_ALIGNED (ExeHdrOffset Context) 8
        then fail RETURN_VOLUME_CORRUPTED
        else
          bindR (readU16 b (o' + 92)) (\<lambda>Subsys.
          bindR (ReadUnaligned32 b (o' + 84)) (\<lambda>HeaderSize.
          bindR (ReadUnaligned64 b (o' + 48)) (\<lambda>Base.
          bindR (ReadUnaligned32 b (o' + 40)) (\<lambda>EntryPoint.
          bindR (ReadUnaligned32 b (o' + 56)) (\<lambda>Alignment.
          bindR (ReadUnaligned32 b (o' + 132)) (\<lambda>NumberOfRvaAndSizes.
          Inr (Context\<lparr>ImageType := PeCoffLoaderTypePe32Plus, Subsystem := Subsys,
                       SizeOfHeaders := HeaderSize, ImageBase := Base,
                       AddressOfEntryPoint := EntryPoint, SectionAlignment := Alignment\<rparr>,
               o' + sizeof_NT_HEADERS64, NumberOfRvaAndSizes,
               word_of_nat (sizeof_NT_HEADERS64 - sizeof_COMMON_HDR))))))))
      else fail RETURN_UNSUPPORTED))"

definition ImageProtectionPolicy ::
  "loader_cfg \<Rightarrow> pe_context \<Rightarrow> u32 \<Rightarrow> UEFI_IMAGE_ORIGIN \<Rightarrow> unit result" where
  "ImageProtectionPolicy cfg Context NumberOfRvaAndSizes ImageOrigin =
     (if NumberOfRvaAndSizes > EFI_IMAGE_NUMBER_OF_DIRECTORY_ENTRIES then fail RETURN_VOLUME_CORRUPTED
      else if \<not> IS_POW2 (SectionAlignment Context) then fail RETURN_VOLUME_CORRUPTED
      else if SectionAlignment Context < EFI_PAGE_SIZE then
        let Policy = PcdImageProtectionPolicy cfg in
        if Policy AND push_bit (origin_value ImageOrigin) 1 \<noteq> 0 then
          if Policy AND PCD_IMAGE_PROTECTION_POLICY_FV_STOP_BOOT \<noteq> 0 \<and> ImageOrigin = UefiImageOriginFv
          then fail RETURN_SECURITY_VIOLATION
          else fail RETURN_NOT_STARTED
        else Inr ()
      else Inr ())"

text \<open>Offsets and sizes of the headers, and the fields of the common header.\<close>

definition InitializePeHeaderSizes ::
  "loader_cfg \<Rightarrow> pe_context \<Rightarrow> u32 \<Rightarrow> u32 \<Rightarrow> u32 \<Rightarrow> pe_context result" where
  "InitializePeHeaderSizes cfg Context Size NumberOfRvaAndSizes HdrSizeWithoutDataDir =
     (let b = FileBytes Context; o' = unat (ExeHdrOffset Context) in
      bindR (readU16 b (o' + 20)) (\<lambda>SizeOfOptionalHeader.
      let (Overflow, SectionsOff) =
            BaseOverflowAddU32 (ExeHdrOffset Context + word_of_nat sizeof_COMMON_HDR) (ucast SizeOfOptionalHeader)
      in if Overflow then fail RETURN_VOLUME_CORRUPTED
         else if \<not> PcdImageLoaderAllowMisalignedOffset cfg \<and> \<not> IS_ALIGNED SectionsOff 4
         then fail RETURN_VOLUME_CORRUPTED
         else
           let MinSizeOfOptionalHeader =
                 HdrSizeWithoutDataDir + NumberOfRvaAndSizes * word_of_nat sizeof_DATA_DIRECTORY
           in assertR (MinSizeOfOptionalHeader \<ge> HdrSizeWithoutDataDir)
             (bindR (readU16 b (o' + 6)) (\<lambda>SectionCount.
              let (Overflow, MinSizeOfHeaders) =
                    BaseOverflowAddU32 SectionsOff (ucast SectionCount * word_of_nat sizeof_SECTION_HEADER)
              in if Overflow then fail RETURN_VOLUME_CORRUPTED
                 else if MinSizeOfOptionalHeader > ucast SizeOfOptionalHeader then fail RETURN_VOLUME_CORRUPTED
                 else if MinSizeOfHeaders > SizeOfHeaders Context then fail RETURN_VOLUME_CORRUPTED
                 else if SizeOfHeaders Context > Size then fail RETURN_VOLUME_CORRUPTED
                 else
                   bindR (readU16 b (o' + 4)) (\<lambda>MachineType.
                   bindR (readU16 b (o' + 22)) (\<lambda>FileCharacteristics.
                   Inr (Context\<lparr>SectionsOffset := SectionsOff, NumberOfSections := SectionCount,
                                Machine := MachineType,
                                RelocsStripped := (FileCharacteristics AND 1 \<noteq> 0)\<rparr>)))))))"

definition InitializePeRelocDir :: "pe_context \<Rightarrow> nat \<Rightarrow> u32 \<Rightarrow> pe_context result" where
  "InitializePeRelocDir Context DataDirectory NumberOfRvaAndSizes =
     (let b = FileBytes Context in
      if 5 < NumberOfRvaAndSizes then
        bindR (ReadUnaligned32 b (DataDirectory + 5 * sizeof_DATA_DIRECTORY)) (\<lambda>Rva.
        bindR (ReadUnaligned32 b (DataDirectory + 5 * sizeof_DATA_DIRECTORY + 4)) (\<lambda>DirSize.
        if RelocsStripped Context \<and> DirSize \<noteq> 0 then fail RETURN_VOLUME_CORRUPTED
        else Inr (Context\<lparr>RelocDirRva := Rva, RelocDirSize := DirSize\<rparr>)))
      else assertR (RelocDirRva Context = 0) (assertR (RelocDirSize Context = 0) (Inr Context)))"

definition InitializePeSecurityDir :: "pe_context \<Rightarrow> u32 \<Rightarrow> nat \<Rightarrow> u32 \<Rightarrow> pe_context result" where
  "InitializePeSecurityDir Context Size DataDirectory NumberOfRvaAndSizes =
     (let b = FileBytes Context in
      if 4 < NumberOfRvaAndSizes then
        bindR (ReadUnaligned32 b (DataDirectory + 4 * sizeof_DATA_DIRECTORY)) (\<lambda>Offset.
        bindR (ReadUnaligned32 b (DataDirectory + 4 * sizeof_DATA_DIRECTORY + 4)) (\<lambda>DirSize.
        let (Overflow, SecDirEnd) = BaseOverflowAddU32 Offset DirSize
        in if Overflow \<or> SecDirEnd > Size then fail RETURN_VOLUME_CORRUPTED
           else if \<not> IS_ALIGNED Offset 8 then fail RETURN_VOLUME_CORRUPTED
           else if DirSize \<noteq> 0 \<and> (\<not> IS_ALIGNED DirSize 8 \<or> unat DirSize < sizeof_WIN_CERTIFICATE)
           then fail RETURN_VOLUME_CORRUPTED
           else Inr (Context\<lparr>SecDirOffset := Offset, SecDirSize := DirSize\<rparr>)))
      else assertR (SecDirOffset Context = 0) (assertR (SecDirSize Context = 0) (Inr Context)))"

definition InternalInitializePe ::
  "loader_cfg \<Rightarrow> pe_context \<Rightarrow> u32 \<Rightarrow> UEFI_IMAGE_ORIGIN \<Rightarrow> pe_context result" where
  "InternalInitializePe cfg Context Size ImageOrigin =
     assertR (sizeof_COMMON_HDR + 2 \<le> unat (Size - ExeHdrOffset Context))
    (assertR (PcdImageLoaderAllowMisalignedOffset cfg \<or> IS_ALIGNED (ExeHdrOffset Context) 4)
    (bindR (InitializePeOptionalHeader cfg Context Size)
       (\<lambda>(Context, DataDirectory, NumberOfRvaAndSizes, HdrSizeWithoutDataDir).
     bindR (ImageProtectionPolicy cfg Context NumberOfRvaAndSizes ImageOrigin) (\<lambda>_.
     bindR (InitializePeHeaderSizes cfg Context Size NumberOfRvaAndSizes HdrSizeWithoutDataDir) (\<lambda>Context.
     bindR (InitializePeRelocDir Context DataDirectory NumberOfRvaAndSizes) (\<lambda>Context.
     bindR (InitializePeSecurityDir Context Size DataDirectory NumberOfRvaAndSizes) (\<lambda>Context.
     bindR (InternalVerifySections cfg Context Size) (\<lambda>(Context, StartAddress).
     if AddressOfEntryPoint Context \<ge> SizeOfImage Context then fail RETURN_VOLUME_CORRUPTED
     else bindR (InternalValidateRelocInfo Context StartAddress) (\<lambda>_. Inr Context)))))))))"

definition PeCoffInitializeContext ::
  "loader_cfg \<Rightarrow> buffer \<Rightarrow> u32 \<Rightarrow> UEFI_IMAGE_ORIGIN \<Rightarrow> pe_context result" where
  "PeCoffInitializeContext cfg Buffer Size ImageOrigin =
     assertR (Address Buffer \<noteq> 0 \<or> Size = 0)
     (let Context = zero_context Buffer Size; b = Bytes Buffer in
      bindR
        (if sizeof_DOS_HEADER \<le> unat Size then
           bindR (readU16 b 0) (\<lambda>Magic.
           if Magic = 0x5A4D then
             bindR (ReadUnaligned32 b 60) (\<lambda>e_lfanew.
             if sizeof_DOS_HEADER > unat e_lfanew \<or> e_lfanew > Size then fail RETURN_VOLUME_CORRUPTED
             else if \<not> PcdImageLoaderAllowMisalignedOffset cfg \<and> \<not> IS_ALIGNED e_lfanew 4
             then fail RETURN_UNSUPPORTED
             else Inr (Context\<lparr>ExeHdrOffset := e_lfanew\<rparr>))
           else Inr Context)
         else Inr Context) (\<lambda>Context.
      if unat (Size - ExeHdrOffset Context) < sizeof_COMMON_HDR + 2 then fail RETURN_UNSUPPORTED
      else
        bindR (ReadUnaligned32 b (unat (ExeHdrOffset Context))) (\<lambda>Signature.
        if Signature \<noteq> 0x00004550 then fail RETURN_UNSUPPORTED
        else InternalInitializePe cfg Context Size ImageOrigin)))"

section \<open>Well-formedness\<close>

text \<open>What every section of an accepted image satisfies on its own.\<close>

definition wx_violation :: "EFI_IMAGE_SECTION_HEADER \<Rightarrow> bool" where
  "wx_violation s \<longleftrightarrow>
     Characteristics s AND (EFI_IMAGE_SCN_MEM_EXECUTE OR EFI_IMAGE_SCN_MEM_WRITE) =
       EFI_IMAGE_SCN_MEM_EXECUTE OR EFI_IMAGE_SCN_MEM_WRITE"

lemma wx_bits:
  "x AND (EFI_IMAGE_SCN_MEM_EXECUTE OR EFI_IMAGE_SCN_MEM_WRITE) = EFI_IMAGE_SCN_MEM_EXECUTE OR EFI_IMAGE_SCN_MEM_WRITE \<longleftrightarrow>
     x AND EFI_IMAGE_SCN_MEM_EXECUTE \<noteq> 0 \<and> x AND EFI_IMAGE_SCN_MEM_WRITE \<noteq> 0"
proof -
  let ?m = "2 ^ 29 OR 2 ^ 31 :: u32"
  have bits: "bit ?m n \<longleftrightarrow> n = 29 \<or> n = 31" for n
    by (auto simp only: bit_or_iff bit_exp_iff possible_bit_word) simp_all
  have "x AND ?m = ?m \<longleftrightarrow> bit x 29 \<and> bit x 31" for x
  proof
    assume "x AND ?m = ?m"
    then have "bit (x AND ?m) n = bit ?m n" for n
      by (simp only:)
    then show "bit x 29 \<and> bit x 31"
      using bits by (metis bit_and_iff)
  next
    assume "bit x 29 \<and> bit x 31"
    then show "x AND ?m = ?m"
      by (intro bit_word_eqI) (auto simp only: bit_and_iff bits)
  qed
  moreover have "x AND 2 ^ n \<noteq> 0 \<longleftrightarrow> bit x n" for x :: u32 and n
    by (simp add: and_exp_eq_0_iff_not_bit)
  moreover have "EFI_IMAGE_SCN_MEM_EXECUTE = 2 ^ 29" "EFI_IMAGE_SCN_MEM_WRITE = 2 ^ 31"
    by simp_all
  ultimately show ?thesis
    by (simp only:)
qed

lemma wx_violation_iff:
  "wx_violation s \<longleftrightarrow> Characteristics s AND EFI_IMAGE_SCN_MEM_EXECUTE \<noteq> 0 \<and> Characteristics s AND EFI_IMAGE_SCN_MEM_WRITE \<noteq> 0"
  unfolding wx_violation_def by (rule wx_bits)

definition wf_section :: "loader_cfg \<Rightarrow> nat \<Rightarrow> nat \<Rightarrow> EFI_IMAGE_SECTION_HEADER \<Rightarrow> bool" where
  "wf_section cfg fsize al s \<longleftrightarrow>
     al dvd sec_start s \<and> sec_end s < 2 ^ 32 \<and>
     (SizeOfRawData s \<noteq> 0 \<longrightarrow> raw_end s \<le> fsize) \<and>
     (PcdImageLoaderWXorX cfg \<and> \<not> PcdImageLoaderRemoveXForWX cfg \<longrightarrow> \<not> wx_violation s)"

text \<open>
  Where the next section may start after address \<open>e\<close>, and the ordering of the section table from
  the address \<open>lo\<close> on, with \<open>hi\<close> the address at which it ends.
\<close>

definition next_start :: "loader_cfg \<Rightarrow> nat \<Rightarrow> nat \<Rightarrow> nat" where
  "next_start cfg al e = (if strict_sections cfg then align_up e al else e)"

fun section_chain :: "loader_cfg \<Rightarrow> nat \<Rightarrow> nat \<Rightarrow> nat \<Rightarrow> EFI_IMAGE_SECTION_HEADER list \<Rightarrow> nat \<Rightarrow> bool" where
  "section_chain cfg fsize al lo [] hi \<longleftrightarrow> lo = hi"
| "section_chain cfg fsize al lo (s # ss) hi \<longleftrightarrow>
     wf_section cfg fsize al s \<and>
     (if strict_sections cfg then sec_start s = lo else lo \<le> sec_start s) \<and>
     section_chain cfg fsize al (next_start cfg al (sec_end s)) ss hi"

text \<open>The address of the first section that the image headers allow.\<close>

definition image_start :: "loader_cfg \<Rightarrow> pe_context \<Rightarrow> nat" where
  "image_start cfg c =
     (if VirtualAddress (hd (Sections c)) = 0 then 0
      else next_start cfg (unat (SectionAlignment c)) (unat (SizeOfHeaders c)))"

definition wf_sections :: "loader_cfg \<Rightarrow> pe_context \<Rightarrow> bool" where
  "wf_sections cfg c \<longleftrightarrow>
     (\<exists>hi. section_chain cfg (unat (FileSize c)) (unat (SectionAlignment c)) (image_start cfg c) (Sections c) hi \<and>
       unat (SizeOfImage c) = align_up hi (unat (SectionAlignment c)))"

section \<open>Verification of the section headers\<close>

lemma pow2_dvd_linear:
  "IS_POW2 (a :: 'w::len word) \<Longrightarrow> IS_POW2 (b :: 'w word) \<Longrightarrow> unat a dvd unat b \<or> unat b dvd unat a"
  by (auto elim!: IS_POW2_E) (metis le_imp_power_dvd nat_le_linear)

lemma realign_dvd:
  assumes "IS_POW2 al" "IS_POW2 g" "IS_ALIGNED v g" "\<not> IS_ALIGNED v al"
  shows "unat g dvd unat al"
  using assms pow2_dvd_linear [OF assms(1,2)] by (auto simp: IS_ALIGNED_iff_dvd dest: dvd_trans)

lemma IS_POW2_1 [simp]: "IS_POW2 (1 :: u32)"
  by (simp add: IS_POW2_def)

lemma VerifySectionAddress_wp:
  assumes "wf_cfg cfg" "IS_POW2 al"
    and "strict_sections cfg \<Longrightarrow> unat al dvd unat next"
  shows "wp (VerifySectionAddress cfg s al next) (\<lambda>al'. IS_POW2 al' \<and> unat al' dvd unat al \<and>
    unat al' dvd sec_start s \<and>
    (if strict_sections cfg then al' = al \<and> sec_start s = unat next else unat next \<le> sec_start s))"
  using assms realign_dvd [OF assms(2)]
  by (auto simp: VerifySectionAddress_def wf_cfg_def strict_sections_def IS_ALIGNED_iff_dvd
      word_less_nat_alt not_less)

lemma VerifySectionRawData_wp:
  "wp (VerifySectionRawData s fs) (\<lambda>_. SizeOfRawData s \<noteq> 0 \<longrightarrow> raw_end s \<le> unat fs)"
  by (auto simp: VerifySectionRawData_def AddU32_eq word_less_nat_alt unat_add_u32 unat_gt_0 not_less not_le)

lemma NextSectionRva_wp:
  assumes "IS_POW2 al"
  shows "wp (NextSectionRva cfg s al) (\<lambda>nxt. sec_end s < 2 ^ 32 \<and>
    unat nxt = next_start cfg (unat al) (sec_end s))"
proof (cases "sec_end s < 2 ^ 32")
  case True
  then have sum: "unat (VirtualAddress s + VirtualSize s) = sec_end s"
    by (simp add: unat_add_u32)
  have "align_up (sec_end s) (unat al) \<le> 2 ^ 32"
    using assms align_up_le_size [of al "VirtualAddress s + VirtualSize s"] sum by simp
  with True sum show ?thesis
    using assms
    by (auto simp: NextSectionRva_def AddU32_eq AlignUpU32_eq next_start_def strict_sections_def unat_of_nat)
qed (simp add: NextSectionRva_def AddU32_eq)

lemma VerifySectionsLoop_wp:
  assumes "wf_cfg cfg" "IS_POW2 al" "strict_sections cfg \<Longrightarrow> unat al dvd unat next"
  shows "wp (VerifySectionsLoop cfg fs ss al next) (\<lambda>(al', hi). IS_POW2 al' \<and> unat al' dvd unat al \<and>
    (strict_sections cfg \<longrightarrow> al' = al \<and> unat al dvd unat hi) \<and>
    section_chain cfg (unat fs) (unat al') (unat next) ss (unat hi))" (is "wp (_ ss al next) (?Q ss al next)")
  using assms(2,3)
proof (induction ss arbitrary: al "next")
  case (Cons s ss)
  let ?wx = "PcdImageLoaderWXorX cfg \<and> \<not> PcdImageLoaderRemoveXForWX cfg \<and> wx_violation s"
  have step: "wp (VerifySectionsLoop cfg fs ss al' nxt) (?Q (s # ss) al next)"
    if al': "IS_POW2 al' \<and> unat al' dvd unat al \<and> unat al' dvd sec_start s \<and>
        (if strict_sections cfg then al' = al \<and> sec_start s = unat next else unat next \<le> sec_start s)"
      and raw: "SizeOfRawData s \<noteq> 0 \<longrightarrow> raw_end s \<le> unat fs" and wx: "\<not> ?wx"
      and nxt: "sec_end s < 2 ^ 32 \<and> unat nxt = next_start cfg (unat al') (sec_end s)" for al' nxt
  proof (rule wp_mono [OF Cons.IH])
    show "IS_POW2 al'" "strict_sections cfg \<Longrightarrow> unat al' dvd unat nxt"
      using al' nxt by (auto simp: next_start_def IS_POW2_pos)
    fix r
    assume r: "?Q ss al' nxt r"
    obtain al'' hi where [simp]: "r = (al'', hi)"
      by (cases r)
    have "unat al'' dvd unat al" "unat al'' dvd sec_start s"
      using r al' dvd_trans [of "unat al''" "unat al'"] by auto
    then show "?Q (s # ss) al next r"
      using r nxt al' raw wx by (auto simp: wf_section_def next_start_def)
  qed
  show ?case
  proof (cases ?wx)
    case True
    then show ?thesis
      by (simp only: VerifySectionsLoop.simps(2) wx_violation_def [symmetric] simp_thms if_True wp_simps)
  next
    case False
    then have "VerifySectionsLoop cfg fs (s # ss) al next =
        bindR (VerifySectionAddress cfg s al next) (\<lambda>al. bindR (VerifySectionRawData s fs) (\<lambda>_.
        bindR (NextSectionRva cfg s al) (VerifySectionsLoop cfg fs ss al)))"
      by (simp only: VerifySectionsLoop.simps(2) wx_violation_def [symmetric] if_False)
    then show ?thesis
      by (simp only:) (rule wp_bindI [OF VerifySectionAddress_wp [OF assms(1) Cons.prems]], assumption,
          rule wp_bindI [OF VerifySectionRawData_wp], rule wp_bindI [OF NextSectionRva_wp],
          erule conjunct1, rule step [OF _ _ False])
  qed
qed simp

lemma align_up_mono_dvd: "a dvd b \<Longrightarrow> 0 < b \<Longrightarrow> align_up v a \<le> align_up v b"
  by (rule align_up_least [OF dvd_trans [OF _ align_up_dvd]]) simp_all

lemma section_chain_realign:
  "section_chain cfg fsize al lo ss hi \<Longrightarrow> \<not> strict_sections cfg \<Longrightarrow> al' dvd al \<Longrightarrow>
     section_chain cfg fsize al' lo ss hi"
  by (induction cfg fsize al lo ss hi rule: section_chain.induct)
    (auto simp: wf_section_def next_start_def intro: dvd_trans)

text \<open>In the relaxed mode the alignment is lowered until the end of the image can be rounded up.\<close>

lemma realign_after_overflow:
  fixes al g :: u32
  assumes "IS_POW2 al" "IS_POW2 g"
    and "align_up v (unat al) = 2 ^ 32" "align_up v (unat g) < 2 ^ 32"
  shows "unat g dvd unat al"
  using pow2_dvd_linear [OF assms(1,2)] align_up_mono_dvd [of "unat al" "unat g" v] assms
  by (auto simp: IS_POW2_pos)

lemma DetermineSizeOfImage_spec:
  assumes "wf_cfg cfg" "IS_POW2 al" "strict_sections cfg \<Longrightarrow> unat al dvd unat hi"
    and "DetermineSizeOfImage cfg al hi = (al', sz)"
  shows "IS_POW2 al'" "unat al' dvd unat al" "strict_sections cfg \<Longrightarrow> al' = al"
    "sz = 0 \<or> unat sz = align_up (unat hi) (unat al')"
proof -
  let ?R = "RUNTIME_PAGE_ALLOCATION_GRANULARITY cfg" and ?D = "DEFAULT_PAGE_ALLOCATION_GRANULARITY cfg"
  have pow2: "IS_POW2 ?R" "IS_POW2 ?D"
    using assms(1) by (simp_all add: wf_cfg_def)
  have le: "align_up (unat hi) (unat g) \<le> 2 ^ 32" if "IS_POW2 g" for g :: u32
    using align_up_le_size [OF that, of hi] by simp
  have eq: "BaseOverflowAlignUpU32 hi g = (if align_up (unat hi) (unat g) = 2 ^ 32 then (True, 0)
      else (False, word_of_nat (align_up (unat hi) (unat g))))" if "IS_POW2 g" for g
    by (rule AlignUpU32_eq [OF that])
  have exact: "unat (word_of_nat (align_up (unat hi) (unat g)) :: u32) = align_up (unat hi) (unat g)"
    if "align_up (unat hi) (unat g) \<noteq> 2 ^ 32" "IS_POW2 g" for g :: u32
    using le [OF that(2)] that(1) by (simp add: unat_of_nat)
  have strict: "al' = al \<and> sz = hi" if "strict_sections cfg"
    using assms(4) that by (simp add: DetermineSizeOfImage_def strict_sections_def)
  have relaxed: "IS_POW2 al' \<and> unat al' dvd unat al \<and> (sz = 0 \<or> unat sz = align_up (unat hi) (unat al'))"
    if "\<not> strict_sections cfg"
  proof (cases "align_up (unat hi) (unat al) = 2 ^ 32")
    case False
    with assms(2,4) that show ?thesis
      by (auto simp: DetermineSizeOfImage_def strict_sections_def eq exact)
  next
    case True
    note dvd = realign_after_overflow [OF assms(2) _ True]
    show ?thesis
      using assms(4) that True pow2 assms(2) dvd [OF pow2(1)] dvd [OF pow2(2)] le [OF pow2(1)] le [OF pow2(2)]
        exact [OF _ pow2(1)] exact [OF _ pow2(2)]
      by (auto simp: DetermineSizeOfImage_def strict_sections_def eq Let_def split: if_splits)
  qed
  show "IS_POW2 al'" "unat al' dvd unat al" "strict_sections cfg \<Longrightarrow> al' = al"
    "sz = 0 \<or> unat sz = align_up (unat hi) (unat al')"
    using strict relaxed assms(2,3) align_up_id_iff [of "unat al" "unat hi"]
    by (cases "strict_sections cfg"; simp add: IS_POW2_pos)+
qed

lemma image_start_update [simp]:
  "image_start cfg (c\<lparr>SizeOfImage := sz\<rparr>) = image_start cfg c"
  "\<not> strict_sections cfg \<Longrightarrow> image_start cfg (c\<lparr>SizeOfImage := sz, SectionAlignment := al\<rparr>) = image_start cfg c"
  by (simp_all add: image_start_def Sections_def next_start_def)

lemma StartAddress_wp:
  assumes "IS_POW2 (SectionAlignment c)"
  shows "wp (if VirtualAddress (hd (Sections c)) = 0 then Inr 0
      else if PcdImageLoaderAlignmentPolicy cfg AND PCD_ALIGNMENT_POLICY_CONTIGUOUS_SECTIONS = 0 then
        let (Overflow, NextSectRva) = BaseOverflowAlignUpU32 (SizeOfHeaders c) (SectionAlignment c)
        in if Overflow then fail RETURN_VOLUME_CORRUPTED else Inr NextSectRva
      else Inr (SizeOfHeaders c))
    (\<lambda>start. unat start = image_start cfg c \<and>
       (strict_sections cfg \<longrightarrow> unat (SectionAlignment c) dvd unat start))"
  using assms align_up_le_size [OF assms, of "SizeOfHeaders c"]
  by (auto simp: image_start_def next_start_def strict_sections_def AlignUpU32_eq unat_of_nat IS_POW2_pos)

lemma InternalVerifySections_wp:
  assumes "wf_cfg cfg" "IS_POW2 (SectionAlignment c)" "fs = FileSize c"
    and "unat (SectionsOffset c) + sizeof_SECTION_HEADER * unat (NumberOfSections c) \<le> length (FileBytes c)"
  shows "wp (InternalVerifySections cfg c fs) (\<lambda>(c', start).
    (\<exists>al sz. c' = c\<lparr>SizeOfImage := sz, SectionAlignment := al\<rparr>) \<and> 0 < unat (NumberOfSections c) \<and>
    IS_POW2 (SectionAlignment c') \<and> unat start = image_start cfg c' \<and>
    (SizeOfImage c' = 0 \<or> wf_sections cfg c'))"
proof -
  have finish: "(\<exists>al sz. c' = c\<lparr>SizeOfImage := sz, SectionAlignment := al\<rparr>) \<and>
      IS_POW2 (SectionAlignment c') \<and> unat start = image_start cfg c' \<and>
      (SizeOfImage c' = 0 \<or> wf_sections cfg c')"
    if start: "unat start = image_start cfg c \<and> (strict_sections cfg \<longrightarrow> unat (SectionAlignment c) dvd unat start)"
      and loop: "IS_POW2 al \<and> unat al dvd unat (SectionAlignment c) \<and>
        (strict_sections cfg \<longrightarrow> al = SectionAlignment c \<and> unat (SectionAlignment c) dvd unat hi) \<and>
        section_chain cfg (unat fs) (unat al) (unat start) (Sections c) (unat hi)"
      and size: "DetermineSizeOfImage cfg al hi = (al', sz)"
      and c': "c' = c\<lparr>SizeOfImage := sz, SectionAlignment := al'\<rparr>" for start al hi al' sz c'
  proof -
    have det: "IS_POW2 al'" "unat al' dvd unat al" "strict_sections cfg \<Longrightarrow> al' = al"
      "sz = 0 \<or> unat sz = align_up (unat hi) (unat al')"
      using DetermineSizeOfImage_spec [OF assms(1) _ _ size] loop by auto
    have "section_chain cfg (unat fs) (unat al') (unat start) (Sections c) (unat hi)"
      using loop det section_chain_realign [of cfg "unat fs" "unat al"] by (cases "strict_sections cfg") auto
    moreover have "image_start cfg c' = image_start cfg c"
      using det(3) loop c' by (cases "strict_sections cfg") simp_all
    ultimately show ?thesis
      using det start c' assms(3) by (auto simp: wf_sections_def Sections_def)
  qed
  show ?thesis
  proof (cases "NumberOfSections c = 0")
    case True
    then show ?thesis
      using assms(2) by (simp add: InternalVerifySections_def)
  next
    case False
    have table: "PeCoffGetSectionTable c = Inr (Sections c)"
      using assms(4) by (simp add: PeCoffGetSectionTable_def read_sections_def Sections_def)
    have pos: "0 < unat (NumberOfSections c)"
      using False by (simp add: unat_gt_0)
    show ?thesis
      unfolding InternalVerifySections_def table wp_assert bindR_simps if_not_P [OF False]
    proof (intro conjI assms(2), rule wp_bindI [OF StartAddress_wp [OF assms(2)]])
      fix start :: u32
      assume start: "unat start = image_start cfg c \<and> (strict_sections cfg \<longrightarrow> unat (SectionAlignment c) dvd unat start)"
      show "wp (bindR (VerifySectionsLoop cfg fs (Sections c) (SectionAlignment c) start) (\<lambda>(al, hi).
          let (al, sz) = DetermineSizeOfImage cfg al hi
          in Inr (c\<lparr>SizeOfImage := sz, SectionAlignment := al\<rparr>, start)))
        (\<lambda>(c', start). (\<exists>al sz. c' = c\<lparr>SizeOfImage := sz, SectionAlignment := al\<rparr>) \<and>
          0 < unat (NumberOfSections c) \<and> IS_POW2 (SectionAlignment c') \<and>
          unat start = image_start cfg c' \<and> (SizeOfImage c' = 0 \<or> wf_sections cfg c'))"
      proof (rule wp_bindI [OF VerifySectionsLoop_wp [OF assms(1,2)]])
        fix x :: "u32 \<times> u32"
        obtain al hi al' sz where x: "x = (al, hi)" "DetermineSizeOfImage cfg al hi = (al', sz)"
          by (cases x, cases "DetermineSizeOfImage cfg (fst x) (snd x)") auto
        assume "case x of (al', hi) \<Rightarrow> IS_POW2 al' \<and> unat al' dvd unat (SectionAlignment c) \<and>
          (strict_sections cfg \<longrightarrow> al' = SectionAlignment c \<and> unat (SectionAlignment c) dvd unat hi) \<and>
          section_chain cfg (unat fs) (unat al') (unat start) (Sections c) (unat hi)"
        with x finish [OF start _ x(2) refl] pos show "wp (case x of (al, hi) \<Rightarrow>
            let (al, sz) = DetermineSizeOfImage cfg al hi
            in Inr (c\<lparr>SizeOfImage := sz, SectionAlignment := al\<rparr>, start))
          (\<lambda>(c', start). (\<exists>al sz. c' = c\<lparr>SizeOfImage := sz, SectionAlignment := al\<rparr>) \<and>
            0 < unat (NumberOfSections c) \<and> IS_POW2 (SectionAlignment c') \<and>
            unat start = image_start cfg c' \<and> (SizeOfImage c' = 0 \<or> wf_sections cfg c'))"
          by simp
      qed (use start in auto)
    qed
  qed
qed

section \<open>The image context\<close>

definition wf_headers :: "pe_context \<Rightarrow> bool" where
  "wf_headers c \<longleftrightarrow>
     length (FileBytes c) = unat (FileSize c) \<and> 0 < unat (NumberOfSections c) \<and>
     unat (ExeHdrOffset c) + sizeof_COMMON_HDR \<le> unat (SectionsOffset c) \<and>
     unat (SectionsOffset c) + sizeof_SECTION_HEADER * unat (NumberOfSections c) \<le> unat (SizeOfHeaders c) \<and>
     unat (SizeOfHeaders c) \<le> unat (FileSize c)"

definition wf_reloc_dir :: "loader_cfg \<Rightarrow> pe_context \<Rightarrow> bool" where
  "wf_reloc_dir cfg c \<longleftrightarrow>
     (RelocsStripped c \<longrightarrow> RelocDirSize c = 0) \<and>
     (RelocDirSize c \<noteq> 0 \<longrightarrow>
        sizeof_BASE_RELOCATION_BLOCK \<le> unat (RelocDirSize c) \<and>
        image_start cfg c \<le> unat (RelocDirRva c) \<and>
        unat (RelocDirRva c) + unat (RelocDirSize c) \<le> unat (SizeOfImage c) \<and>
        4 dvd unat (RelocDirRva c))"

definition wf_security_dir :: "pe_context \<Rightarrow> bool" where
  "wf_security_dir c \<longleftrightarrow>
     unat (SecDirOffset c) + unat (SecDirSize c) \<le> unat (FileSize c) \<and>
     8 dvd unat (SecDirOffset c) \<and> 8 dvd unat (SecDirSize c)"

text \<open>The data directory of the file: where it starts, its number of entries, and that it lies before the
  section table. The security directory of the context is its fifth entry.\<close>

definition DataDirectoryOffset :: "pe_context \<Rightarrow> nat" where
  "DataDirectoryOffset c =
     unat (ExeHdrOffset c) +
     (case ImageType c of
        PeCoffLoaderTypePe32 \<Rightarrow> sizeof_NT_HEADERS32
      | PeCoffLoaderTypePe32Plus \<Rightarrow> sizeof_NT_HEADERS64)"

definition RvaAndSizes :: "pe_context \<Rightarrow> u32" where
  "RvaAndSizes c =
     get_word 4 (FileBytes c)
       (unat (ExeHdrOffset c) +
        (case ImageType c of PeCoffLoaderTypePe32 \<Rightarrow> 116 | PeCoffLoaderTypePe32Plus \<Rightarrow> 132))"

definition security_dir_size :: "pe_context \<Rightarrow> u32" where
  "security_dir_size c =
     (if 4 < RvaAndSizes c
      then get_word 4 (FileBytes c) (DataDirectoryOffset c + 4 * sizeof_DATA_DIRECTORY + 4) else 0)"

definition wf_directories :: "pe_context \<Rightarrow> bool" where
  "wf_directories c \<longleftrightarrow>
     DataDirectoryOffset c + sizeof_DATA_DIRECTORY * unat (RvaAndSizes c) \<le> unat (SectionsOffset c) \<and>
     SecDirSize c = security_dir_size c"

definition wf_context :: "loader_cfg \<Rightarrow> pe_context \<Rightarrow> bool" where
  "wf_context cfg c \<longleftrightarrow>
     wf_headers c \<and> IS_POW2 (SectionAlignment c) \<and> wf_sections cfg c \<and>
     unat (AddressOfEntryPoint c) < unat (SizeOfImage c) \<and>
     unat (SectionAlignment c) dvd unat (ImageBase c) \<and>
     wf_reloc_dir cfg c \<and> wf_security_dir c \<and> wf_directories c"

lemmas directory_defs = wf_directories_def DataDirectoryOffset_def RvaAndSizes_def security_dir_size_def

lemma InternalValidateRelocInfo_wp:
  assumes "RelocsStripped c \<longrightarrow> RelocDirSize c = 0" "unat start = image_start cfg c"
    "IS_POW2 (SectionAlignment c)"
  shows "wp (InternalValidateRelocInfo c start)
    (\<lambda>_. wf_reloc_dir cfg c \<and> unat (SectionAlignment c) dvd unat (ImageBase c))"
  using assms
  by (auto simp: InternalValidateRelocInfo_def wf_reloc_dir_def AddU32_eq word_less_nat_alt not_less not_le
      unat_add_u32 IS_ALIGNED_numeral IS_ALIGNED_iff_dvd IS_POW2_ucast_32_64 unat_ucast_32_64)

text \<open>The phases of the header validation. \<open>header_frame\<close>: the fields a phase leaves alone.\<close>

definition header_frame :: "pe_context \<Rightarrow> pe_context \<Rightarrow> bool" where
  "header_frame c c' \<longleftrightarrow>
     FileBuffer c' = FileBuffer c \<and> FileSize c' = FileSize c \<and> ExeHdrOffset c' = ExeHdrOffset c \<and>
     RelocDirRva c' = RelocDirRva c \<and> RelocDirSize c' = RelocDirSize c \<and>
     SecDirOffset c' = SecDirOffset c \<and> SecDirSize c' = SecDirSize c"

lemma InitializePeOptionalHeader_wp:
  assumes "length (FileBytes c) = unat fs" "unat (ExeHdrOffset c) \<le> unat fs"
    "sizeof_COMMON_HDR + 2 \<le> unat (fs - ExeHdrOffset c)"
  shows "wp (InitializePeOptionalHeader cfg c fs) (\<lambda>(c', dir, n, hdr). header_frame c c' \<and>
    dir = unat (ExeHdrOffset c) + sizeof_COMMON_HDR + unat hdr \<and> unat hdr \<le> 112 \<and>
    dir = DataDirectoryOffset c' \<and> n = RvaAndSizes c')"
proof -
  have "unat (fs - ExeHdrOffset c) = unat fs - unat (ExeHdrOffset c)"
    using assms(2) by (simp add: unat_sub word_le_nat_alt)
  with assms show ?thesis
    by (auto simp: InitializePeOptionalHeader_def header_frame_def Let_def DataDirectoryOffset_def RvaAndSizes_def)
qed

lemma ImageProtectionPolicy_wp:
  "wp (ImageProtectionPolicy cfg c n origin) (\<lambda>_. unat n \<le> 16 \<and> IS_POW2 (SectionAlignment c))"
  by (auto simp: ImageProtectionPolicy_def word_less_nat_alt not_less Let_def)

lemma InitializePeHeaderSizes_wp:
  assumes "length (FileBytes c) = unat fs" "unat (ExeHdrOffset c) + sizeof_COMMON_HDR \<le> unat fs"
    "unat n \<le> 16" "unat hdr \<le> 112"
  shows "wp (InitializePeHeaderSizes cfg c fs n hdr) (\<lambda>c'. header_frame c c' \<and>
    SectionAlignment c' = SectionAlignment c \<and> ImageType c' = ImageType c \<and>
    unat (ExeHdrOffset c) + sizeof_COMMON_HDR + (unat hdr + 8 * unat n) \<le> unat (SectionsOffset c') \<and>
    unat (SectionsOffset c') + sizeof_SECTION_HEADER * unat (NumberOfSections c') \<le> unat (SizeOfHeaders c') \<and>
    unat (SizeOfHeaders c') \<le> unat fs)"
proof -
  have o': "unat (ExeHdrOffset c + 24) = unat (ExeHdrOffset c) + 24"
    using assms(2) u32_less [of fs] by (simp add: unat_add_u32)
  have n8: "unat (n * 8) = 8 * unat n"
    using assms(3) by (simp add: unat_word_ariths(2))
  then have min: "unat (hdr + n * 8) = unat hdr + 8 * unat n"
    using assms(3,4) by (simp add: unat_add_u32)
  have opt: "unat (ucast (x :: u16) :: u32) = unat x" for x
    by (simp only: unat_eq_nat_uint uint_ucast_up)
  have secs: "unat (ucast (x :: u16) * 40 :: u32) = 40 * unat x" for x
    using u16_less [of x] by (simp add: unat_word_ariths(2) opt)
  show ?thesis
    using assms
    by (auto simp: InitializePeHeaderSizes_def header_frame_def Let_def AddU32_eq o' opt min secs
        word_le_nat_alt word_less_nat_alt not_less not_le unat_add_u32)
qed

text \<open>The directory phases leave the section layout alone.\<close>

definition layout_frame :: "pe_context \<Rightarrow> pe_context \<Rightarrow> bool" where
  "layout_frame c c' \<longleftrightarrow>
     FileBuffer c' = FileBuffer c \<and> FileSize c' = FileSize c \<and> ExeHdrOffset c' = ExeHdrOffset c \<and>
     SectionsOffset c' = SectionsOffset c \<and> NumberOfSections c' = NumberOfSections c \<and>
     SizeOfHeaders c' = SizeOfHeaders c \<and> SectionAlignment c' = SectionAlignment c \<and> ImageType c' = ImageType c"

lemma layout_frame_directory:
  "layout_frame c c' \<Longrightarrow> DataDirectoryOffset c' = DataDirectoryOffset c"
  "layout_frame c c' \<Longrightarrow> RvaAndSizes c' = RvaAndSizes c"
  "layout_frame c c' \<Longrightarrow> security_dir_size c' = security_dir_size c"
  by (simp_all add: layout_frame_def directory_defs)

lemma directory_index: "(5 :: u32) < n \<longleftrightarrow> 5 < unat n" "(4 :: u32) < n \<longleftrightarrow> 4 < unat n"
  by (simp_all add: word_less_nat_alt)

lemma InitializePeRelocDir_wp:
  assumes "dir + 8 * unat n \<le> length (FileBytes c)" "RelocDirRva c = 0" "RelocDirSize c = 0"
  shows "wp (InitializePeRelocDir c dir n) (\<lambda>c'. layout_frame c c' \<and>
    SecDirOffset c' = SecDirOffset c \<and> SecDirSize c' = SecDirSize c \<and>
    (RelocsStripped c' \<longrightarrow> RelocDirSize c' = 0))"
  using assms by (simp add: InitializePeRelocDir_def Let_def layout_frame_def directory_index)

lemma InitializePeSecurityDir_wp:
  assumes "dir + 8 * unat n \<le> length (FileBytes c)" "SecDirOffset c = 0" "SecDirSize c = 0"
  shows "wp (InitializePeSecurityDir c fs dir n) (\<lambda>c'. layout_frame c c' \<and>
    RelocsStripped c' = RelocsStripped c \<and> RelocDirSize c' = RelocDirSize c \<and>
    unat (SecDirOffset c') + unat (SecDirSize c') \<le> unat fs \<and>
    8 dvd unat (SecDirOffset c') \<and> 8 dvd unat (SecDirSize c') \<and>
    SecDirSize c' = (if 4 < n then get_word 4 (FileBytes c) (dir + 4 * sizeof_DATA_DIRECTORY + 4) else 0))"
  using assms
  by (auto simp: InitializePeSecurityDir_def Let_def layout_frame_def directory_index AddU32_eq
      IS_ALIGNED_numeral word_less_nat_alt [where 'a = 32] not_less not_le unat_add_u32)

text \<open>The last phases, on a context whose headers and directories have been validated.\<close>

lemma InitializePe_sections_wp:
  assumes "wf_cfg cfg" "IS_POW2 (SectionAlignment c)" "fs = FileSize c" "length (FileBytes c) = unat fs"
    and "unat (ExeHdrOffset c) + sizeof_COMMON_HDR \<le> unat (SectionsOffset c)"
    and "unat (SectionsOffset c) + sizeof_SECTION_HEADER * unat (NumberOfSections c) \<le> unat (SizeOfHeaders c)"
    and "unat (SizeOfHeaders c) \<le> unat fs"
    and "RelocsStripped c \<longrightarrow> RelocDirSize c = 0" and "wf_security_dir c" "wf_directories c"
  shows "wp (bindR (InternalVerifySections cfg c fs) (\<lambda>(Context, StartAddress).
     if AddressOfEntryPoint Context \<ge> SizeOfImage Context then fail RETURN_VOLUME_CORRUPTED
     else bindR (InternalValidateRelocInfo Context StartAddress) (\<lambda>_. Inr Context)))
    (\<lambda>c'. wf_context cfg c' \<and> FileBuffer c' = FileBuffer c \<and> FileSize c' = FileSize c)"
proof (rule wp_bindI [OF InternalVerifySections_wp [OF assms(1-3)]])
  show "unat (SectionsOffset c) + sizeof_SECTION_HEADER * unat (NumberOfSections c) \<le> length (FileBytes c)"
    using assms(4,6,7) by simp
  fix r :: "pe_context \<times> u32"
  assume r: "case r of (c', start) \<Rightarrow>
    (\<exists>al sz. c' = c\<lparr>SizeOfImage := sz, SectionAlignment := al\<rparr>) \<and> 0 < unat (NumberOfSections c) \<and>
    IS_POW2 (SectionAlignment c') \<and> unat start = image_start cfg c' \<and>
    (SizeOfImage c' = 0 \<or> wf_sections cfg c')"
  obtain c' start where [simp]: "r = (c', start)"
    by (cases r)
  obtain al sz where c': "c' = c\<lparr>SizeOfImage := sz, SectionAlignment := al\<rparr>"
    using r by auto
  have "wf_headers c'" "wf_security_dir c'" "wf_directories c'" "RelocsStripped c' \<longrightarrow> RelocDirSize c' = 0"
    "FileBuffer c' = FileBuffer c" "FileSize c' = FileSize c"
    using r assms c' by (auto simp: wf_headers_def wf_security_dir_def directory_defs)
  then show "wp (case r of (Context, StartAddress) \<Rightarrow>
      if AddressOfEntryPoint Context \<ge> SizeOfImage Context then fail RETURN_VOLUME_CORRUPTED
      else bindR (InternalValidateRelocInfo Context StartAddress) (\<lambda>_. Inr Context))
    (\<lambda>c'. wf_context cfg c' \<and> FileBuffer c' = FileBuffer c \<and> FileSize c' = FileSize c)"
    using r by (auto simp: not_le word_less_nat_alt wf_context_def
        intro!: wp_mono [OF InternalValidateRelocInfo_wp])
qed

lemma InternalInitializePe_wp:
  assumes "wf_cfg cfg" "fs = FileSize c" "length (FileBytes c) = unat fs"
    and "unat (ExeHdrOffset c) \<le> unat fs" "sizeof_COMMON_HDR + 2 \<le> unat (fs - ExeHdrOffset c)"
    and "PcdImageLoaderAllowMisalignedOffset cfg \<or> IS_ALIGNED (ExeHdrOffset c) 4"
    and "RelocDirRva c = 0" "RelocDirSize c = 0" "SecDirOffset c = 0" "SecDirSize c = 0"
  shows "wp (InternalInitializePe cfg c fs origin)
    (\<lambda>c'. wf_context cfg c' \<and> FileBuffer c' = FileBuffer c \<and> FileSize c' = FileSize c)"
  unfolding InternalInitializePe_def wp_assert
proof (intro conjI assms(5,6), rule wp_bindI [OF InitializePeOptionalHeader_wp [OF assms(3-5)]])
  have size: "unat (ExeHdrOffset c) + sizeof_COMMON_HDR \<le> unat fs"
    using assms(4,5) by (simp add: unat_sub word_le_nat_alt)
  fix r :: "pe_context \<times> nat \<times> u32 \<times> u32"
  assume r: "case r of (c', dir, n, hdr) \<Rightarrow> header_frame c c' \<and>
    dir = unat (ExeHdrOffset c) + sizeof_COMMON_HDR + unat hdr \<and> unat hdr \<le> 112 \<and>
    dir = DataDirectoryOffset c' \<and> n = RvaAndSizes c'"
  obtain c1 dir n hdr where [simp]: "r = (c1, dir, n, hdr)"
    by (cases r)
  have c1: "header_frame c c1" "dir = unat (ExeHdrOffset c) + sizeof_COMMON_HDR + unat hdr" "unat hdr \<le> 112"
    "dir = DataDirectoryOffset c1" "n = RvaAndSizes c1"
    using r by simp_all
  show "wp (case r of (Context, DataDirectory, NumberOfRvaAndSizes, HdrSizeWithoutDataDir) \<Rightarrow>
      bindR (ImageProtectionPolicy cfg Context NumberOfRvaAndSizes origin) (\<lambda>_.
      bindR (InitializePeHeaderSizes cfg Context fs NumberOfRvaAndSizes HdrSizeWithoutDataDir) (\<lambda>Context.
      bindR (InitializePeRelocDir Context DataDirectory NumberOfRvaAndSizes) (\<lambda>Context.
      bindR (InitializePeSecurityDir Context fs DataDirectory NumberOfRvaAndSizes) (\<lambda>Context.
      bindR (InternalVerifySections cfg Context fs) (\<lambda>(Context, StartAddress).
      if AddressOfEntryPoint Context \<ge> SizeOfImage Context then fail RETURN_VOLUME_CORRUPTED
      else bindR (InternalValidateRelocInfo Context StartAddress) (\<lambda>_. Inr Context)))))))
    (\<lambda>c'. wf_context cfg c' \<and> FileBuffer c' = FileBuffer c \<and> FileSize c' = FileSize c)"
    unfolding \<open>r = _\<close> prod.case
  proof (rule wp_bindI [OF ImageProtectionPolicy_wp], elim conjE,
      rule wp_bindI [OF InitializePeHeaderSizes_wp], goal_cases)
    case (5 _ c2)
    note c2 = this
    have dir2: "DataDirectoryOffset c2 = dir" "RvaAndSizes c2 = n"
      using c1 c2 by (simp_all add: header_frame_def directory_defs)
    show ?case
    proof (rule wp_bindI [OF InitializePeRelocDir_wp], goal_cases)
      case (4 c3)
      note c3 = this
      show ?case
      proof (rule wp_bindI [OF InitializePeSecurityDir_wp], goal_cases)
        case (4 c4)
        have "layout_frame c2 c4"
          using c3 4 by (simp add: layout_frame_def)
        then have dir4: "wf_directories c4"
          using c1 c2 c3 4 dir2 layout_frame_directory [of c2 c4]
          by (simp add: wf_directories_def security_dir_size_def layout_frame_def header_frame_def)
        have "FileSize c4 = fs"
          using c1 c2 c3 4 assms by (simp add: header_frame_def layout_frame_def)
        then have sec4: "wf_security_dir c4"
          unfolding wf_security_dir_def \<open>FileSize c4 = fs\<close> using 4 by blast
        show ?case
          by (rule wp_mono [OF InitializePe_sections_wp])
            (use c1 c2 c3 4 dir4 sec4 assms size in \<open>simp_all add: header_frame_def layout_frame_def\<close>)
      qed (use c1 c2 c3 assms in \<open>simp_all add: header_frame_def layout_frame_def\<close>)
    qed (use c1 c2 assms in \<open>simp_all add: header_frame_def\<close>)
  qed (use c1 assms size in \<open>simp_all add: header_frame_def\<close>)
qed

lemma PeCoffInitializeContext_wp:
  assumes "wf_cfg cfg" "length (Bytes buf) = unat fs" "Address buf \<noteq> 0 \<or> fs = 0"
  shows "wp (PeCoffInitializeContext cfg buf fs origin)
    (\<lambda>c. wf_context cfg c \<and> FileBuffer c = buf \<and> FileSize c = fs)"
  using assms
  by (auto simp: PeCoffInitializeContext_def Let_def zero_context_def IS_ALIGNED_numeral not_less
      word_less_nat_alt unat_sub word_le_nat_alt intro!: wp_mono [OF InternalInitializePe_wp])

section \<open>Consequences of well-formedness\<close>

lemma section_chain_bounds:
  "section_chain cfg fsize al lo ss hi \<Longrightarrow> 0 < al \<Longrightarrow>
     lo \<le> hi \<and> (\<forall>s \<in> set ss. wf_section cfg fsize al s \<and> lo \<le> sec_start s \<and> sec_end s \<le> hi)"
proof (induction ss arbitrary: lo)
  case (Cons s ss)
  have "sec_end s \<le> next_start cfg al (sec_end s)"
    by (simp add: next_start_def)
  with Cons show ?case
    by (fastforce split: if_splits)
qed simp

lemma section_chain_sorted:
  "section_chain cfg fsize al lo ss hi \<Longrightarrow> 0 < al \<Longrightarrow>
     sorted_wrt (\<lambda>s t. next_start cfg al (sec_end s) \<le> sec_start t) ss"
  by (induction ss arbitrary: lo) (auto dest: section_chain_bounds)

lemma wf_contextD:
  assumes "wf_context cfg c"
  shows "wf_headers c" "IS_POW2 (SectionAlignment c)" "wf_sections cfg c"
    "unat (AddressOfEntryPoint c) < unat (SizeOfImage c)" "wf_reloc_dir cfg c" "wf_security_dir c"
    "0 < unat (SectionAlignment c)" "wf_directories c"
  using assms by (simp_all add: wf_context_def IS_POW2_pos)

lemma wf_sections_bounds:
  assumes "wf_context cfg c" "s \<in> set (Sections c)"
  shows "wf_section cfg (unat (FileSize c)) (unat (SectionAlignment c)) s"
    "image_start cfg c \<le> sec_start s" "sec_end s \<le> unat (SizeOfImage c)"
proof -
  obtain hi where hi: "section_chain cfg (unat (FileSize c)) (unat (SectionAlignment c)) (image_start cfg c) (Sections c) hi"
    "unat (SizeOfImage c) = align_up hi (unat (SectionAlignment c))"
    using assms by (auto simp: wf_context_def wf_sections_def)
  with section_chain_bounds [OF hi(1) wf_contextD(7) [OF assms(1)]] assms(2) align_up_ge [of hi "unat (SectionAlignment c)"]
  show "wf_section cfg (unat (FileSize c)) (unat (SectionAlignment c)) s"
    "image_start cfg c \<le> sec_start s" "sec_end s \<le> unat (SizeOfImage c)"
    by (auto intro: le_trans [OF _ align_up_ge])
qed

lemma wf_sections_sorted:
  assumes "wf_context cfg c"
  shows "sorted_wrt (\<lambda>s t. next_start cfg (unat (SectionAlignment c)) (sec_end s) \<le> sec_start t) (Sections c)"
  using assms section_chain_sorted by (auto simp: wf_context_def wf_sections_def IS_POW2_pos)

lemma read_Sections: "wf_headers c \<Longrightarrow> PeCoffGetSectionTable c = Inr (Sections c)"
  by (simp add: wf_headers_def PeCoffGetSectionTable_def read_sections_def Sections_def)

lemma Sections_nonempty: "wf_headers c \<Longrightarrow> Sections c \<noteq> []"
  by (auto simp: wf_headers_def simp flip: length_greater_0_conv)

end
