(* ===== verification/PeCoffLoad.thy ===== *)
theory PeCoffLoad
  imports PeCoffInit
begin

text \<open>
  \<^verbatim>\<open>PeCoffLoad.c\<close>: loading a validated image into a destination buffer, or declaring it loaded in
  place, and discarding sections. The closed form \<open>section_bytes\<close> describes the bytes that the
  loading loop lays out; the lemmas show that the loop produces exactly these, whatever the
  destination held before.
\<close>

section \<open>Operations\<close>

definition DataSize :: "EFI_IMAGE_SECTION_HEADER \<Rightarrow> u32" where
  "DataSize s = (if SizeOfRawData s \<le> VirtualSize s then SizeOfRawData s else VirtualSize s)"

fun LoadSectionsLoop ::
  "u8 list \<Rightarrow> EFI_IMAGE_SECTION_HEADER list \<Rightarrow> u32 \<Rightarrow> u8 list \<Rightarrow> (u32 \<times> u8 list) result" where
  "LoadSectionsLoop File [] PreviousTopRva Img = Inr (PreviousTopRva, Img)"
| "LoadSectionsLoop File (s # ss) PreviousTopRva Img =
     bindR (ZeroMem Img (unat PreviousTopRva) (unat (VirtualAddress s - PreviousTopRva))) (\<lambda>Img.
     bindR (CopyMem Img (unat (VirtualAddress s)) File (unat (PointerToRawData s)) (unat (DataSize s))) (\<lambda>Img.
     LoadSectionsLoop File ss (VirtualAddress s + DataSize s) Img))"

definition InternalLoadSections :: "pe_context \<Rightarrow> u32 \<Rightarrow> u32 \<Rightarrow> pe_context result" where
  "InternalLoadSections Context LoadedHeaderSize DestinationSize =
     bindR (PeCoffGetSectionTable Context) (\<lambda>Sections.
     bindR (LoadSectionsLoop (FileBytes Context) Sections LoadedHeaderSize (ImageBytes Context))
       (\<lambda>(PreviousTopRva, Img).
     bindR (ZeroMem Img (unat PreviousTopRva) (unat (DestinationSize - PreviousTopRva))) (\<lambda>Img.
     Inr (set_ImageBytes Context Img))))"

definition PeCoffLoadImage ::
  "loader_cfg \<Rightarrow> pe_context \<Rightarrow> buffer \<Rightarrow> u32 \<Rightarrow> pe_context result" where
  "PeCoffLoadImage cfg Context Dest DestinationSize =
     assertR (Address Dest \<noteq> 0)
    (assertR (IS_ALIGNED (Address Dest) (ucast (SectionAlignment Context)))
    (assertR (SizeOfImage Context \<le> DestinationSize)
    (let Context = Context\<lparr>ImageBuffer := Destination Dest\<rparr> in
     bindR (PeCoffGetSectionTable Context) (\<lambda>Sections.
     bindR
       (if PcdImageLoaderLoadHeader cfg \<and> VirtualAddress (hd Sections) \<noteq> 0 then
          bindR (CopyMem (ImageBytes Context) 0 (FileBytes Context) 0 (unat (SizeOfHeaders Context))) (\<lambda>Img.
          Inr (SizeOfHeaders Context, set_ImageBytes Context Img))
        else Inr (0, Context)) (\<lambda>(LoadedHeaderSize, Context).
     InternalLoadSections Context LoadedHeaderSize DestinationSize)))))"

definition inplace_section :: "u32 \<Rightarrow> EFI_IMAGE_SECTION_HEADER \<Rightarrow> bool" where
  "inplace_section Alignment s \<longleftrightarrow>
     \<not> (PointerToRawData s \<noteq> VirtualAddress s \<or> SizeOfRawData s \<noteq> ALIGN_VALUE (VirtualSize s) Alignment)"

definition PeCoffLoadImageInplaceNoBase :: "pe_context \<Rightarrow> pe_context result" where
  "PeCoffLoadImageInplaceNoBase Context =
     bindR (PeCoffGetSectionTable Context) (\<lambda>Sections.
     if \<not> list_all (inplace_section (SectionAlignment Context)) Sections then fail RETURN_VOLUME_CORRUPTED
     else Inr (Context\<lparr>ImageBuffer := Inplace\<rparr>))"

definition PeCoffImageIsInplace :: "pe_context \<Rightarrow> bool" where
  "PeCoffImageIsInplace Context \<longleftrightarrow> PeCoffGetImageBase Context = Address (FileBuffer Context)"

definition PeCoffLoadImageInplace :: "pe_context \<Rightarrow> pe_context result" where
  "PeCoffLoadImageInplace Context =
     (if \<not> PeCoffImageIsInplace Context then fail RETURN_UNSUPPORTED
      else PeCoffLoadImageInplaceNoBase Context)"

fun DiscardSectionsLoop :: "EFI_IMAGE_SECTION_HEADER list \<Rightarrow> u8 list \<Rightarrow> u8 list result" where
  "DiscardSectionsLoop [] Img = Inr Img"
| "DiscardSectionsLoop (s # ss) Img =
     bindR (if Characteristics s AND EFI_IMAGE_SCN_MEM_DISCARDABLE \<noteq> 0
            then ZeroMem Img (unat (VirtualAddress s)) (unat (VirtualSize s))
            else Inr Img)
       (DiscardSectionsLoop ss)"

definition PeCoffDiscardSections :: "pe_context \<Rightarrow> pe_context result" where
  "PeCoffDiscardSections Context =
     (let Context = Context\<lparr>RelocDirRva := 0, RelocDirSize := 0\<rparr> in
      bindR (PeCoffGetSectionTable Context) (\<lambda>Sections.
      bindR (DiscardSectionsLoop Sections (ImageBytes Context)) (\<lambda>Img.
      Inr (set_ImageBytes Context Img))))"

section \<open>Closed form of the loaded image\<close>

fun section_bytes :: "u8 list \<Rightarrow> nat \<Rightarrow> EFI_IMAGE_SECTION_HEADER list \<Rightarrow> u8 list" where
  "section_bytes File t [] = []"
| "section_bytes File t (s # ss) =
     replicate (sec_start s - t) 0 @ take (unat (DataSize s)) (drop (unat (PointerToRawData s)) File) @
     section_bytes File (sec_start s + unat (DataSize s)) ss"

fun sections_top :: "nat \<Rightarrow> EFI_IMAGE_SECTION_HEADER list \<Rightarrow> nat" where
  "sections_top t [] = t"
| "sections_top t (s # ss) = sections_top (sec_start s + unat (DataSize s)) ss"

text \<open>What the loop needs of the section table: data inside the file, and ordered sections.\<close>

fun loadable :: "nat \<Rightarrow> nat \<Rightarrow> EFI_IMAGE_SECTION_HEADER list \<Rightarrow> nat \<Rightarrow> bool" where
  "loadable fsize t [] n_max \<longleftrightarrow> t \<le> n_max"
| "loadable fsize t (s # ss) n_max \<longleftrightarrow>
     t \<le> sec_start s \<and> sec_start s + unat (DataSize s) < 2 ^ 32 \<and>
     (unat (DataSize s) \<noteq> 0 \<longrightarrow> unat (PointerToRawData s) + unat (DataSize s) \<le> fsize) \<and>
     loadable fsize (sec_start s + unat (DataSize s)) ss n_max"

lemma DataSize_le: "unat (DataSize s) \<le> unat (VirtualSize s)" "unat (DataSize s) \<le> unat (SizeOfRawData s)"
  by (auto simp: DataSize_def word_le_nat_alt)

lemma loadable_top: "loadable fsize t ss n_max \<Longrightarrow> t \<le> sections_top t ss \<and> sections_top t ss \<le> n_max"
  by (induction fsize t ss n_max rule: loadable.induct) auto

lemma length_section_bytes:
  "loadable (length File) t ss n_max \<Longrightarrow> length (section_bytes File t ss) = sections_top t ss - t"
proof (induction File t ss rule: section_bytes.induct)
  case (2 File t s ss)
  then show ?case
    using loadable_top [of "length File" "sec_start s + unat (DataSize s)" ss n_max] by auto
qed simp

lemma LoadSectionsLoop_exact:
  assumes "loadable (length File) (unat t) ss n_max" "n_max \<le> length Img"
  shows "LoadSectionsLoop File ss t Img =
    Inr (word_of_nat (sections_top (unat t) ss),
         take (unat t) Img @ section_bytes File (unat t) ss @ drop (sections_top (unat t) ss) Img)"
  using assms
proof (induction ss arbitrary: t Img)
  case (Cons s ss)
  define n where "n = unat (DataSize s)"
  let ?a = "sec_start s"
  have le: "unat t \<le> ?a" "?a + n < 2 ^ 32" "n \<noteq> 0 \<Longrightarrow> unat (PointerToRawData s) + n \<le> length File"
    and rest: "loadable (length File) (?a + n) ss n_max"
    using Cons.prems by (auto simp: n_def)
  have top: "?a + n \<le> sections_top (?a + n) ss" "sections_top (?a + n) ss \<le> n_max"
    using loadable_top [OF rest] by auto
  have gap: "unat (VirtualAddress s - t) = ?a - unat t"
    using le(1) by (simp add: unat_sub word_le_nat_alt)
  have next_top: "unat (VirtualAddress s + DataSize s) = ?a + n"
    using le(2) by (simp add: unat_add_u32 n_def)
  let ?Z = "take (unat t) Img @ replicate (?a - unat t) 0 @ drop ?a Img"
  let ?C = "take ?a ?Z @ take n (drop (unat (PointerToRawData s)) File) @ drop (?a + n) ?Z"
  have lens: "length ?Z = length Img" "length ?C = length Img"
    using le top Cons.prems(2) by (cases "n = 0"; simp)+
  have zero: "ZeroMem Img (unat t) (unat (VirtualAddress s - t)) = Inr ?Z"
    using le top Cons.prems(2) by (subst ZeroMem_append) (simp_all add: gap)
  have copy: "CopyMem ?Z ?a File (unat (PointerToRawData s)) (unat (DataSize s)) = Inr ?C"
    using le top Cons.prems(2) lens by (subst CopyMem_append) (simp_all flip: n_def)
  have "LoadSectionsLoop File (s # ss) t Img = LoadSectionsLoop File ss (VirtualAddress s + DataSize s) ?C"
    by (simp add: zero copy)
  also have "\<dots> = Inr (word_of_nat (sections_top (?a + n) ss),
      take (?a + n) ?C @ section_bytes File (?a + n) ss @ drop (sections_top (?a + n) ss) ?C)"
    by (rule Cons.IH [of "VirtualAddress s + DataSize s" ?C, unfolded next_top, OF rest])
      (use lens(2) Cons.prems(2) in \<open>simp only:\<close>)
  also have "take (?a + n) ?C = take (unat t) Img @ replicate (?a - unat t) 0 @
      take n (drop (unat (PointerToRawData s)) File)"
    using le top Cons.prems(2) by (cases "n = 0") simp_all
  also have "drop (sections_top (?a + n) ss) ?C = drop (sections_top (?a + n) ss) Img"
    using le top Cons.prems(2) by (cases "n = 0") simp_all
  finally show ?case
    by (simp add: n_def)
qed simp

section \<open>Loading a well-formed image\<close>

definition loaded_header_size :: "loader_cfg \<Rightarrow> pe_context \<Rightarrow> nat" where
  "loaded_header_size cfg c =
     (if PcdImageLoaderLoadHeader cfg \<and> VirtualAddress (hd (Sections c)) \<noteq> 0
      then unat (SizeOfHeaders c) else 0)"

definition loaded_image :: "loader_cfg \<Rightarrow> pe_context \<Rightarrow> nat \<Rightarrow> u8 list" where
  "loaded_image cfg c n =
     take (loaded_header_size cfg c) (FileBytes c) @
     section_bytes (FileBytes c) (loaded_header_size cfg c) (Sections c) @
     replicate (n - sections_top (loaded_header_size cfg c) (Sections c)) 0"

lemma chain_loadable:
  "section_chain cfg fsize al lo ss hi \<Longrightarrow> t \<le> lo \<Longrightarrow> loadable fsize t ss hi"
proof (induction ss arbitrary: lo t)
  case (Cons s ss)
  have wf: "wf_section cfg fsize al s" and start: "lo \<le> sec_start s"
    and chain: "section_chain cfg fsize al (next_start cfg al (sec_end s)) ss hi"
    using Cons.prems by (auto split: if_splits)
  have data: "sec_start s + unat (DataSize s) \<le> sec_end s"
    "unat (DataSize s) \<noteq> 0 \<longrightarrow> unat (PointerToRawData s) + unat (DataSize s) \<le> fsize"
    using DataSize_le [of s] wf by (auto simp: wf_section_def)
  moreover have "sec_start s + unat (DataSize s) \<le> next_start cfg al (sec_end s)"
    using data(1) by (auto simp: next_start_def intro: le_trans [OF _ align_up_ge])
  ultimately show ?case
    using Cons.IH [OF chain] wf start Cons.prems(2) by (auto simp: wf_section_def)
qed simp

lemma loadable_mono: "loadable fsize t ss n \<Longrightarrow> n \<le> m \<Longrightarrow> loadable fsize t ss m"
  by (induction fsize t ss n rule: loadable.induct) auto

lemma wf_context_loadable:
  assumes "wf_context cfg c" "unat (SizeOfImage c) \<le> n"
  shows "loadable (length (FileBytes c)) (loaded_header_size cfg c) (Sections c) n"
proof -
  obtain hi where hi: "section_chain cfg (unat (FileSize c)) (unat (SectionAlignment c)) (image_start cfg c) (Sections c) hi"
    "unat (SizeOfImage c) = align_up hi (unat (SectionAlignment c))"
    using assms(1) by (auto simp: wf_context_def wf_sections_def)
  have "loaded_header_size cfg c \<le> image_start cfg c"
    by (simp add: loaded_header_size_def image_start_def next_start_def)
  then have "loadable (unat (FileSize c)) (loaded_header_size cfg c) (Sections c) hi"
    by (rule chain_loadable [OF hi(1)])
  moreover have "hi \<le> n"
    using hi(2) assms(2) align_up_ge le_trans by metis
  ultimately show ?thesis
    using assms(1) by (auto simp: wf_context_def wf_headers_def intro: loadable_mono)
qed

lemma length_loaded_image:
  assumes "wf_context cfg c" "unat (SizeOfImage c) \<le> n"
  shows "length (loaded_image cfg c n) = n"
proof -
  note loadable = wf_context_loadable [OF assms]
  have "loaded_header_size cfg c \<le> length (FileBytes c)"
    using assms(1) by (simp add: wf_context_def wf_headers_def loaded_header_size_def)
  with loadable_top [OF loadable] length_section_bytes [OF loadable] show ?thesis
    by (simp add: loaded_image_def)
qed

lemma InternalLoadSections_exact:
  assumes "wf_headers c" "loadable (length (FileBytes c)) (unat hs) (Sections c) (unat sz)"
    and "ImageBuffer c = Destination d" "length (Bytes d) = unat sz"
  shows "InternalLoadSections c hs sz =
    Inr (c\<lparr>ImageBuffer := Destination (d\<lparr>Bytes := take (unat hs) (Bytes d) @
      section_bytes (FileBytes c) (unat hs) (Sections c) @
      replicate (unat sz - sections_top (unat hs) (Sections c)) 0\<rparr>)\<rparr>)"
proof -
  define t where "t = sections_top (unat hs) (Sections c)"
  have t: "unat hs \<le> t" "t \<le> unat sz"
    using loadable_top [OF assms(2)] by (simp_all add: t_def)
  have t32: "unat (word_of_nat t :: u32) = t" "unat (sz - word_of_nat t) = unat sz - t"
    using t(2) u32_less [of sz] by (simp_all add: unat_of_nat unat_sub word_le_nat_alt)
  let ?sb = "section_bytes (FileBytes c) (unat hs) (Sections c)"
  let ?I = "take (unat hs) (Bytes d) @ ?sb @ drop t (Bytes d)"
  have len: "length ?sb = t - unat hs"
    using length_section_bytes [OF assms(2)] by (simp add: t_def)
  have loop: "LoadSectionsLoop (FileBytes c) (Sections c) hs (ImageBytes c) = Inr (word_of_nat t, ?I)"
    using LoadSectionsLoop_exact [OF assms(2), of "Bytes d"] assms(3,4)
    by (simp add: ImageBytes_def t_def)
  have "ZeroMem ?I t (unat sz - t) = Inr (take t ?I @ replicate (unat sz - t) 0)"
    using t len assms(4) by (subst ZeroMem_append) simp_all
  moreover have "take t ?I = take (unat hs) (Bytes d) @ ?sb"
    using t len assms(4) by simp
  ultimately show ?thesis
    using assms(3) by (simp add: InternalLoadSections_def read_Sections [OF assms(1)] loop t32
        set_ImageBytes_def flip: t_def)
qed

lemma PeCoffLoadImage_exact:
  assumes "wf_context cfg c" "length (Bytes dest) = unat sz"
    and "Address dest \<noteq> 0" "IS_ALIGNED (Address dest) (ucast (SectionAlignment c))"
    and "SizeOfImage c \<le> sz"
  shows "PeCoffLoadImage cfg c dest sz =
    Inr (c\<lparr>ImageBuffer := Destination (dest\<lparr>Bytes := loaded_image cfg c (unat sz)\<rparr>)\<rparr>)"
proof -
  note hdr = wf_contextD(1) [OF assms(1)]
  have le: "unat (SizeOfImage c) \<le> unat sz"
    using assms(5) by (simp add: word_le_nat_alt)
  have loadable: "loadable (length (FileBytes c)) (loaded_header_size cfg c) (Sections c) (unat sz)"
    by (rule wf_context_loadable [OF assms(1) le])
  have secs: "Sections (c\<lparr>ImageBuffer := i\<rparr>) = Sections c" "wf_headers (c\<lparr>ImageBuffer := i\<rparr>)" for i
    using hdr by (simp_all add: Sections_def wf_headers_def)
  show ?thesis
  proof (cases "PcdImageLoaderLoadHeader cfg \<and> VirtualAddress (hd (Sections c)) \<noteq> 0")
    case True
    then have hs: "loaded_header_size cfg c = unat (SizeOfHeaders c)"
      by (simp add: loaded_header_size_def)
    have "unat (SizeOfHeaders c) \<le> unat sz"
      using loadable_top [OF loadable] hs by simp
    moreover have "unat (SizeOfHeaders c) \<le> length (FileBytes c)"
      using hdr by (simp add: wf_headers_def)
    ultimately have copy: "CopyMem (Bytes dest) 0 (FileBytes c) 0 (unat (SizeOfHeaders c)) =
        Inr (take (unat (SizeOfHeaders c)) (FileBytes c) @ drop (unat (SizeOfHeaders c)) (Bytes dest))"
      using assms(2) by (subst CopyMem_append) simp_all
    show ?thesis
      using True assms loadable hs copy hdr \<open>unat (SizeOfHeaders c) \<le> length (FileBytes c)\<close> \<open>unat (SizeOfHeaders c) \<le> unat sz\<close>
      by (simp add: PeCoffLoadImage_def read_Sections secs ImageBytes_def set_ImageBytes_def
          InternalLoadSections_exact loaded_image_def)
  next
    case False
    then have "loaded_header_size cfg c = unat (0 :: u32)"
      by (auto simp: loaded_header_size_def)
    with False assms loadable show ?thesis
      by (cases "PcdImageLoaderLoadHeader cfg")
        (simp_all add: PeCoffLoadImage_def Let_def read_Sections secs InternalLoadSections_exact loaded_image_def)
  qed
qed

section \<open>What the loaded image contains\<close>

lemma loadable_start: "loadable fsize t ss n \<Longrightarrow> s \<in> set ss \<Longrightarrow> t \<le> sec_start s"
  by (induction fsize t ss n rule: loadable.induct) auto

lemma loadable_data_top: "loadable fsize t ss n \<Longrightarrow> s \<in> set ss \<Longrightarrow>
    sec_start s + unat (DataSize s) \<le> sections_top t ss"
  by (induction fsize t ss n rule: loadable.induct) (auto dest: loadable_top)

lemma section_bytes_data:
  assumes "loadable (length File) t ss n" "s \<in> set ss" "i < unat (DataSize s)"
  shows "section_bytes File t ss ! (sec_start s + i - t) = File ! (unat (PointerToRawData s) + i)"
  using assms
proof (induction ss arbitrary: t)
  case (Cons a ss)
  let ?d = "unat (DataSize a)"
  have a: "t \<le> sec_start a" "?d \<noteq> 0 \<Longrightarrow> unat (PointerToRawData a) + ?d \<le> length File"
    "loadable (length File) (sec_start a + ?d) ss n"
    using Cons.prems(1) by auto
  show ?case
  proof (cases "s \<in> set ss")
    case True
    have ge: "sec_start a + ?d \<le> sec_start s"
      using a(3) True by (rule loadable_start)
    have "section_bytes File t (a # ss) ! (sec_start s + i - t) =
        section_bytes File (sec_start a + ?d) ss ! (sec_start s + i - (sec_start a + ?d))"
      using a ge by (cases "?d = 0") (auto simp: nth_append)
    then show ?thesis
      using Cons.IH [OF a(3) True Cons.prems(3)] by simp
  next
    case False
    with Cons.prems(2,3) a show ?thesis
      by (auto simp: nth_append)
  qed
qed simp

lemma section_bytes_zero:
  assumes "loadable (length File) t ss n" "t \<le> j" "j < sections_top t ss"
    and "\<And>s. s \<in> set ss \<Longrightarrow> \<not> (sec_start s \<le> j \<and> j < sec_start s + unat (DataSize s))"
  shows "section_bytes File t ss ! (j - t) = 0"
  using assms
proof (induction ss arbitrary: t)
  case (Cons a ss)
  let ?d = "unat (DataSize a)"
  have a: "t \<le> sec_start a" "?d \<noteq> 0 \<Longrightarrow> unat (PointerToRawData a) + ?d \<le> length File"
    "loadable (length File) (sec_start a + ?d) ss n"
    using Cons.prems(1) by auto
  show ?case
  proof (cases "j < sec_start a")
    case True
    then show ?thesis
      using Cons.prems(2) by (auto simp: nth_append)
  next
    case False
    then have ge: "sec_start a + ?d \<le> j"
      using Cons.prems(4) [of a] by auto
    then have "section_bytes File t (a # ss) ! (j - t) = section_bytes File (sec_start a + ?d) ss ! (j - (sec_start a + ?d))"
      using a by (cases "?d = 0") (auto simp: nth_append)
    then show ?thesis
      using Cons.IH [OF a(3) ge] Cons.prems(3,4) by simp
  qed
qed simp

lemma loaded_image_nth:
  assumes "wf_context cfg c" "unat (SizeOfImage c) \<le> n"
  defines "h \<equiv> loaded_header_size cfg c"
  shows "i < h \<Longrightarrow> loaded_image cfg c n ! i = FileBytes c ! i"
    and "s \<in> set (Sections c) \<Longrightarrow> i < unat (DataSize s) \<Longrightarrow>
      loaded_image cfg c n ! (sec_start s + i) = FileBytes c ! (unat (PointerToRawData s) + i)"
    and "h \<le> i \<Longrightarrow> i < n \<Longrightarrow> (\<And>s. s \<in> set (Sections c) \<Longrightarrow> \<not> (sec_start s \<le> i \<and> i < sec_start s + unat (DataSize s)))
      \<Longrightarrow> loaded_image cfg c n ! i = 0"
proof -
  let ?t = "sections_top h (Sections c)"
  note loadable = wf_context_loadable [OF assms(1,2), folded h_def]
  have top: "h \<le> ?t" "?t \<le> n"
    using loadable_top [OF loadable] by simp_all
  have len: "length (section_bytes (FileBytes c) h (Sections c)) = ?t - h"
    by (rule length_section_bytes [OF loadable])
  have h: "length (take h (FileBytes c)) = h"
    using assms(1) by (simp add: wf_context_def wf_headers_def h_def loaded_header_size_def)
  have img: "loaded_image cfg c n = take h (FileBytes c) @ section_bytes (FileBytes c) h (Sections c) @ replicate (n - ?t) 0"
    by (simp add: loaded_image_def h_def)
  show "i < h \<Longrightarrow> loaded_image cfg c n ! i = FileBytes c ! i"
    using h by (simp add: img nth_append)
  show "loaded_image cfg c n ! (sec_start s + i) = FileBytes c ! (unat (PointerToRawData s) + i)"
    if "s \<in> set (Sections c)" "i < unat (DataSize s)"
    using section_bytes_data [OF loadable that] loadable_start [OF loadable that(1)]
      loadable_data_top [OF loadable that(1)] that(2) h len
    by (auto simp: img nth_append)
  show "loaded_image cfg c n ! i = 0" if "h \<le> i" "i < n"
    "\<And>s. s \<in> set (Sections c) \<Longrightarrow> \<not> (sec_start s \<le> i \<and> i < sec_start s + unat (DataSize s))"
    using section_bytes_zero [OF loadable that(1) _ that(3)] h len that(1,2) top
    by (cases "i < ?t") (auto simp: img nth_append)
qed

section \<open>Discarding sections\<close>

definition discarded :: "EFI_IMAGE_SECTION_HEADER list \<Rightarrow> nat \<Rightarrow> bool" where
  "discarded ss i \<longleftrightarrow> (\<exists>s \<in> set ss. Characteristics s AND EFI_IMAGE_SCN_MEM_DISCARDABLE \<noteq> 0 \<and>
     sec_start s \<le> i \<and> i < sec_end s)"

lemma DiscardSectionsLoop_exact:
  assumes "\<And>s. s \<in> set ss \<Longrightarrow> sec_end s \<le> length Img"
  shows "DiscardSectionsLoop ss Img = Inr (map (\<lambda>i. if discarded ss i then 0 else Img ! i) [0..<length Img])"
  using assms
proof (induction ss arbitrary: Img)
  case Nil
  then show ?case
    by (simp add: discarded_def map_nth)
next
  case (Cons s ss)
  let ?d = "Characteristics s AND EFI_IMAGE_SCN_MEM_DISCARDABLE \<noteq> 0"
  define Img1 where "Img1 = (if ?d then take (sec_start s) Img @ replicate (unat (VirtualSize s)) 0 @ drop (sec_end s) Img else Img)"
  have len: "length Img1 = length Img"
    using Cons.prems [of s] by (simp add: Img1_def)
  have nth: "Img1 ! i = (if ?d \<and> sec_start s \<le> i \<and> i < sec_end s then 0 else Img ! i)" if "i < length Img" for i
    using Cons.prems [of s] that by (auto simp: Img1_def nth_append)
  have "DiscardSectionsLoop (s # ss) Img = DiscardSectionsLoop ss Img1"
    using Cons.prems [of s] by (simp add: Img1_def ZeroMem_append)
  also have "\<dots> = Inr (map (\<lambda>i. if discarded ss i then 0 else Img1 ! i) [0..<length Img])"
    using Cons.IH [of Img1] Cons.prems len by simp
  also have "map (\<lambda>i. if discarded ss i then 0 else Img1 ! i) [0..<length Img] =
      map (\<lambda>i. if discarded (s # ss) i then 0 else Img ! i) [0..<length Img]"
    by (auto simp: nth discarded_def)
  finally show ?case .
qed

section \<open>Loading in place\<close>

lemma inplace_section_end:
  assumes "wf_context cfg c" "s \<in> set (Sections c)" "inplace_section (SectionAlignment c) s" "VirtualSize s \<noteq> 0"
  shows "sec_start s + align_up (unat (VirtualSize s)) (unat (SectionAlignment c)) \<le> unat (FileSize c)"
proof -
  let ?al = "unat (SectionAlignment c)"
  have pow2: "IS_POW2 (SectionAlignment c)" and pos: "0 < ?al"
    using wf_contextD [OF assms(1)] by simp_all
  have "align_up (unat (VirtualSize s)) ?al \<le> align_up (sec_end s) ?al"
    by (simp add: align_up_mono)
  also have "\<dots> \<le> unat (SizeOfImage c)"
    using assms(1) wf_sections_bounds(3) [OF assms(1,2)]
    by (auto simp: wf_context_def wf_sections_def IS_POW2_pos intro!: align_up_least)
  finally have small: "align_up (unat (VirtualSize s)) ?al < 2 ^ 32"
    using u32_less [of "SizeOfImage c"] by simp
  then have srd: "unat (SizeOfRawData s) = align_up (unat (VirtualSize s)) ?al"
    using assms(3) pow2 by (simp add: inplace_section_def unat_ALIGN_VALUE)
  moreover have "0 < align_up (unat (VirtualSize s)) ?al"
    using assms(4) by (intro less_le_trans [OF _ align_up_ge]) (simp add: unat_gt_0)
  then have "SizeOfRawData s \<noteq> 0"
    using srd by auto
  ultimately show ?thesis
    using wf_sections_bounds(1) [OF assms(1,2)] assms(3) by (auto simp: wf_section_def inplace_section_def)
qed

end
