(* ===== verification/PeCoffRelocate.thy ===== *)
theory PeCoffRelocate
  imports PeCoffLoad
begin

text \<open>
  \<^verbatim>\<open>PeCoffRelocate.c\<close>: relocation of a loaded image, the recording of the relocated values, and
  the relocation at runtime from that record. The two loops over relocation blocks take a bound on
  the number of iterations; the lemmas show that the size of the Relocation Directory is always
  enough, i.e. that the loops terminate for every image that passed validation.
\<close>

section \<open>ARM Thumb instruction pairs\<close>

definition ThumbMovtImmediateAddress :: "u8 list \<Rightarrow> nat \<Rightarrow> u16 result" where
  "ThumbMovtImmediateAddress b Instruction =
     bindR (readU16 b Instruction) (\<lambda>Movt1.
     bindR (readU16 b (Instruction + 2)) (\<lambda>Movt2.
     let Movt = (push_bit 16 (ucast Movt1) OR ucast Movt2 :: u32);
         Addr = ucast (Movt AND 0x000000FF);
         Addr = Addr OR ucast (drop_bit 4 Movt AND 0x0000F700);
         Addr = Addr OR ucast (drop_bit 15 (Movt AND 0x04000000))
     in Inr Addr))"

definition ThumbMovtImmediatePatch :: "u8 list \<Rightarrow> nat \<Rightarrow> u16 \<Rightarrow> u8 list result" where
  "ThumbMovtImmediatePatch b Instruction Addr =
     (let Patch = drop_bit 12 (Addr AND 0xF000) OR drop_bit 1 (Addr AND 0x0800) in
      bindR (readU16 b Instruction) (\<lambda>PatchedInstruction.
      bindR (writeU16 b Instruction ((PatchedInstruction AND NOT 0x040F) OR Patch)) (\<lambda>b.
      let Patch = (Addr AND 0x00FF) OR (push_bit 4 Addr AND 0x7000) in
      bindR (readU16 b (Instruction + 2)) (\<lambda>PatchedInstruction.
      writeU16 b (Instruction + 2) ((PatchedInstruction AND NOT 0x70FF) OR Patch)))))"

definition PeCoffThumbMovwMovtImmediateAddress :: "u8 list \<Rightarrow> nat \<Rightarrow> u32 result" where
  "PeCoffThumbMovwMovtImmediateAddress b Instructions =
     bindR (ThumbMovtImmediateAddress b (Instructions + 4)) (\<lambda>Top.
     bindR (ThumbMovtImmediateAddress b Instructions) (\<lambda>Word.
     Inr (push_bit 16 (ucast Top) OR ucast Word)))"

definition ThumbMovwMovtImmediatePatch :: "u8 list \<Rightarrow> nat \<Rightarrow> u32 \<Rightarrow> u8 list result" where
  "ThumbMovwMovtImmediatePatch b Instructions Addr =
     bindR (ThumbMovtImmediatePatch b Instructions (ucast (Addr AND 0x0000FFFF))) (\<lambda>b.
     ThumbMovtImmediatePatch b (Instructions + 4) (ucast (drop_bit 16 (Addr AND 0xFFFF0000))))"

definition PeCoffThumbMovwMovtImmediateFixup :: "u8 list \<Rightarrow> nat \<Rightarrow> u64 \<Rightarrow> u8 list result" where
  "PeCoffThumbMovwMovtImmediateFixup b Instructions Adjust =
     bindR (PeCoffThumbMovwMovtImmediateAddress b Instructions) (\<lambda>Fixup32.
     ThumbMovwMovtImmediatePatch b Instructions (Fixup32 + ucast Adjust))"

section \<open>Applying one relocation\<close>

text \<open>The array FixupData of the runtime context, or None where the pointer is NULL.\<close>

definition store_fixup :: "u64 list option \<Rightarrow> nat \<Rightarrow> u64 \<Rightarrow> u64 list option result" where
  "store_fixup FixupData i v =
     (case FixupData of
        None \<Rightarrow> Inr None
      | Some fd \<Rightarrow> if i < length fd then Inr (Some (fd[i := v])) else Inl OutOfBounds)"

definition IMAGE_RELOC_TYPE :: "u16 \<Rightarrow> u16" where "IMAGE_RELOC_TYPE Relocation = drop_bit 12 Relocation"
definition IMAGE_RELOC_OFFSET :: "u16 \<Rightarrow> u16" where "IMAGE_RELOC_OFFSET Relocation = Relocation AND 0x0FFF"

abbreviation (input) EFI_IMAGE_REL_BASED_ABSOLUTE :: u16 where "EFI_IMAGE_REL_BASED_ABSOLUTE \<equiv> 0"
abbreviation (input) EFI_IMAGE_REL_BASED_HIGHLOW :: u16 where "EFI_IMAGE_REL_BASED_HIGHLOW \<equiv> 3"
abbreviation (input) EFI_IMAGE_REL_BASED_ARM_MOV32T :: u16 where "EFI_IMAGE_REL_BASED_ARM_MOV32T \<equiv> 7"
abbreviation (input) EFI_IMAGE_REL_BASED_DIR64 :: u16 where "EFI_IMAGE_REL_BASED_DIR64 \<equiv> 10"

definition IMAGE_RELOC_TYPE_SUPPORTED :: "loader_cfg \<Rightarrow> u16 \<Rightarrow> bool" where
  "IMAGE_RELOC_TYPE_SUPPORTED cfg Type \<longleftrightarrow>
     Type = EFI_IMAGE_REL_BASED_ABSOLUTE \<or> Type = EFI_IMAGE_REL_BASED_HIGHLOW \<or>
     Type = EFI_IMAGE_REL_BASED_DIR64 \<or>
     (PcdImageLoaderRelocTypePolicy cfg AND PCD_RELOC_TYPE_POLICY_ARM \<noteq> 0 \<and> Type = EFI_IMAGE_REL_BASED_ARM_MOV32T)"

text \<open>Whether a target of \<open>n\<close> bytes overlaps the Relocation Directory.\<close>

definition targets_reloc_dir :: "pe_context \<Rightarrow> u32 \<Rightarrow> nat \<Rightarrow> bool" where
  "targets_reloc_dir Context RelocTargetRva n \<longleftrightarrow>
     unat RelocTargetRva + n > unat (RelocDirRva Context) \<and>
     RelocDirRva Context + RelocDirSize Context > RelocTargetRva"

type_synonym reloc_state = "u8 list \<times> u64 list option"

definition ApplyHighLow ::
  "pe_context \<Rightarrow> u32 \<Rightarrow> u32 \<Rightarrow> u64 \<Rightarrow> nat \<Rightarrow> reloc_state \<Rightarrow> reloc_state result" where
  "ApplyHighLow Context RelocTargetRva RemRelocTargetSize Adjust i = (\<lambda>(Img, FixupData).
     if 4 > unat RemRelocTargetSize then fail RETURN_VOLUME_CORRUPTED
     else if targets_reloc_dir Context RelocTargetRva 4 then fail RETURN_VOLUME_CORRUPTED
     else
       bindR (ReadUnaligned32 Img (unat RelocTargetRva)) (\<lambda>Fixup32.
       let Fixup32 = Fixup32 + ucast Adjust in
       bindR (WriteUnaligned32 Img (unat RelocTargetRva) Fixup32) (\<lambda>Img.
       bindR (store_fixup FixupData i (ucast Fixup32)) (\<lambda>FixupData.
       Inr (Img, FixupData)))))"

definition ApplyDir64 ::
  "pe_context \<Rightarrow> u32 \<Rightarrow> u32 \<Rightarrow> u64 \<Rightarrow> nat \<Rightarrow> reloc_state \<Rightarrow> reloc_state result" where
  "ApplyDir64 Context RelocTargetRva RemRelocTargetSize Adjust i = (\<lambda>(Img, FixupData).
     if 8 > unat RemRelocTargetSize then fail RETURN_VOLUME_CORRUPTED
     else if targets_reloc_dir Context RelocTargetRva 8 then fail RETURN_VOLUME_CORRUPTED
     else
       bindR (ReadUnaligned64 Img (unat RelocTargetRva)) (\<lambda>Fixup64.
       let Fixup64 = Fixup64 + Adjust in
       bindR (WriteUnaligned64 Img (unat RelocTargetRva) Fixup64) (\<lambda>Img.
       bindR (store_fixup FixupData i Fixup64) (\<lambda>FixupData.
       Inr (Img, FixupData)))))"

definition ApplyArmMov32T ::
  "loader_cfg \<Rightarrow> pe_context \<Rightarrow> u32 \<Rightarrow> u32 \<Rightarrow> u64 \<Rightarrow> nat \<Rightarrow> reloc_state \<Rightarrow> reloc_state result" where
  "ApplyArmMov32T cfg Context RelocTargetRva RemRelocTargetSize Adjust i = (\<lambda>(Img, FixupData).
     if PcdImageLoaderRelocTypePolicy cfg AND PCD_RELOC_TYPE_POLICY_ARM = 0 then fail RETURN_VOLUME_CORRUPTED
     else if 8 > unat RemRelocTargetSize then fail RETURN_VOLUME_CORRUPTED
     else if \<not> IS_ALIGNED RelocTargetRva 2 then fail RETURN_VOLUME_CORRUPTED
     else if targets_reloc_dir Context RelocTargetRva 8 then fail RETURN_VOLUME_CORRUPTED
     else
       bindR (PeCoffThumbMovwMovtImmediateFixup Img (unat RelocTargetRva) Adjust) (\<lambda>Img.
       bindR (if FixupData = None then Inr None
              else bindR (ReadUnaligned64 Img (unat RelocTargetRva)) (store_fixup FixupData i)) (\<lambda>FixupData.
       Inr (Img, FixupData))))"

text \<open>
  InternalApplyRelocation for the entry RelocIndex of the block at RelocBlock; \<open>base\<close> is the index
  of the block's first entry in the array FixupData.
\<close>

definition InternalApplyRelocation ::
  "loader_cfg \<Rightarrow> pe_context \<Rightarrow> nat \<Rightarrow> nat \<Rightarrow> u64 \<Rightarrow> nat \<Rightarrow> reloc_state \<Rightarrow> reloc_state result" where
  "InternalApplyRelocation cfg Context RelocBlock RelocIndex Adjust base = (\<lambda>(Img, FixupData).
     bindR (readU16 Img (RelocBlock + 8 + 2 * RelocIndex)) (\<lambda>Relocation.
     let RelocType = IMAGE_RELOC_TYPE Relocation;
         RelocOffset = IMAGE_RELOC_OFFSET Relocation
     in if RelocType = EFI_IMAGE_REL_BASED_ABSOLUTE then
          bindR (store_fixup FixupData (base + RelocIndex) 0) (\<lambda>FixupData. Inr (Img, FixupData))
        else
          bindR (ReadUnaligned32 Img RelocBlock) (\<lambda>BlockAddress.
          let (Overflow, RelocTargetRva) = BaseOverflowAddU32 BlockAddress (ucast RelocOffset)
          in if Overflow then fail RETURN_VOLUME_CORRUPTED
             else
               let (Overflow, RemRelocTargetSize) = BaseOverflowSubU32 (SizeOfImage Context) RelocTargetRva
               in if Overflow then fail RETURN_VOLUME_CORRUPTED
                  else if RelocType = EFI_IMAGE_REL_BASED_HIGHLOW
                  then ApplyHighLow Context RelocTargetRva RemRelocTargetSize Adjust (base + RelocIndex) (Img, FixupData)
                  else if RelocType = EFI_IMAGE_REL_BASED_DIR64
                  then ApplyDir64 Context RelocTargetRva RemRelocTargetSize Adjust (base + RelocIndex) (Img, FixupData)
                  else if RelocType = EFI_IMAGE_REL_BASED_ARM_MOV32T
                  then ApplyArmMov32T cfg Context RelocTargetRva RemRelocTargetSize Adjust (base + RelocIndex) (Img, FixupData)
                  else fail RETURN_UNSUPPORTED)))"

section \<open>Relocating an image\<close>

fun ApplyRelocations ::
  "loader_cfg \<Rightarrow> pe_context \<Rightarrow> nat \<Rightarrow> u64 \<Rightarrow> nat \<Rightarrow> nat \<Rightarrow> nat \<Rightarrow> reloc_state \<Rightarrow> reloc_state result" where
  "ApplyRelocations cfg Context RelocBlock Adjust base RelocIndex 0 st = Inr st"
| "ApplyRelocations cfg Context RelocBlock Adjust base RelocIndex (Suc n) st =
     bindR (InternalApplyRelocation cfg Context RelocBlock RelocIndex Adjust base st)
       (ApplyRelocations cfg Context RelocBlock Adjust base (Suc RelocIndex) n)"

text \<open>The advance from one Relocation Block to the next, depending on the alignment policy.\<close>

definition RelocBlockSize :: "loader_cfg \<Rightarrow> u32 \<Rightarrow> u32 result" where
  "RelocBlockSize cfg SizeOfBlock =
     (if PcdImageLoaderAlignmentPolicy cfg AND PCD_ALIGNMENT_POLICY_RELOCATION_BLOCK_SIZES = 0 then
        if \<not> IS_ALIGNED SizeOfBlock 4 then fail RETURN_VOLUME_CORRUPTED
        else Inr SizeOfBlock
      else Inr (ALIGN_VALUE SizeOfBlock 4))"

fun RelocateBlocks ::
  "nat \<Rightarrow> loader_cfg \<Rightarrow> pe_context \<Rightarrow> u64 \<Rightarrow> u32 \<Rightarrow> u32 \<Rightarrow> u32 \<Rightarrow> reloc_state \<Rightarrow>
     (u32 \<times> u32 \<times> reloc_state) result" where
  "RelocateBlocks fuel cfg Context Adjust RelocBlockOffsetMax RelocBlockOffset FixupDataIndex st =
     (if \<not> RelocBlockOffset \<le> RelocBlockOffsetMax then Inr (RelocBlockOffset, FixupDataIndex, st)
      else
        case fuel of
          0 \<Rightarrow> Inl OutOfFuel
        | Suc fuel' \<Rightarrow>
            bindR (ReadUnaligned32 (fst st) (unat RelocBlockOffset + 4)) (\<lambda>SizeOfBlock.
            let (Overflow, SizeOfRelocs) =
                  BaseOverflowSubU32 SizeOfBlock (word_of_nat sizeof_BASE_RELOCATION_BLOCK)
            in if Overflow then fail RETURN_VOLUME_CORRUPTED
               else if SizeOfRelocs > RelocBlockOffsetMax - RelocBlockOffset then fail RETURN_VOLUME_CORRUPTED
               else
                 bindR (RelocBlockSize cfg SizeOfBlock) (\<lambda>BlockSize.
                 let NumRelocs = SizeOfRelocs div 2;
                     NextFixupDataIndex = (if snd st = None then FixupDataIndex else FixupDataIndex + NumRelocs)
                 in bindR (ApplyRelocations cfg Context (unat RelocBlockOffset) Adjust (unat FixupDataIndex)
                             0 (unat NumRelocs) st) (\<lambda>st.
                    RelocateBlocks fuel' cfg Context Adjust RelocBlockOffsetMax
                      (RelocBlockOffset + BlockSize) NextFixupDataIndex st))))"

declare RelocateBlocks.simps [simp del]

record PE_COFF_LOADER_RUNTIME_CONTEXT =
  RtRelocDirRva :: u32
  RtRelocDirSize :: u32
  FixupData :: "u64 list"

text \<open>
  The runtime context is given by its size in bytes and, in the record, by the array FixupData of
  as many 64-bit values as fit behind the two 32-bit fields.
\<close>

definition zero_fixups :: "u64 list option \<Rightarrow> nat \<Rightarrow> u64 list option result" where
  "zero_fixups Fixups i =
     (case Fixups of
        None \<Rightarrow> Inr None
      | Some fd \<Rightarrow> if i \<le> length fd then Inr (Some (take i fd @ replicate (length fd - i) 0))
                   else Inl OutOfBounds)"

definition TopOfRelocDir :: "loader_cfg \<Rightarrow> u32 \<Rightarrow> u32 result" where
  "TopOfRelocDir cfg RelocEnd =
     (if PcdImageLoaderAlignmentPolicy cfg AND PCD_ALIGNMENT_POLICY_RELOCATION_BLOCK_SIZES \<noteq> 0 then
        let (Overflow, RelocTop) = BaseOverflowAlignUpU32 RelocEnd 4
        in if Overflow then fail RETURN_VOLUME_CORRUPTED else Inr RelocTop
      else Inr RelocEnd)"

definition PeCoffRelocateImage ::
  "loader_cfg \<Rightarrow> pe_context \<Rightarrow> u64 \<Rightarrow> PE_COFF_LOADER_RUNTIME_CONTEXT option \<Rightarrow> u32 \<Rightarrow>
     (pe_context \<times> PE_COFF_LOADER_RUNTIME_CONTEXT option) result" where
  "PeCoffRelocateImage cfg Context BaseAddress RuntimeContext RuntimeContextSize =
     assertR (\<not> RelocsStripped Context \<or> BaseAddress = ImageBase Context)
    (assertR (RuntimeContext \<noteq> None \<or> RuntimeContextSize = 0)
    (assertR (RuntimeContext = None \<or> unat RuntimeContextSize \<ge> 8 + unat (RelocDirSize Context) * 4)
    (let RuntimeContext = map_option
           (\<lambda>rt. rt\<lparr>RtRelocDirRva := RelocDirRva Context, RtRelocDirSize := RelocDirSize Context\<rparr>) RuntimeContext;
         Adjust = BaseAddress - ImageBase Context
     in if RelocDirSize Context = 0 then Inr (Context, RuntimeContext)
        else if RuntimeContext = None \<and> Adjust = 0 then Inr (Context, RuntimeContext)
        else
          let RelocEnd = RelocDirRva Context + RelocDirSize Context;
              RelocBlockOffsetMax = RelocEnd - word_of_nat sizeof_BASE_RELOCATION_BLOCK
          in bindR (TopOfRelocDir cfg RelocEnd) (\<lambda>RelocTop.
             bindR (RelocateBlocks (unat (RelocDirSize Context)) cfg Context Adjust RelocBlockOffsetMax
                      (RelocDirRva Context) 0 (ImageBytes Context, map_option FixupData RuntimeContext))
               (\<lambda>(RelocBlockOffset, FixupDataIndex, Img, Fixups).
             if RelocBlockOffset \<noteq> RelocTop then fail RETURN_VOLUME_CORRUPTED
             else
               bindR (zero_fixups Fixups (unat FixupDataIndex)) (\<lambda>Fixups.
               Inr (set_ImageBytes Context Img,
                    map_option (\<lambda>rt. rt\<lparr>FixupData := the Fixups\<rparr>) RuntimeContext))))))) "

definition PeCoffRelocateImageInplace :: "loader_cfg \<Rightarrow> pe_context \<Rightarrow> pe_context result" where
  "PeCoffRelocateImageInplace cfg Context =
     bindR (PeCoffLoadImageInplaceNoBase Context) (\<lambda>Context.
     bindR (PeCoffLoaderGetImageAddress Context) (\<lambda>NewBase.
     bindR (PeCoffRelocateImage cfg Context NewBase None 0) (\<lambda>(Context, _).
     Inr Context)))"

section \<open>Relocation at runtime\<close>

definition InternalApplyRelocationRuntime ::
  "loader_cfg \<Rightarrow> u8 list \<Rightarrow> nat \<Rightarrow> u16 \<Rightarrow> u64 \<Rightarrow> u64 \<Rightarrow> u8 list result" where
  "InternalApplyRelocationRuntime cfg Img Fixup RelocType Adjust FixupValue =
     assertR (IMAGE_RELOC_TYPE_SUPPORTED cfg RelocType \<and> RelocType \<noteq> EFI_IMAGE_REL_BASED_ABSOLUTE)
     (if RelocType = EFI_IMAGE_REL_BASED_HIGHLOW then
        bindR (ReadUnaligned32 Img Fixup) (\<lambda>Fixup32.
        if FixupValue \<noteq> ucast Fixup32 then
          if PcdImageLoaderRtRelocAllowTargetMismatch cfg then Inr Img
          else fail RETURN_VOLUME_CORRUPTED
        else WriteUnaligned32 Img Fixup (Fixup32 + ucast Adjust))
      else if RelocType = EFI_IMAGE_REL_BASED_DIR64 then
        bindR (ReadUnaligned64 Img Fixup) (\<lambda>Fixup64.
        if FixupValue \<noteq> Fixup64 then
          if PcdImageLoaderRtRelocAllowTargetMismatch cfg then Inr Img
          else fail RETURN_VOLUME_CORRUPTED
        else WriteUnaligned64 Img Fixup (Fixup64 + Adjust))
      else if RelocType = EFI_IMAGE_REL_BASED_ARM_MOV32T then
        assertR (PcdImageLoaderRelocTypePolicy cfg AND PCD_RELOC_TYPE_POLICY_ARM \<noteq> 0)
       (bindR (ReadUnaligned64 Img Fixup) (\<lambda>Fixup64.
        if FixupValue \<noteq> Fixup64 then
          if PcdImageLoaderRtRelocAllowTargetMismatch cfg then Inr Img
          else fail RETURN_VOLUME_CORRUPTED
        else PeCoffThumbMovwMovtImmediateFixup Img Fixup Adjust))
      else Inl AssertFailed)"

definition PeCoffLoaderGetRuntimeContextSize :: "pe_context \<Rightarrow> u32 result" where
  "PeCoffLoaderGetRuntimeContextSize Context =
     assertR (\<not> RelocsStripped Context)
     (let (Overflow, FixupDataSize) = BaseOverflowMulU32 (RelocDirSize Context) 4
      in if Overflow then fail RETURN_UNSUPPORTED
         else
           let (Overflow, Size) = BaseOverflowAddU32 FixupDataSize 8
           in if Overflow then fail RETURN_UNSUPPORTED else Inr Size)"

text \<open>
  How the loop treats the status of one relocation: an error is returned, and where the policy
  tolerates changed targets it must not occur.
\<close>

definition RuntimeFixupStatus :: "loader_cfg \<Rightarrow> u8 list result \<Rightarrow> u8 list result" where
  "RuntimeFixupStatus cfg Outcome =
     (case Outcome of
        Inl (Status s) \<Rightarrow>
          if \<not> PcdImageLoaderRtRelocAllowTargetMismatch cfg then fail s else Inl AssertFailed
      | _ \<Rightarrow> Outcome)"

text \<open>The relocations of one block: \<open>n\<close> entries from RelocIndex on.\<close>

fun RuntimeApplyRelocations ::
  "loader_cfg \<Rightarrow> nat \<Rightarrow> u64 \<Rightarrow> u64 list \<Rightarrow> nat \<Rightarrow> nat \<Rightarrow> u32 \<times> u8 list \<Rightarrow> (u32 \<times> u8 list) result" where
  "RuntimeApplyRelocations cfg RelocBlock Adjust Fixups RelocIndex 0 st = Inr st"
| "RuntimeApplyRelocations cfg RelocBlock Adjust Fixups RelocIndex (Suc n) (FixupDataIndex, Img) =
     bindR (readU16 Img (RelocBlock + 8 + 2 * RelocIndex)) (\<lambda>Relocation.
     if IMAGE_RELOC_TYPE Relocation = EFI_IMAGE_REL_BASED_ABSOLUTE then
       RuntimeApplyRelocations cfg RelocBlock Adjust Fixups (Suc RelocIndex) n (FixupDataIndex + 1, Img)
     else
       bindR (ReadUnaligned32 Img RelocBlock) (\<lambda>BlockAddress.
       let RelocOffset = (ucast (IMAGE_RELOC_OFFSET Relocation) :: u32) in
       assertR (RelocOffset \<le> BlockAddress + RelocOffset)
      (let RelocTarget = BlockAddress + RelocOffset in
       bindR (if unat FixupDataIndex < length Fixups then Inr (Fixups ! unat FixupDataIndex)
              else Inl OutOfBounds) (\<lambda>FixupValue.
       bindR (RuntimeFixupStatus cfg
                (InternalApplyRelocationRuntime cfg Img (unat RelocTarget) (IMAGE_RELOC_TYPE Relocation)
                   Adjust FixupValue)) (\<lambda>Img.
       RuntimeApplyRelocations cfg RelocBlock Adjust Fixups (Suc RelocIndex) n (FixupDataIndex + 1, Img))))))"

fun RuntimeRelocateBlocks ::
  "nat \<Rightarrow> loader_cfg \<Rightarrow> u64 \<Rightarrow> u64 list \<Rightarrow> u32 \<Rightarrow> u32 \<Rightarrow> u32 \<times> u8 list \<Rightarrow> (u32 \<times> u8 list) result" where
  "RuntimeRelocateBlocks fuel cfg Adjust Fixups RelocEnd RelocBlockOffset st =
     (if \<not> RelocBlockOffset < RelocEnd then Inr (RelocBlockOffset, snd st)
      else
        case fuel of
          0 \<Rightarrow> Inl OutOfFuel
        | Suc fuel' \<Rightarrow>
            assertR (IS_ALIGNED RelocBlockOffset 4)
           (bindR (ReadUnaligned32 (snd st) (unat RelocBlockOffset + 4)) (\<lambda>SizeOfBlock.
            assertR (sizeof_BASE_RELOCATION_BLOCK \<le> unat SizeOfBlock)
           (let SizeOfRelocs = SizeOfBlock - word_of_nat sizeof_BASE_RELOCATION_BLOCK;
                NumRelocs = SizeOfRelocs div 2
            in bindR (RuntimeApplyRelocations cfg (unat RelocBlockOffset) Adjust Fixups 0 (unat NumRelocs) st) (\<lambda>st.
               bindR (ReadUnaligned32 (snd st) (unat RelocBlockOffset + 4)) (\<lambda>SizeOfBlock.
               bindR
                 (if PcdImageLoaderAlignmentPolicy cfg AND PCD_ALIGNMENT_POLICY_RELOCATION_BLOCK_SIZES = 0
                  then assertR (IS_ALIGNED SizeOfBlock 4) (Inr SizeOfBlock)
                  else Inr (ALIGN_VALUE SizeOfBlock 4)) (\<lambda>BlockSize.
               RuntimeRelocateBlocks fuel' cfg Adjust Fixups RelocEnd (RelocBlockOffset + BlockSize) st)))))))"

declare RuntimeRelocateBlocks.simps [simp del]

definition PeCoffRuntimeRelocateImage ::
  "loader_cfg \<Rightarrow> buffer \<Rightarrow> u64 \<Rightarrow> PE_COFF_LOADER_RUNTIME_CONTEXT \<Rightarrow> buffer result" where
  "PeCoffRuntimeRelocateImage cfg Img BaseAddress RuntimeContext =
     assertR (Address Img \<noteq> 0)
    (assertR (BaseAddress \<noteq> 0)
    (if RtRelocDirSize RuntimeContext = 0 then Inr Img
     else
       let Adjust = BaseAddress - Address Img in
       if Adjust = 0 then Inr Img
       else
         let RelocEnd = RtRelocDirRva RuntimeContext + RtRelocDirSize RuntimeContext in
         bindR (RuntimeRelocateBlocks (unat (RtRelocDirSize RuntimeContext)) cfg Adjust
                  (FixupData RuntimeContext) RelocEnd (RtRelocDirRva RuntimeContext) (0, Bytes Img))
           (\<lambda>(RelocBlockOffset, b).
         let RelocTop =
               (if PcdImageLoaderAlignmentPolicy cfg AND PCD_ALIGNMENT_POLICY_RELOCATION_BLOCK_SIZES \<noteq> 0
                then ALIGN_VALUE RelocEnd 4 else RelocEnd)
         in assertR (RelocBlockOffset = RelocTop) (Inr (Img\<lparr>Bytes := b\<rparr>)))))"

section \<open>Thumb instruction pairs\<close>

definition thumb_address :: "u16 \<Rightarrow> u16 \<Rightarrow> u16" where
  "thumb_address Movt1 Movt2 =
     (let Movt = (push_bit 16 (ucast Movt1) OR ucast Movt2 :: u32)
      in ucast (Movt AND 0x000000FF) OR ucast (drop_bit 4 Movt AND 0x0000F700) OR
         ucast (drop_bit 15 (Movt AND 0x04000000)))"

definition thumb_patch1 :: "u16 \<Rightarrow> u16 \<Rightarrow> u16" where
  "thumb_patch1 w Addr = (w AND NOT 0x040F) OR (drop_bit 12 (Addr AND 0xF000) OR drop_bit 1 (Addr AND 0x0800))"

definition thumb_patch2 :: "u16 \<Rightarrow> u16 \<Rightarrow> u16" where
  "thumb_patch2 w Addr = (w AND NOT 0x70FF) OR ((Addr AND 0x00FF) OR (push_bit 4 Addr AND 0x7000))"

lemma bits16: "n < 16 \<Longrightarrow> n \<in> {0, 1, 2, 3, 4, 5, 6, 7, 8, 9, 10, 11, 12, 13, 14, 15 :: nat}"
  by (simp only: insert_iff empty_iff) arith

lemma word16_eqI:
  "(\<And>n. n \<in> {0, 1, 2, 3, 4, 5, 6, 7, 8, 9, 10, 11, 12, 13, 14, 15} \<Longrightarrow> bit v n = bit w n) \<Longrightarrow> v = (w :: u16)"
proof (rule bit_word_eqI)
  fix n
  assume eq: "\<And>n. n \<in> {0, 1, 2, 3, 4, 5, 6, 7, 8, 9, 10, 11, 12, 13, 14, 15} \<Longrightarrow> bit v n = bit w n"
    and "n < LENGTH(16)"
  then show "bit v n = bit w n"
    by (intro eq bits16) simp
qed

lemma thumb_address_patch: "thumb_address (thumb_patch1 w1 Addr) (thumb_patch2 w2 Addr) = Addr"
  by (rule word16_eqI, elim insertE) (auto simp: thumb_address_def thumb_patch1_def thumb_patch2_def bit_simps)

text \<open>Patching keeps the opcode and register bits of the instructions.\<close>

lemma thumb_patch1_opcode: "thumb_patch1 w Addr AND NOT 0x040F = w AND NOT 0x040F"
  by (rule word16_eqI, elim insertE) (auto simp: thumb_patch1_def bit_simps)

lemma thumb_patch2_opcode: "thumb_patch2 w Addr AND NOT 0x70FF = w AND NOT 0x70FF"
  by (rule word16_eqI, elim insertE) (auto simp: thumb_patch2_def bit_simps)

lemma ThumbMovtImmediateAddress_eq:
  "off + 4 \<le> length b \<Longrightarrow>
     ThumbMovtImmediateAddress b off = Inr (thumb_address (get_word 2 b off) (get_word 2 b (off + 2)))"
  by (simp add: ThumbMovtImmediateAddress_def readU16_def read_word_def thumb_address_def Let_def or.assoc)

lemma ThumbMovtImmediatePatch_wp:
  assumes "off + 4 \<le> length b"
  shows "wp (ThumbMovtImmediatePatch b off Addr) (\<lambda>b'. changes_only off 4 b b' \<and>
    get_word 2 b' off = thumb_patch1 (get_word 2 b off) Addr \<and>
    get_word 2 b' (off + 2) = thumb_patch2 (get_word 2 b (off + 2)) Addr)"
  unfolding ThumbMovtImmediatePatch_def Let_def wp_bind wp_read_fixed
proof (intro conjI wp_write16)
  fix b1
  assume b1: "changes_only off 2 b b1"
    "get_word 2 b1 off = (get_word 2 b off AND NOT 0x040F) OR (drop_bit 12 (Addr AND 0xF000) OR drop_bit 1 (Addr AND 0x0800))"
  then show "off + 2 + 2 \<le> length b1"
    using assms changes_only_length [OF b1(1)] by simp
  then show "off + 2 + 2 \<le> length b1" .
  fix b2
  assume b2: "changes_only (off + 2) 2 b1 b2"
    "get_word 2 b2 (off + 2) = (get_word 2 b1 (off + 2) AND NOT 0x70FF) OR (Addr AND 0x00FF OR push_bit 4 Addr AND 0x7000)"
  show "changes_only off 4 b b2"
    by (rule changes_only_trans [OF changes_only_mono [OF b1(1)] changes_only_mono [OF b2(1)]]) simp_all
  show "get_word 2 b2 off = thumb_patch1 (get_word 2 b off) Addr"
    using changes_only_get_word [OF b2(1), of off 2, where 'a = 16] b1(2) by (simp only: thumb_patch1_def) simp
  show "get_word 2 b2 (off + 2) = thumb_patch2 (get_word 2 b (off + 2)) Addr"
    using changes_only_get_word [OF b1(1), of "off + 2" 2, where 'a = 16] b2(2) by (simp only: thumb_patch2_def) simp
qed (use assms in simp_all)

definition movw_movt_address :: "u8 list \<Rightarrow> nat \<Rightarrow> u32" where
  "movw_movt_address b off =
     push_bit 16 (ucast (thumb_address (get_word 2 b (off + 4)) (get_word 2 b (off + 4 + 2)))) OR
     ucast (thumb_address (get_word 2 b off) (get_word 2 b (off + 2)))"

lemma MovwMovtImmediateAddress_eq:
  "off + 8 \<le> length b \<Longrightarrow> PeCoffThumbMovwMovtImmediateAddress b off = Inr (movw_movt_address b off)"
  by (simp add: PeCoffThumbMovwMovtImmediateAddress_def ThumbMovtImmediateAddress_eq movw_movt_address_def)

lemma split_address: "push_bit 16 (ucast (ucast (drop_bit 16 (a AND 0xFFFF0000)) :: u16)) OR
    ucast (ucast (a AND 0x0000FFFF) :: u16) = (a :: u32)"
proof -
  have eq: "drop_bit 16 (a AND 0xFFFF0000) = drop_bit 16 a AND mask 16" "a AND 0x0000FFFF = a AND mask 16"
    by (simp_all add: mask_eq_exp_minus_1)
  show ?thesis
    unfolding eq by (rule bit_word_eqI) (auto simp: bit_simps simp del: mask_numeral)
qed

lemma MovwMovtImmediatePatch_wp:
  assumes "off + 8 \<le> length b"
  shows "wp (ThumbMovwMovtImmediatePatch b off Addr) (\<lambda>b'. changes_only off 8 b b' \<and>
    movw_movt_address b' off = Addr)"
  unfolding ThumbMovwMovtImmediatePatch_def
proof (rule wp_bindI [OF ThumbMovtImmediatePatch_wp])
  fix b1
  assume b1: "changes_only off 4 b b1 \<and>
    get_word 2 b1 off = thumb_patch1 (get_word 2 b off) (ucast (Addr AND 0xFFFF)) \<and>
    get_word 2 b1 (off + 2) = thumb_patch2 (get_word 2 b (off + 2)) (ucast (Addr AND 0xFFFF))"
  show "wp (ThumbMovtImmediatePatch b1 (off + 4) (ucast (drop_bit 16 (Addr AND 0xFFFF0000))))
    (\<lambda>b'. changes_only off 8 b b' \<and> movw_movt_address b' off = Addr)"
  proof (rule wp_mono [OF ThumbMovtImmediatePatch_wp])
    fix b2
    assume b2: "changes_only (off + 4) 4 b1 b2 \<and>
      get_word 2 b2 (off + 4) = thumb_patch1 (get_word 2 b1 (off + 4)) (ucast (drop_bit 16 (Addr AND 0xFFFF0000))) \<and>
      get_word 2 b2 (off + 4 + 2) = thumb_patch2 (get_word 2 b1 (off + 4 + 2)) (ucast (drop_bit 16 (Addr AND 0xFFFF0000)))"
    have "get_word 2 b2 off = (get_word 2 b1 off :: u16)" "get_word 2 b2 (off + 2) = (get_word 2 b1 (off + 2) :: u16)"
      using b2 by (auto intro!: changes_only_get_word)
    then have "movw_movt_address b2 off = Addr"
      using b1 b2 split_address [of Addr]
      by (simp add: movw_movt_address_def thumb_address_patch add.assoc)
    moreover have "changes_only off 8 b b2"
      by (rule changes_only_trans [of _ _ _ b1]) (use b1 b2 in \<open>auto elim: changes_only_mono\<close>)
    ultimately show "changes_only off 8 b b2 \<and> movw_movt_address b2 off = Addr"
      by simp
  qed (use b1 assms changes_only_length [of off 4 b b1] in simp)
qed (use assms in simp)

lemma MovwMovtImmediateFixup_wp:
  assumes "off + 8 \<le> length b"
  shows "wp (PeCoffThumbMovwMovtImmediateFixup b off Adjust) (\<lambda>b'. changes_only off 8 b b' \<and>
    movw_movt_address b' off = movw_movt_address b off + ucast Adjust)"
  using assms MovwMovtImmediatePatch_wp [OF assms]
  by (simp add: PeCoffThumbMovwMovtImmediateFixup_def MovwMovtImmediateAddress_eq)

section \<open>Safety of one relocation\<close>

text \<open>The part of the image that relocation must not change: the directory, and what follows the image.\<close>

definition in_reloc_dir :: "pe_context \<Rightarrow> nat \<Rightarrow> bool" where
  "in_reloc_dir c i \<longleftrightarrow> unat (RelocDirRva c) \<le> i \<and> i < unat (RelocDirRva c) + unat (RelocDirSize c)"

definition reloc_frame :: "pe_context \<Rightarrow> u8 list \<Rightarrow> u8 list \<Rightarrow> bool" where
  "reloc_frame c b b' \<longleftrightarrow>
     length b' = length b \<and>
     (\<forall>i < length b. in_reloc_dir c i \<or> unat (SizeOfImage c) \<le> i \<longrightarrow> b' ! i = b ! i)"

text \<open>What relocation relies on: a buffer that holds the image, and a directory inside the image.\<close>

definition relocatable :: "pe_context \<Rightarrow> u8 list \<Rightarrow> bool" where
  "relocatable c b \<longleftrightarrow>
     unat (SizeOfImage c) \<le> length b \<and> sizeof_BASE_RELOCATION_BLOCK \<le> unat (RelocDirSize c) \<and>
     unat (RelocDirRva c) + unat (RelocDirSize c) \<le> unat (SizeOfImage c) \<and> 4 dvd unat (RelocDirRva c)"

lemma reloc_frame_refl [simp]: "reloc_frame c b b"
  by (simp add: reloc_frame_def)

lemma reloc_frame_trans: "reloc_frame c b b' \<Longrightarrow> reloc_frame c b' b'' \<Longrightarrow> reloc_frame c b b''"
  by (simp add: reloc_frame_def)

lemma relocatable_frame: "relocatable c b \<Longrightarrow> reloc_frame c b b' \<Longrightarrow> relocatable c b'"
  by (simp add: relocatable_def reloc_frame_def)

lemma reloc_dir_end:
  assumes "relocatable c b"
  shows "unat (RelocDirRva c + RelocDirSize c) = unat (RelocDirRva c) + unat (RelocDirSize c)"
  using assms u32_less [of "SizeOfImage c"] by (simp add: relocatable_def unat_add_u32)

lemma target_frame:
  assumes "relocatable c b" "\<not> targets_reloc_dir c t n" "unat t + n \<le> unat (SizeOfImage c)"
    and "changes_only (unat t) n b b'"
  shows "reloc_frame c b b'"
  using assms reloc_dir_end [OF assms(1)]
  by (auto simp: reloc_frame_def changes_only_def targets_reloc_dir_def in_reloc_dir_def word_less_nat_alt)

lemma store_fixup_wp:
  assumes "\<And>fd. fixups = Some fd \<Longrightarrow> i < length fd"
  shows "wp (store_fixup fixups i v) (\<lambda>fixups'. map_option length fixups' = map_option length fixups)"
  using assms by (auto simp: store_fixup_def split: option.splits)

definition reloc_post :: "pe_context \<Rightarrow> reloc_state \<Rightarrow> reloc_state \<Rightarrow> bool" where
  "reloc_post c st st' \<longleftrightarrow> reloc_frame c (fst st) (fst st') \<and>
     map_option length (snd st') = map_option length (snd st)"

lemma ApplyHighLow_wp:
  assumes "relocatable c Img" "\<And>fd. fixups = Some fd \<Longrightarrow> i < length fd"
    and "unat r = unat (SizeOfImage c) - unat t" "unat t \<le> unat (SizeOfImage c)"
  shows "wp (ApplyHighLow c t r adj i (Img, fixups)) (reloc_post c (Img, fixups))"
proof -
  have "unat t + 4 \<le> length Img" if "\<not> unat r < 4"
    using that assms(1,3,4) by (auto simp: relocatable_def)
  then show ?thesis
    using assms
    by (auto simp: reloc_post_def ApplyHighLow_def Let_def not_less
        intro!: wp_write32 wp_mono [OF store_fixup_wp [OF assms(2)]] elim!: target_frame [OF assms(1)])
qed

lemma ApplyDir64_wp:
  assumes "relocatable c Img" "\<And>fd. fixups = Some fd \<Longrightarrow> i < length fd"
    and "unat r = unat (SizeOfImage c) - unat t" "unat t \<le> unat (SizeOfImage c)"
  shows "wp (ApplyDir64 c t r adj i (Img, fixups)) (reloc_post c (Img, fixups))"
proof -
  have "unat t + 8 \<le> length Img" if "\<not> unat r < 8"
    using that assms(1,3,4) by (auto simp: relocatable_def)
  then show ?thesis
    using assms
    by (auto simp: reloc_post_def ApplyDir64_def Let_def not_less
        intro!: wp_write64 wp_mono [OF store_fixup_wp [OF assms(2)]] elim!: target_frame [OF assms(1)])
qed

lemma ApplyArmMov32T_wp:
  assumes "relocatable c Img" "\<And>fd. fixups = Some fd \<Longrightarrow> i < length fd"
    and "unat r = unat (SizeOfImage c) - unat t" "unat t \<le> unat (SizeOfImage c)"
  shows "wp (ApplyArmMov32T cfg c t r adj i (Img, fixups)) (reloc_post c (Img, fixups))"
proof -
  have "unat t + 8 \<le> length Img" if "\<not> unat r < 8"
    using that assms(1,3,4) by (auto simp: relocatable_def)
  then show ?thesis
    using assms
    by (auto simp: reloc_post_def ApplyArmMov32T_def not_less changes_only_length
        intro!: wp_mono [OF MovwMovtImmediateFixup_wp] wp_mono [OF store_fixup_wp [OF assms(2)]]
        elim!: target_frame [OF assms(1)])
qed

lemma InternalApplyRelocation_wp:
  assumes "relocatable c Img" "blk + 8 + 2 * i + 2 \<le> length Img"
    and "\<And>fd. fixups = Some fd \<Longrightarrow> base + i < length fd"
  shows "wp (InternalApplyRelocation cfg c blk i adj base (Img, fixups)) (reloc_post c (Img, fixups))"
  using assms
  by (auto simp: InternalApplyRelocation_def Let_def AddU32_eq SubU32_eq not_less unat_sub word_le_nat_alt
      intro!: ApplyHighLow_wp ApplyDir64_wp ApplyArmMov32T_wp wp_mono [OF store_fixup_wp [OF assms(3)]])
    (simp add: reloc_post_def)

lemma ApplyRelocations_wp:
  assumes "relocatable c (fst st)" "blk + 8 + 2 * (i + n) \<le> length (fst st)"
    and "\<And>fd. snd st = Some fd \<Longrightarrow> base + i + n \<le> length fd"
  shows "wp (ApplyRelocations cfg c blk adj base i n st) (reloc_post c st)"
  using assms
proof (induction n arbitrary: i st)
  case (Suc n)
  obtain Img fixups where st: "st = (Img, fixups)"
    by (cases st)
  show ?case
    unfolding ApplyRelocations.simps st
  proof (rule wp_bindI [OF InternalApplyRelocation_wp])
    fix st'
    assume st': "reloc_post c (Img, fixups) st'"
    then have len: "length (fst st') = length Img" and "relocatable c (fst st')"
      using Suc.prems(1) st by (auto simp: reloc_post_def reloc_frame_def relocatable_def)
    moreover have "base + Suc i + n \<le> length fd" if "snd st' = Some fd" for fd
      using Suc.prems(3) st st' that by (cases fixups) (auto simp: reloc_post_def)
    ultimately show "wp (ApplyRelocations cfg c blk adj base (Suc i) n st') (reloc_post c (Img, fixups))"
      using Suc.prems(2) st st'
      by (intro wp_mono [OF Suc.IH [of st' "Suc i"]]) (auto simp: reloc_post_def elim: reloc_frame_trans)
  qed (use Suc.prems st in auto)
qed (simp add: reloc_post_def)

section \<open>Safety and termination of the relocation loop\<close>

lemma reloc_post_trans: "reloc_post c st st' \<Longrightarrow> reloc_post c st' st'' \<Longrightarrow> reloc_post c st st''"
  by (auto simp: reloc_post_def elim: reloc_frame_trans)

definition relaxed_blocks :: "loader_cfg \<Rightarrow> bool" where
  "relaxed_blocks cfg \<longleftrightarrow>
     PcdImageLoaderAlignmentPolicy cfg AND PCD_ALIGNMENT_POLICY_RELOCATION_BLOCK_SIZES \<noteq> 0"

abbreviation reloc_end :: "pe_context \<Rightarrow> nat" where
  "reloc_end c \<equiv> unat (RelocDirRva c) + unat (RelocDirSize c)"

lemma align_up_add_dvd: "a dvd m \<Longrightarrow> align_up (m + v) a = m + align_up v a"
  by (auto simp: align_up_def elim!: dvdE)

lemma IS_POW2_4 [simp]: "IS_POW2 (4 :: u32)"
  by (simp add: IS_POW2_def)

lemma align_up_4_strict: "4 dvd v \<Longrightarrow> align_up v 4 = v"
  by (simp add: align_up_id_iff)

text \<open>The next block offset: no wrap-around, and aligned.\<close>

lemma RelocBlockSize_wp:
  assumes "4 dvd off" "off + unat sz \<le> e" "relaxed_blocks cfg \<Longrightarrow> align_up e 4 < 2 ^ 32" "e < 2 ^ 32"
  shows "wp (RelocBlockSize cfg sz) (\<lambda>bs. unat bs = align_up (unat sz) 4 \<and> off + unat bs < 2 ^ 32 \<and>
    (\<not> relaxed_blocks cfg \<longrightarrow> unat bs = unat sz))"
proof (cases "relaxed_blocks cfg")
  case True
  have "off + align_up (unat sz) 4 \<le> align_up e 4"
    using assms(1,2) by (simp flip: align_up_add_dvd add: align_up_mono)
  with True assms(3) show ?thesis
    by (simp add: RelocBlockSize_def relaxed_blocks_def unat_ALIGN_VALUE)
next
  case False
  then show ?thesis
    using assms(2,4) by (simp add: RelocBlockSize_def relaxed_blocks_def IS_ALIGNED_numeral align_up_4_strict)
qed

definition block_inv :: "loader_cfg \<Rightarrow> pe_context \<Rightarrow> u32 \<Rightarrow> u32 \<Rightarrow> reloc_state \<Rightarrow> bool" where
  "block_inv cfg c off idx st \<longleftrightarrow>
     relocatable c (fst st) \<and> unat (RelocDirRva c) \<le> unat off \<and> 4 dvd unat off \<and>
     (relaxed_blocks cfg \<longrightarrow> align_up (reloc_end c) 4 < 2 ^ 32) \<and>
     (\<forall>fd. snd st = Some fd \<longrightarrow> unat (RelocDirSize c) \<le> 2 * length fd + 1 \<and>
        2 * unat idx + unat (RelocDirRva c) \<le> unat off \<and> unat idx \<le> length fd)"

lemma block_inv_step:
  assumes inv: "block_inv cfg c off idx st" and off: "unat off + 8 \<le> reloc_end c"
    and size: "8 \<le> unat sz" "unat off + unat sz \<le> reloc_end c"
    and bs: "unat bs = align_up (unat sz) 4" "unat off + unat bs < 2 ^ 32"
    and post: "reloc_post c st st'"
  defines "num \<equiv> (sz - 8) div 2"
  shows "block_inv cfg c (off + bs) (if snd st = None then idx else idx + num) st'"
proof -
  have next_off: "unat (off + bs) = unat off + unat bs"
    using bs(2) by (simp add: unat_add_u32)
  have num: "2 * unat num + 8 \<le> unat sz"
    using size(1) by (simp add: num_def unat_div unat_sub word_le_nat_alt)
  have "unat sz \<le> unat bs" "4 dvd unat bs"
    using bs(1) by simp_all
  have fixup: "unat (RelocDirSize c) \<le> 2 * length fd + 1 \<and>
      2 * unat (idx + num) + unat (RelocDirRva c) \<le> unat off + unat bs \<and> unat (idx + num) \<le> length fd"
    if fd: "snd st' = Some fd" for fd
  proof -
    obtain fd0 where fd0: "snd st = Some fd0" "length fd0 = length fd"
      using post fd by (cases "snd st") (auto simp: reloc_post_def)
    then have i: "unat (RelocDirSize c) \<le> 2 * length fd + 1" "2 * unat idx + unat (RelocDirRva c) \<le> unat off"
      using inv by (auto simp: block_inv_def)
    then have "2 * (unat idx + unat num) + unat (RelocDirRva c) \<le> unat off + unat sz"
      using num by simp
    moreover have "unat (idx + num) = unat idx + unat num"
      using calculation size(2) u32_less [of "SizeOfImage c"] inv
      by (intro unat_add_u32) (simp add: block_inv_def relocatable_def)
    ultimately show ?thesis
      using i \<open>unat sz \<le> unat bs\<close> size(2) by simp
  qed
  have "snd st' \<noteq> None \<longrightarrow> snd st \<noteq> None"
    using post by (cases "snd st") (auto simp: reloc_post_def)
  moreover have "relocatable c (fst st')"
    using inv post by (auto simp: block_inv_def reloc_post_def elim: relocatable_frame)
  ultimately show ?thesis
    using inv fixup \<open>4 dvd unat bs\<close> by (auto simp: block_inv_def next_off)
qed

lemma RelocateBlocks_wp:
  assumes "block_inv cfg c off idx st" "reloc_end c - unat off \<le> fuel"
    and "unat m + 8 = reloc_end c"
  shows "wp (RelocateBlocks fuel cfg c adj m off idx st)
    (\<lambda>(off', idx', st'). reloc_post c st st' \<and> block_inv cfg c off' idx' st')"
  using assms(1,2)
proof (induction fuel arbitrary: off idx st)
  case 0
  then have "\<not> off \<le> m"
    using assms(3) by (simp add: word_le_nat_alt)
  with 0 show ?case
    by (simp add: RelocateBlocks.simps reloc_post_def)
next
  case (Suc fuel)
  show ?case
  proof (cases "off \<le> m")
    case False
    with Suc show ?thesis
      by (simp add: RelocateBlocks.simps reloc_post_def)
  next
    case True
    have img: "reloc_end c \<le> length (fst st)" "relocatable c (fst st)"
      using Suc.prems(1) by (simp_all add: block_inv_def relocatable_def)
    have off: "unat off + 8 \<le> reloc_end c"
      using True assms(3) by (simp add: word_le_nat_alt)
    define sz :: u32 where "sz = get_word 4 (fst st) (unat off + 4)"
    have step: "wp (bindR (RelocBlockSize cfg sz) (\<lambda>bs.
        bindR (ApplyRelocations cfg c (unat off) adj (unat idx) 0 (unat ((sz - 8) div 2)) st) (\<lambda>st.
          RelocateBlocks fuel cfg c adj m (off + bs) (if snd st0 = None then idx else idx + (sz - 8) div 2) st)))
        (\<lambda>(off', idx', st'). reloc_post c st st' \<and> block_inv cfg c off' idx' st')"
      if size: "8 \<le> unat sz" "unat off + unat sz \<le> reloc_end c" and "st0 = st" for st0
    proof (rule wp_bindI [OF RelocBlockSize_wp [of "unat off" sz "reloc_end c"]])
      fix bs :: u32
      assume bs: "unat bs = align_up (unat sz) 4 \<and> unat off + unat bs < 2 ^ 32 \<and>
        (\<not> relaxed_blocks cfg \<longrightarrow> unat bs = unat sz)"
      have num: "2 * unat ((sz - 8) div 2) + 8 \<le> unat sz"
        using size(1) by (simp add: unat_div unat_sub word_le_nat_alt)
      show "wp (bindR (ApplyRelocations cfg c (unat off) adj (unat idx) 0 (unat ((sz - 8) div 2)) st) (\<lambda>st.
          RelocateBlocks fuel cfg c adj m (off + bs) (if snd st0 = None then idx else idx + (sz - 8) div 2) st))
        (\<lambda>(off', idx', st'). reloc_post c st st' \<and> block_inv cfg c off' idx' st')"
      proof (rule wp_bindI [OF ApplyRelocations_wp])
        fix st'
        assume post: "reloc_post c st st'"
        have inv: "block_inv cfg c (off + bs) (if snd st = None then idx else idx + (sz - 8) div 2) st'"
          using block_inv_step [OF Suc.prems(1) off size _ _ post] bs by simp
        have "unat (off + bs) = unat off + unat bs" "8 \<le> unat bs"
          using bs size(1) align_up_ge [of "unat sz" 4] by (auto simp: unat_add_u32 simp del: align_up_ge)
        then have "reloc_end c - unat (off + bs) \<le> fuel"
          using Suc.prems(2) off by simp
        then show "wp (RelocateBlocks fuel cfg c adj m (off + bs)
            (if snd st0 = None then idx else idx + (sz - 8) div 2) st')
          (\<lambda>(off', idx', st'). reloc_post c st st' \<and> block_inv cfg c off' idx' st')"
          using \<open>st0 = st\<close> inv post by (intro wp_mono [OF Suc.IH]) (auto elim: reloc_post_trans)
      qed (use Suc.prems(1) img num size in \<open>auto simp: block_inv_def\<close>)
    qed (use Suc.prems size img u32_less [of "SizeOfImage c"] in \<open>auto simp: block_inv_def relocatable_def\<close>)
    have "\<not> unat sz < 8 \<Longrightarrow> \<not> sz - 8 > m - off \<Longrightarrow> 8 \<le> unat sz \<and> unat off + unat sz \<le> reloc_end c"
      using True off assms(3) by (simp add: word_less_nat_alt unat_sub word_le_nat_alt not_less)
    with step [OF _ _ refl] img off True show ?thesis
      unfolding RelocateBlocks.simps [of "Suc fuel"]
      by (cases "snd st"; cases "unat sz < 8"; simp add: SubU32_eq Let_def flip: sz_def)
  qed
qed

end
