(* ===== verification/PeRelocSpec.thy ===== *)
theory PeRelocSpec
  imports PeCoffRelocate
begin

text \<open>
  What relocation does, exactly. A fix-up replaces a window of the image by the action of the
  adjustment on its bytes; the relocation directory is read off as a list of fix-ups, and the
  loops of \<^verbatim>\<open>PeCoffRelocate.c\<close> apply exactly this list, or reject the directory with the status
  that reading it gives. From this follows that the relocation at runtime, which works from the
  recorded values only, yields the image that a relocation to the new address would have given.
\<close>

section \<open>Changing a window of a buffer\<close>

definition window :: "nat \<Rightarrow> nat \<Rightarrow> (u8 list \<Rightarrow> u8 list) \<Rightarrow> u8 list \<Rightarrow> u8 list" where
  "window off n f b = take off b @ f (take n (drop off b)) @ drop (off + n) b"

lemma get_word_window: "i + k \<le> n \<Longrightarrow> get_word k (take n (drop off b)) i = get_word k b (off + i)"
  by (simp add: get_word_def drop_take min_def add.commute)

text \<open>
  The contract of a fix-up: it replaces a window of fixed size, and the effects of two adjustments
  of the same window add up.
\<close>

locale byte_action =
  fixes n :: nat and act :: "u64 \<Rightarrow> u8 list \<Rightarrow> u8 list"
  assumes act_length: "length w = n \<Longrightarrow> length (act a w) = n"
    and act_add: "length w = n \<Longrightarrow> act a' (act a w) = act (a + a') w"
    and act_zero: "length w = n \<Longrightarrow> act 0 w = w"
begin

lemma length_window: "off + n \<le> length b \<Longrightarrow> length (window off n (act a) b) = length b"
  by (simp add: window_def act_length)

lemma window_empty: "n = 0 \<Longrightarrow> off \<le> length b \<Longrightarrow> window off n (act a) b = b"
  using act_length [of "[]" a] by (simp add: window_def)

lemma window_nth:
  "off + n \<le> length b \<Longrightarrow> i < length b \<Longrightarrow>
     window off n (act a) b ! i = (if off \<le> i \<and> i < off + n then act a (take n (drop off b)) ! (i - off) else b ! i)"
  by (auto simp: window_def nth_append act_length)

lemma window_changes_only: "off + n \<le> length b \<Longrightarrow> changes_only off n b (window off n (act a) b)"
  by (simp add: changes_only_def length_window window_nth)

lemma window_view: "off + n \<le> length b \<Longrightarrow> take n (drop off (window off n (act a) b)) = act a (take n (drop off b))"
  by (simp add: window_def act_length)

lemma window_zero: "off + n \<le> length b \<Longrightarrow> window off n (act 0) b = b"
  by (simp add: window_def act_zero) (metis append_take_drop_id add.commute drop_drop)

lemma window_add:
  "off + n \<le> length b \<Longrightarrow> window off n (act a') (window off n (act a) b) = window off n (act (a + a')) b"
  unfolding window_def [of off n "act a'"] window_view by (simp add: window_def act_length act_add)

end

locale two_actions = l: byte_action n act + r: byte_action m act'
  for n act m act'
begin

lemma window_commute:
  assumes "off + n \<le> length b" "off' + m \<le> length b" "off + n \<le> off' \<or> off' + m \<le> off \<or> n = 0 \<or> m = 0"
  shows "window off n (act a) (window off' m (act' a') b) = window off' m (act' a') (window off n (act a) b)"
proof (cases "n = 0 \<or> m = 0")
  case True
  then show ?thesis
    using assms l.window_empty r.window_empty by (auto simp: l.length_window r.length_window)
next
  case False
  have len: "length (window off' m (act' a') b) = length b" "length (window off n (act a) b) = length b"
    using assms by (simp_all add: l.length_window r.length_window)
  have same: "take n (drop off (window off' m (act' a') b)) = take n (drop off b)"
    "take m (drop off' (window off n (act a) b)) = take m (drop off' b)"
    using assms False
    by (auto intro!: changes_only_take_drop [OF r.window_changes_only] changes_only_take_drop [OF l.window_changes_only])
  show ?thesis
    by (rule nth_equalityI)
      (use assms False len in \<open>auto simp: l.length_window r.length_window l.window_nth r.window_nth same\<close>)
qed

end

section \<open>The three fix-ups\<close>

definition highlow_act :: "u64 \<Rightarrow> u8 list \<Rightarrow> u8 list" where
  "highlow_act a w = le_to_bytes 4 (unat (get_word 4 w 0 + ucast a :: u32))"

definition dir64_act :: "u64 \<Rightarrow> u8 list \<Rightarrow> u8 list" where
  "dir64_act a w = le_to_bytes 8 (unat (get_word 8 w 0 + a :: u64))"

definition thumb_act :: "u64 \<Rightarrow> u8 list \<Rightarrow> u8 list" where
  "thumb_act a w =
     (let A = movw_movt_address w 0 + ucast a;
          lo = ucast (A AND 0x0000FFFF); hi = ucast (drop_bit 16 (A AND 0xFFFF0000))
      in le_to_bytes 2 (unat (thumb_patch1 (get_word 2 w 0) lo)) @
         le_to_bytes 2 (unat (thumb_patch2 (get_word 2 w 2) lo)) @
         le_to_bytes 2 (unat (thumb_patch1 (get_word 2 w 4) hi)) @
         le_to_bytes 2 (unat (thumb_patch2 (get_word 2 w 6) hi)))"

lemma get_word_le_to_bytes:
  fixes v :: "'w::len word"
  assumes "LENGTH('w) = 8 * n"
  shows "get_word n (le_to_bytes n (unat v) @ w) 0 = v"
proof -
  have "(256::nat) ^ n = 2 ^ LENGTH('w)"
    using assms by (simp add: power_mult)
  then show ?thesis
    using unat_less_size [of v] by (simp add: get_word_def)
qed

lemma le_to_bytes_get_word:
  assumes "LENGTH('w::len) = 8 * n" "off + n \<le> length b"
  shows "le_to_bytes n (unat (get_word n b off :: 'w word)) = take n (drop off b)"
proof -
  have "length (take n (drop off b)) = n"
    using assms(2) by simp
  then have "le_of_bytes (take n (drop off b)) < 256 ^ n"
    using le_of_bytes_bound [of "take n (drop off b)"] by simp
  also have "(256::nat) ^ n = 2 ^ LENGTH('w)"
    using assms(1) by (simp add: power_mult)
  finally show ?thesis
    using \<open>length (take n (drop off b)) = n\<close> by (simp add: get_word_def unat_of_nat)
qed

lemmas get_word_le_to_bytes_all = get_word_le_to_bytes [where w = "[]", simplified]

interpretation highlow: byte_action 4 highlow_act
  by unfold_locales
    (simp_all add: highlow_act_def get_word_le_to_bytes_all le_to_bytes_get_word ucast_add_down add.assoc)

interpretation dir64: byte_action 8 dir64_act
  by unfold_locales (simp_all add: dir64_act_def get_word_le_to_bytes_all le_to_bytes_get_word add.assoc)


lemma thumb_patch1_twice: "thumb_patch1 (thumb_patch1 w A) B = thumb_patch1 w B"
  by (rule word16_eqI, elim insertE) (auto simp: thumb_patch1_def bit_simps)

lemma thumb_patch2_twice: "thumb_patch2 (thumb_patch2 w A) B = thumb_patch2 w B"
  by (rule word16_eqI, elim insertE) (auto simp: thumb_patch2_def bit_simps)

lemma get_word_skip: "length v = k \<Longrightarrow> k \<le> i \<Longrightarrow> get_word n (v @ w) i = get_word n w (i - k)"
  by (simp add: get_word_def)

lemma thumb_act_halves:
  fixes a :: u64
  defines "A w \<equiv> movw_movt_address w 0 + ucast a"
  shows "get_word 2 (thumb_act a w) 0 = thumb_patch1 (get_word 2 w 0) (ucast (A w AND 0x0000FFFF))"
    "get_word 2 (thumb_act a w) 2 = thumb_patch2 (get_word 2 w 2) (ucast (A w AND 0x0000FFFF))"
    "get_word 2 (thumb_act a w) 4 = thumb_patch1 (get_word 2 w 4) (ucast (drop_bit 16 (A w AND 0xFFFF0000)))"
    "get_word 2 (thumb_act a w) 6 = thumb_patch2 (get_word 2 w 6) (ucast (drop_bit 16 (A w AND 0xFFFF0000)))"
  by (simp_all add: thumb_act_def Let_def A_def get_word_skip get_word_le_to_bytes get_word_le_to_bytes_all)

lemma movw_movt_address_0: "movw_movt_address w 0 =
    push_bit 16 (ucast (thumb_address (get_word 2 w 4) (get_word 2 w 6))) OR
    ucast (thumb_address (get_word 2 w 0) (get_word 2 w 2))"
  by (simp add: movw_movt_address_def numeral_2_eq_2)

lemma thumb_act_address: "movw_movt_address (thumb_act a w) 0 = movw_movt_address w 0 + ucast a"
  using split_address [of "movw_movt_address w 0 + ucast a"]
  by (simp only: movw_movt_address_0 [of "thumb_act a w"] thumb_act_halves thumb_address_patch)

lemma thumb_patch1_same: "thumb_patch1 w1 (thumb_address w1 w2) = w1"
  by (rule word16_eqI, elim insertE) (auto simp: thumb_address_def thumb_patch1_def bit_simps dest: bit_imp_le_length)

lemma thumb_patch2_same: "thumb_patch2 w2 (thumb_address w1 w2) = w2"
  by (rule word16_eqI, elim insertE) (auto simp: thumb_address_def thumb_patch2_def bit_simps dest: bit_imp_le_length)

lemma join_halves:
  fixes h l :: u16
  shows "ucast ((push_bit 16 (ucast h) OR ucast l :: u32) AND 0x0000FFFF) = l"
    "ucast (drop_bit 16 ((push_bit 16 (ucast h) OR ucast l :: u32) AND 0xFFFF0000)) = h"
proof -
  have eq: "drop_bit 16 (a AND 0xFFFF0000) = drop_bit 16 a AND mask 16" "a AND 0x0000FFFF = a AND mask 16" for a :: u32
    by (simp_all add: mask_eq_exp_minus_1)
  show "ucast ((push_bit 16 (ucast h) OR ucast l :: u32) AND 0x0000FFFF) = l"
    "ucast (drop_bit 16 ((push_bit 16 (ucast h) OR ucast l :: u32) AND 0xFFFF0000)) = h"
    unfolding eq by (rule bit_word_eqI; auto simp: bit_simps simp del: mask_numeral dest: bit_imp_le_length)+
qed

lemma thumb_act_0:
  assumes "length w = 8"
  shows "thumb_act 0 w = w"
proof -
  have "w = take 2 w @ take 2 (drop 2 w) @ take 2 (drop 4 w) @ take 2 (drop 6 w)"
    using assms append_take_drop_id [of 2 w] append_take_drop_id [of 2 "drop 2 w"] append_take_drop_id [of 2 "drop 4 w"]
    by simp
  moreover have "thumb_act 0 w = le_to_bytes 2 (unat (get_word 2 w 0 :: u16)) @ le_to_bytes 2 (unat (get_word 2 w 2 :: u16)) @
      le_to_bytes 2 (unat (get_word 2 w 4 :: u16)) @ le_to_bytes 2 (unat (get_word 2 w 6 :: u16))"
    by (simp only: thumb_act_def Let_def unsigned_0 add_0_right movw_movt_address_0 join_halves
        thumb_patch1_same thumb_patch2_same)
  ultimately show ?thesis
    using assms by (simp add: le_to_bytes_get_word)
qed

interpretation thumb: byte_action 8 thumb_act
proof
  show "length (thumb_act a w) = 8" for a w
    by (simp add: thumb_act_def Let_def)
  show "thumb_act 0 w = w" if "length w = 8" for w
    using that by (rule thumb_act_0)
  show "thumb_act a' (thumb_act a w) = thumb_act (a + a') w" for a a' w
    unfolding thumb_act_def [of a'] thumb_act_halves thumb_act_address
    by (simp add: thumb_act_def [of "a + a'"] thumb_patch1_twice thumb_patch2_twice ucast_add_down add.assoc)
qed

definition fixup_size :: "u16 \<Rightarrow> nat" where
  "fixup_size ty =
     (if ty = EFI_IMAGE_REL_BASED_HIGHLOW then 4
      else if ty = EFI_IMAGE_REL_BASED_DIR64 \<or> ty = EFI_IMAGE_REL_BASED_ARM_MOV32T then 8 else 0)"

definition fixup_act :: "u16 \<Rightarrow> u64 \<Rightarrow> u8 list \<Rightarrow> u8 list" where
  "fixup_act ty =
     (if ty = EFI_IMAGE_REL_BASED_HIGHLOW then highlow_act
      else if ty = EFI_IMAGE_REL_BASED_DIR64 then dir64_act
      else if ty = EFI_IMAGE_REL_BASED_ARM_MOV32T then thumb_act else (\<lambda>a w. w))"

interpretation fixup: byte_action "fixup_size ty" "fixup_act ty" for ty
  by unfold_locales
    (auto simp: fixup_size_def fixup_act_def highlow.act_length dir64.act_length thumb.act_length
      highlow.act_add dir64.act_add thumb.act_add highlow.act_zero dir64.act_zero thumb.act_zero)

interpretation fixup_pair: two_actions "fixup_size ty" "fixup_act ty" "fixup_size ty'" "fixup_act ty'" for ty ty'
  by unfold_locales

text \<open>A relocation of the directory: its type and its target.\<close>

type_synonym reloc = "u16 \<times> u32"

definition reloc_apply :: "u64 \<Rightarrow> reloc \<Rightarrow> u8 list \<Rightarrow> u8 list" where
  "reloc_apply a = (\<lambda>(ty, rva). window (unat rva) (fixup_size ty) (fixup_act ty a))"

definition reloc_value :: "reloc \<Rightarrow> u8 list \<Rightarrow> u64" where
  "reloc_value = (\<lambda>(ty, rva) b. get_word (fixup_size ty) b (unat rva))"

lemma ThumbMovtImmediatePatch_exact:
  assumes "off + 4 \<le> length b"
  shows "ThumbMovtImmediatePatch b off A = Inr (take off b @
    le_to_bytes 2 (unat (thumb_patch1 (get_word 2 b off) A)) @
    le_to_bytes 2 (unat (thumb_patch2 (get_word 2 b (off + 2)) A)) @ drop (off + 4) b)"
proof -
  let ?b1 = "take off b @ le_to_bytes 2 (unat (thumb_patch1 (get_word 2 b off) A)) @ drop (off + 2) b"
  have w: "write_bytes b off (le_to_bytes 2 (unat (thumb_patch1 (get_word 2 b off) A))) = Inr ?b1"
    using assms by (simp add: write_bytes_def)
  have "get_word 2 ?b1 (off + 2) = (get_word 2 b (off + 2) :: u16)"
    by (rule changes_only_get_word [OF write_bytes_changes_only [OF w]]) simp
  moreover have le: "Suc (Suc off) \<le> length b - 2"
    using assms by simp
  moreover have "ThumbMovtImmediatePatch b off A =
      bindR (readU16 b off) (\<lambda>p. bindR (writeU16 b off (thumb_patch1 p A)) (\<lambda>b.
      bindR (readU16 b (off + 2)) (\<lambda>p. writeU16 b (off + 2) (thumb_patch2 p A))))"
    by (simp only: ThumbMovtImmediatePatch_def Let_def thumb_patch1_def thumb_patch2_def)
  ultimately show ?thesis
    using w assms le
    by (simp add: readU16_def read_word_def writeU16_def write_bytes_def add.commute [of 4] del: add_2_eq_Suc')
qed

lemma Thumb_fixup_exact:
  assumes "off + 8 \<le> length b"
  shows "PeCoffThumbMovwMovtImmediateFixup b off a = Inr (window off 8 (thumb_act a) b)"
proof -
  define A where "A = movw_movt_address b off + ucast a"
  let ?lo = "ucast (A AND 0x0000FFFF)"
  let ?b1 = "take off b @ le_to_bytes 2 (unat (thumb_patch1 (get_word 2 b off) ?lo)) @
    le_to_bytes 2 (unat (thumb_patch2 (get_word 2 b (off + 2)) ?lo)) @ drop (off + 4) b"
  have p1: "ThumbMovtImmediatePatch b off ?lo = Inr ?b1"
    using assms by (intro ThumbMovtImmediatePatch_exact) simp
  have len: "length ?b1 = length b"
    using assms by simp
  have "changes_only off 4 b ?b1"
    using wp_Inr [OF ThumbMovtImmediatePatch_wp p1] assms by simp
  then have keep: "get_word 2 ?b1 (off + 4) = (get_word 2 b (off + 4) :: u16)"
    "get_word 2 ?b1 (off + 6) = (get_word 2 b (off + 6) :: u16)"
    by (auto intro: changes_only_get_word)
  have "movw_movt_address (take 8 (drop off b)) 0 = movw_movt_address b off"
    by (simp add: movw_movt_address_0 movw_movt_address_def get_word_window add.commute)
  then show ?thesis
    using assms p1 keep len
    by (simp add: PeCoffThumbMovwMovtImmediateFixup_def MovwMovtImmediateAddress_eq
        ThumbMovwMovtImmediatePatch_def A_def [symmetric] ThumbMovtImmediatePatch_exact window_def
        thumb_act_def Let_def get_word_window add.assoc add.commute [of 8] del: add_2_eq_Suc')
qed


section \<open>One relocation, exactly\<close>

text \<open>The status with which an entry of the directory is rejected, if it is.\<close>

definition entry_error :: "loader_cfg \<Rightarrow> pe_context \<Rightarrow> u32 \<Rightarrow> u16 \<Rightarrow> RETURN_STATUS option" where
  "entry_error cfg c BlockAddress r =
     (let ty = IMAGE_RELOC_TYPE r; rva = unat BlockAddress + unat (IMAGE_RELOC_OFFSET r);
          target = BlockAddress + ucast (IMAGE_RELOC_OFFSET r)
      in if ty = EFI_IMAGE_REL_BASED_ABSOLUTE then None
         else if unat (SizeOfImage c) < rva then Some RETURN_VOLUME_CORRUPTED
         else if fixup_size ty = 0 then Some RETURN_UNSUPPORTED
         else if ty = EFI_IMAGE_REL_BASED_ARM_MOV32T \<and>
            (PcdImageLoaderRelocTypePolicy cfg AND PCD_RELOC_TYPE_POLICY_ARM = 0 \<or> \<not> IS_ALIGNED target 2)
         then Some RETURN_VOLUME_CORRUPTED
         else if unat (SizeOfImage c) < rva + fixup_size ty \<or> targets_reloc_dir c target (fixup_size ty)
         then Some RETURN_VOLUME_CORRUPTED
         else None)"

definition reloc_entry :: "u8 list \<Rightarrow> nat \<Rightarrow> nat \<Rightarrow> reloc" where
  "reloc_entry b blk i =
     (let r = get_word 2 b (blk + 8 + 2 * i)
      in (IMAGE_RELOC_TYPE r, get_word 4 b blk + ucast (IMAGE_RELOC_OFFSET r)))"

definition reloc_step :: "u64 \<Rightarrow> nat \<Rightarrow> reloc \<Rightarrow> reloc_state \<Rightarrow> reloc_state" where
  "reloc_step a i e = (\<lambda>(Img, fixups).
     let Img' = reloc_apply a e Img in (Img', map_option (\<lambda>fd. fd[i := reloc_value e Img']) fixups))"

lemma store_fixup_exact:
  "(\<And>fd. fixups = Some fd \<Longrightarrow> i < length fd) \<Longrightarrow>
     store_fixup fixups i v = Inr (map_option (\<lambda>fd. fd[i := v]) fixups)"
  by (auto simp: store_fixup_def split: option.splits)

lemma window_write:
  "off + n \<le> length b \<Longrightarrow> length (f (take n (drop off b))) = n \<Longrightarrow>
     write_bytes b off (f (take n (drop off b))) = Inr (window off n f b)"
  by (simp add: write_bytes_def window_def)

lemma get_word_0: "get_word n (take n (drop off b)) 0 = get_word n b off"
  using get_word_window [of 0 n n off b] by simp

lemma ucast_get_word_4: "ucast (get_word 4 b off :: u32) = (get_word 4 b off :: u64)"
proof -
  have "le_of_bytes (take 4 (drop off b)) < 256 ^ length (take 4 (drop off b))"
    by (rule le_of_bytes_bound)
  also have "\<dots> \<le> 256 ^ 4"
    by (rule power_increasing) simp_all
  finally have "unat (get_word 4 b off :: u32) = unat (get_word 4 b off :: u64)"
    by (simp add: get_word_def unat_of_nat)
  then show ?thesis
    by (simp add: word_unat_eq_iff unat_ucast_32_64)
qed

lemma get_word_window_view:
  "off + n \<le> length b \<Longrightarrow> length (f (take n (drop off b))) = n \<Longrightarrow>
     get_word n (window off n f b) off = get_word n (f (take n (drop off b))) 0"
  by (simp add: window_def get_word_def)

lemma ApplyHighLow_exact:
  assumes "unat (SizeOfImage c) \<le> length Img" "\<And>fd. fixups = Some fd \<Longrightarrow> i < length fd"
    and "unat r = unat (SizeOfImage c) - unat t" "unat t \<le> unat (SizeOfImage c)"
  shows "ApplyHighLow c t r a i (Img, fixups) =
    (if unat (SizeOfImage c) < unat t + 4 \<or> targets_reloc_dir c t 4 then fail RETURN_VOLUME_CORRUPTED
     else Inr (reloc_step a i (EFI_IMAGE_REL_BASED_HIGHLOW, t) (Img, fixups)))"
proof (cases "unat (SizeOfImage c) < unat t + 4 \<or> targets_reloc_dir c t 4")
  case True
  then show ?thesis
    using assms(3,4) by (auto simp: ApplyHighLow_def)
next
  case False
  let ?b = "window (unat t) 4 (highlow_act a) Img"
  define v :: u32 where "v = get_word 4 Img (unat t) + ucast a"
  have act: "highlow_act a (take 4 (drop (unat t) Img)) = le_to_bytes 4 (unat v)"
    by (simp add: highlow_act_def get_word_0 v_def)
  have len: "unat t + 4 \<le> length Img" and rem: "\<not> unat r < 4"
    using False assms(1,3) by auto
  then have "WriteUnaligned32 Img (unat t) v = Inr ?b"
    using window_write [of "unat t" 4 Img "highlow_act a"] by (simp add: WriteUnaligned32_def act)
  moreover have "ucast v = (get_word 4 ?b (unat t) :: u64)"
    using get_word_window_view [of "unat t" 4 Img "highlow_act a", where 'a = 32] len
    by (simp add: act get_word_le_to_bytes_all flip: ucast_get_word_4)
  ultimately show ?thesis
    using False len rem
    by (simp add: ApplyHighLow_def ReadUnaligned32_def read_word_def Let_def store_fixup_exact [OF assms(2)]
        reloc_step_def reloc_apply_def reloc_value_def fixup_size_def fixup_act_def flip: v_def)
qed

lemma ApplyDir64_exact:
  assumes "unat (SizeOfImage c) \<le> length Img" "\<And>fd. fixups = Some fd \<Longrightarrow> i < length fd"
    and "unat r = unat (SizeOfImage c) - unat t" "unat t \<le> unat (SizeOfImage c)"
  shows "ApplyDir64 c t r a i (Img, fixups) =
    (if unat (SizeOfImage c) < unat t + 8 \<or> targets_reloc_dir c t 8 then fail RETURN_VOLUME_CORRUPTED
     else Inr (reloc_step a i (EFI_IMAGE_REL_BASED_DIR64, t) (Img, fixups)))"
proof (cases "unat (SizeOfImage c) < unat t + 8 \<or> targets_reloc_dir c t 8")
  case True
  then show ?thesis
    using assms(3,4) by (auto simp: ApplyDir64_def)
next
  case False
  let ?b = "window (unat t) 8 (dir64_act a) Img"
  define v :: u64 where "v = get_word 8 Img (unat t) + a"
  have act: "dir64_act a (take 8 (drop (unat t) Img)) = le_to_bytes 8 (unat v)"
    by (simp add: dir64_act_def get_word_0 v_def)
  have len: "unat t + 8 \<le> length Img" and rem: "\<not> unat r < 8"
    using False assms(1,3) by auto
  then have "WriteUnaligned64 Img (unat t) v = Inr ?b"
    using window_write [of "unat t" 8 Img "dir64_act a"] by (simp add: WriteUnaligned64_def act)
  moreover have "v = get_word 8 ?b (unat t)"
    using get_word_window_view [of "unat t" 8 Img "dir64_act a", where 'a = 64] len
    by (simp add: act get_word_le_to_bytes_all)
  ultimately show ?thesis
    using False len rem
    by (simp add: ApplyDir64_def ReadUnaligned64_def read_word_def Let_def store_fixup_exact [OF assms(2)]
        reloc_step_def reloc_apply_def reloc_value_def fixup_size_def fixup_act_def flip: v_def)
qed


lemma ApplyArmMov32T_exact:
  assumes "unat (SizeOfImage c) \<le> length Img" "\<And>fd. fixups = Some fd \<Longrightarrow> i < length fd"
    and "unat r = unat (SizeOfImage c) - unat t" "unat t \<le> unat (SizeOfImage c)"
  shows "ApplyArmMov32T cfg c t r a i (Img, fixups) =
    (if PcdImageLoaderRelocTypePolicy cfg AND PCD_RELOC_TYPE_POLICY_ARM = 0 \<or> \<not> IS_ALIGNED t 2 \<or>
        unat (SizeOfImage c) < unat t + 8 \<or> targets_reloc_dir c t 8 then fail RETURN_VOLUME_CORRUPTED
     else Inr (reloc_step a i (EFI_IMAGE_REL_BASED_ARM_MOV32T, t) (Img, fixups)))" (is "_ = (if ?bad then _ else _)")
proof (cases ?bad)
  case True
  then show ?thesis
    using assms(3,4) by (auto simp: ApplyArmMov32T_def)
next
  case False
  let ?b = "window (unat t) 8 (thumb_act a) Img"
  have len: "unat t + 8 \<le> length Img" and rem: "\<not> unat r < 8"
    using False assms(1,3) by auto
  then have "PeCoffThumbMovwMovtImmediateFixup Img (unat t) a = Inr ?b" "length ?b = length Img"
    by (simp_all add: Thumb_fixup_exact thumb.length_window)
  then show ?thesis
    using False len rem
    by (cases fixups)
      (simp_all add: ApplyArmMov32T_def ReadUnaligned64_def read_word_def store_fixup_exact [OF assms(2)]
        reloc_step_def reloc_apply_def reloc_value_def fixup_size_def fixup_act_def Let_def)
qed

lemma reloc_step_absolute: "fixup_size ty = 0 \<Longrightarrow>
    reloc_step a i (ty, t) (Img, fixups) = (Img, map_option (\<lambda>fd. fd[i := 0]) fixups)"
  by (auto simp: reloc_step_def reloc_apply_def reloc_value_def window_def fixup_act_def fixup_size_def
      get_word_def split: if_splits)

lemma fixup_size_cases:
  "fixup_size 0 = 0" "fixup_size 3 = 4" "fixup_size 10 = 8" "fixup_size 7 = 8"
  by (simp_all add: fixup_size_def)

lemma fixup_size_0_iff: "fixup_size ty = 0 \<longleftrightarrow> ty \<noteq> 3 \<and> ty \<noteq> 10 \<and> ty \<noteq> 7"
  by (simp add: fixup_size_def)

lemma unat_reloc_offset: "unat (ucast (IMAGE_RELOC_OFFSET r) :: u32) = unat (IMAGE_RELOC_OFFSET r)"
  by (simp only: unat_eq_nat_uint uint_ucast_up)

lemma InternalApplyRelocation_exact:
  assumes "relocatable c Img" "blk + 8 + 2 * i + 2 \<le> length Img"
    and "\<And>fd. fixups = Some fd \<Longrightarrow> base + i < length fd"
  shows "InternalApplyRelocation cfg c blk i a base (Img, fixups) =
    (case entry_error cfg c (get_word 4 Img blk) (get_word 2 Img (blk + 8 + 2 * i)) of
       Some s \<Rightarrow> fail s
     | None \<Rightarrow> Inr (reloc_step a (base + i) (reloc_entry Img blk i) (Img, fixups)))"
proof -
  define r :: u16 where "r = get_word 2 Img (blk + 8 + 2 * i)"
  define va :: u32 where "va = get_word 4 Img blk"
  define t where "t = va + ucast (IMAGE_RELOC_OFFSET r)"
  have img: "unat (SizeOfImage c) \<le> length Img"
    using assms(1) by (simp add: relocatable_def)
  have reads: "readU16 Img (blk + 8 + 2 * i) = Inr r" "ReadUnaligned32 Img blk = Inr va"
    using assms(2) by (simp_all add: readU16_def ReadUnaligned32_def read_word_def r_def va_def)
  have entry: "reloc_entry Img blk i = (IMAGE_RELOC_TYPE r, t)"
    by (simp add: reloc_entry_def r_def va_def t_def Let_def)
  have t: "unat t = unat va + unat (IMAGE_RELOC_OFFSET r)" if "unat va + unat (IMAGE_RELOC_OFFSET r) < 2 ^ 32"
    using that by (simp add: t_def unat_add_u32 unat_reloc_offset)
  show ?thesis
  proof (cases "IMAGE_RELOC_TYPE r = 0")
    case True
    then show ?thesis
      using reloc_step_absolute [of "IMAGE_RELOC_TYPE r"]
      by (simp add: InternalApplyRelocation_def reads entry entry_error_def fixup_size_cases
          store_fixup_exact [OF assms(3)] flip: r_def va_def)
  next
    case False
    show ?thesis
    proof (cases "unat (SizeOfImage c) < unat va + unat (IMAGE_RELOC_OFFSET r)")
      case True
      then show ?thesis
        using False t
        by (auto simp: InternalApplyRelocation_def reads AddU32_eq SubU32_eq entry_error_def Let_def
            unat_reloc_offset not_le word_less_nat_alt simp flip: r_def va_def t_def)
    next
      case in_image: False
      then have small: "unat va + unat (IMAGE_RELOC_OFFSET r) < 2 ^ 32"
        using u32_less [of "SizeOfImage c"] by simp
      have rem: "unat (SizeOfImage c - t) = unat (SizeOfImage c) - unat t" "unat t \<le> unat (SizeOfImage c)"
        using in_image t [OF small] by (simp_all add: unat_sub word_le_nat_alt)
      note exact = ApplyHighLow_exact [OF img assms(3) rem] ApplyDir64_exact [OF img assms(3) rem]
        ApplyArmMov32T_exact [OF img assms(3) rem]
      consider "IMAGE_RELOC_TYPE r = 3" | "IMAGE_RELOC_TYPE r = 10" | "IMAGE_RELOC_TYPE r = 7"
        | "IMAGE_RELOC_TYPE r \<noteq> 3" "IMAGE_RELOC_TYPE r \<noteq> 10" "IMAGE_RELOC_TYPE r \<noteq> 7"
        by blast
      then show ?thesis
        using False in_image small t [OF small] rem(2)
        by cases (simp_all add: InternalApplyRelocation_def reads AddU32_eq SubU32_eq entry_error_def Let_def entry
            unat_reloc_offset exact fixup_size_cases fixup_size_0_iff flip: r_def va_def t_def)
    qed
  qed
qed

section \<open>The relocation directory\<close>

text \<open>
  Reading the directory without changing the image: the entries of one block, and those of all
  blocks together with the offset at which the last block ends.
\<close>

fun check_entries :: "loader_cfg \<Rightarrow> pe_context \<Rightarrow> u8 list \<Rightarrow> nat \<Rightarrow> nat \<Rightarrow> nat \<Rightarrow> reloc list result" where
  "check_entries cfg c b blk i 0 = Inr []"
| "check_entries cfg c b blk i (Suc n) =
     (case entry_error cfg c (get_word 4 b blk) (get_word 2 b (blk + 8 + 2 * i)) of
        Some s \<Rightarrow> fail s
      | None \<Rightarrow> bindR (check_entries cfg c b blk (Suc i) n) (\<lambda>es. Inr (reloc_entry b blk i # es)))"

fun parse_dir :: "nat \<Rightarrow> loader_cfg \<Rightarrow> pe_context \<Rightarrow> u8 list \<Rightarrow> u32 \<Rightarrow> u32 \<Rightarrow> (reloc list \<times> u32) result" where
  "parse_dir fuel cfg c b m off =
     (if \<not> off \<le> m then Inr ([], off)
      else
        case fuel of
          0 \<Rightarrow> Inl OutOfFuel
        | Suc fuel' \<Rightarrow>
            let sz = get_word 4 b (unat off + 4) in
            if unat sz < sizeof_BASE_RELOCATION_BLOCK then fail RETURN_VOLUME_CORRUPTED
            else if sz - word_of_nat sizeof_BASE_RELOCATION_BLOCK > m - off then fail RETURN_VOLUME_CORRUPTED
            else
              bindR (RelocBlockSize cfg sz) (\<lambda>bs.
              bindR (check_entries cfg c b (unat off) 0 (unat ((sz - word_of_nat sizeof_BASE_RELOCATION_BLOCK) div 2))) (\<lambda>es.
              bindR (parse_dir fuel' cfg c b m (off + bs)) (\<lambda>(es', off'). Inr (es @ es', off')))))"

declare parse_dir.simps [simp del]

text \<open>Applying a list of relocations, the values recorded from index \<open>i\<close> on.\<close>

fun reloc_run :: "u64 \<Rightarrow> nat \<Rightarrow> reloc list \<Rightarrow> reloc_state \<Rightarrow> reloc_state" where
  "reloc_run a i [] st = st"
| "reloc_run a i (e # es) st = reloc_run a (Suc i) es (reloc_step a i e st)"

fun reloc_values :: "u64 \<Rightarrow> reloc list \<Rightarrow> u8 list \<Rightarrow> u64 list" where
  "reloc_values a [] b = []"
| "reloc_values a (e # es) b = reloc_value e (reloc_apply a e b) # reloc_values a es (reloc_apply a e b)"

lemma length_reloc_values [simp]: "length (reloc_values a es b) = length es"
  by (induction es arbitrary: b) auto

lemma reloc_run_append: "reloc_run a i (es @ es') st = reloc_run a (i + length es) es' (reloc_run a i es st)"
  by (induction es arbitrary: i st) auto

lemma reloc_run_image: "fst (reloc_run a i es st) = fold (reloc_apply a) es (fst st)"
  by (induction es arbitrary: i st) (auto simp: reloc_step_def Let_def split: prod.split)

lemma reloc_run_no_fixups: "reloc_run a i es (b, None) = (fold (reloc_apply a) es b, None)"
  by (induction es arbitrary: i b) (auto simp: reloc_step_def Let_def)

lemma reloc_run_fixups:
  "i + length es \<le> length fd \<Longrightarrow>
     reloc_run a i es (b, Some fd) =
       (fold (reloc_apply a) es b, Some (take i fd @ reloc_values a es b @ drop (i + length es) fd))"
proof (induction es arbitrary: i b fd)
  case (Cons e es)
  let ?v = "reloc_value e (reloc_apply a e b)"
  have "take (Suc i) (fd[i := ?v]) = take i fd @ [?v]"
    using Cons.prems by (simp add: take_Suc_conv_app_nth)
  then show ?case
    using Cons.IH [of "Suc i" "fd[i := ?v]"] Cons.prems by (simp add: reloc_step_def Let_def)
qed simp

lemma check_entries_length: "check_entries cfg c b blk i n = Inr es \<Longrightarrow> length es = n"
  by (induction n arbitrary: i es) (auto simp: bindR_Inr_iff split: option.splits)

lemma check_entries_error: "check_entries cfg c b blk i n = Inl e \<Longrightarrow> \<exists>s. e = Status s"
  by (induction n arbitrary: i) (auto simp: bindR_def split: option.splits sum.splits)

lemma reloc_frame_get_word:
  assumes "reloc_frame c b b'" "unat (RelocDirRva c) \<le> off" "off + n \<le> reloc_end c"
  shows "get_word n b' off = get_word n b off"
proof (rule get_word_cong, rule nth_equalityI)
  show "length (take n (drop off b')) = length (take n (drop off b))"
    using assms(1) by (simp add: reloc_frame_def)
  fix i
  assume "i < length (take n (drop off b'))"
  then show "take n (drop off b') ! i = take n (drop off b) ! i"
    using assms by (auto simp: reloc_frame_def in_reloc_dir_def)
qed

lemma check_entries_frame:
  assumes "reloc_frame c b b'" "unat (RelocDirRva c) \<le> blk"
  shows "blk + 8 + 2 * (i + n) \<le> reloc_end c \<Longrightarrow>
    check_entries cfg c b' blk i n = check_entries cfg c b blk i n"
proof (induction n arbitrary: i)
  case (Suc n)
  have eq: "get_word 4 b' blk = (get_word 4 b blk :: u32)"
    "get_word 2 b' (blk + 8 + 2 * i) = (get_word 2 b (blk + 8 + 2 * i) :: u16)"
    using assms Suc.prems by (auto intro!: reloc_frame_get_word)
  then have "reloc_entry b' blk i = reloc_entry b blk i"
    by (simp add: reloc_entry_def)
  moreover have "check_entries cfg c b' blk (Suc i) n = check_entries cfg c b blk (Suc i) n"
    using Suc by simp
  ultimately show ?case
    using eq by (simp split: option.split)
qed simp

lemma ApplyRelocations_exact:
  assumes "relocatable c (fst st)" "unat (RelocDirRva c) \<le> blk" "blk + 8 + 2 * (i + n) \<le> reloc_end c"
    and "\<And>fd. snd st = Some fd \<Longrightarrow> base + i + n \<le> length fd"
  shows "ApplyRelocations cfg c blk a base i n st =
    bindR (check_entries cfg c (fst st) blk i n) (\<lambda>es. Inr (reloc_run a (base + i) es st))"
  using assms
proof (induction n arbitrary: i st)
  case (Suc n)
  obtain Img fixups where st: "st = (Img, fixups)"
    by (cases st)
  have len: "blk + 8 + 2 * i + 2 \<le> length Img"
    using Suc.prems(1,3) st by (simp add: relocatable_def)
  have fx: "\<And>fd. fixups = Some fd \<Longrightarrow> base + i < length fd"
    using Suc.prems(4) st by fastforce
  note exact = InternalApplyRelocation_exact [where cfg = cfg and c = c and fixups = fixups and a = a, OF _ len fx]
  show ?case
  proof (cases "entry_error cfg c (get_word 4 Img blk) (get_word 2 Img (blk + 8 + 2 * i))")
    case (Some s)
    then show ?thesis
      using exact Suc.prems(1) st by simp
  next
    case None
    define st' where "st' = reloc_step a (base + i) (reloc_entry Img blk i) st"
    have eq: "InternalApplyRelocation cfg c blk i a base st = Inr st'"
      using exact Suc.prems(1) st None by (simp add: st'_def)
    have post: "reloc_post c st st'"
      using InternalApplyRelocation_wp [where cfg = cfg and c = c and fixups = fixups and adj = a, OF _ len fx] eq Suc.prems(1) st by simp
    then have frame: "reloc_frame c Img (fst st')" and "relocatable c (fst st')"
      using Suc.prems(1) st by (auto simp: reloc_post_def elim: relocatable_frame)
    moreover have "base + Suc i + n \<le> length fd" if "snd st' = Some fd" for fd
      using Suc.prems(4) st post that by (cases fixups) (auto simp: reloc_post_def)
    ultimately have "ApplyRelocations cfg c blk a base (Suc i) n st' =
        bindR (check_entries cfg c (fst st') blk (Suc i) n) (\<lambda>es. Inr (reloc_run a (Suc (base + i)) es st'))"
      using Suc.IH [of st' "Suc i"] Suc.prems(2,3) by simp
    moreover have "check_entries cfg c (fst st') blk (Suc i) n = check_entries cfg c Img blk (Suc i) n"
      using check_entries_frame [OF frame Suc.prems(2)] Suc.prems(3) by simp
    ultimately show ?thesis
      using eq None st by (simp add: st'_def bindR_assoc)
  qed
qed simp

lemma block_entries_bound:
  fixes sz :: u32
  assumes "8 \<le> unat sz" "unat off + unat sz \<le> e"
  shows "unat off + 8 + 2 * (0 + unat ((sz - 8) div 2)) \<le> e"
  using assms by (simp add: unat_div unat_sub word_le_nat_alt)

lemma block_in_dir:
  fixes off m sz :: u32
  assumes "off \<le> m" "unat m + 8 = e" "\<not> unat sz < 8" "\<not> sz - 8 > m - off"
  shows "8 \<le> unat sz" "unat off + unat sz \<le> e" "unat off + 8 \<le> e"
  using assms by (simp_all add: word_less_nat_alt unat_sub word_le_nat_alt not_less)

lemma next_block:
  fixes off bs sz :: u32
  assumes "unat bs = align_up (unat sz) 4" "unat off + unat bs < 2 ^ 32" "8 \<le> unat sz"
  shows "unat (off + bs) = unat off + unat bs" "8 \<le> unat bs"
  using assms align_up_ge [of "unat sz" 4] by (auto simp: unat_add_u32 simp del: align_up_ge)

text \<open>What the checks on a block give: it ends in the directory, and so does its list of entries.\<close>

lemma block_facts:
  assumes inv: "block_inv cfg c off idx st" and m: "off \<le> m" "unat m + 8 = reloc_end c"
    and chk: "\<not> unat sz < 8" "\<not> sz - 8 > m - off" "RelocBlockSize cfg sz = Inr bs"
  defines "num \<equiv> (sz - 8) div 2"
  shows "unat bs = align_up (unat sz) 4" "unat off + unat bs < 2 ^ 32"
    "unat off + 8 + 2 * (0 + unat num) \<le> reloc_end c"
    "\<And>fd. snd st = Some fd \<Longrightarrow> unat idx + 0 + unat num \<le> length fd"
    "snd st \<noteq> None \<Longrightarrow> unat (idx + num) = unat idx + unat num"
    "\<And>st'. reloc_post c st st' \<Longrightarrow> block_inv cfg c (off + bs) (if snd st = None then idx else idx + num) st'"
    "unat (off + bs) = unat off + unat bs" "8 \<le> unat bs"
proof -
  note size = block_in_dir [OF m chk(1,2)]
  have small: "reloc_end c < 2 ^ 32"
    using inv u32_less [of "SizeOfImage c"] by (auto simp: block_inv_def relocatable_def)
  show bs: "unat bs = align_up (unat sz) 4" "unat off + unat bs < 2 ^ 32"
    using RelocBlockSize_wp [of "unat off" sz "reloc_end c" cfg] inv size chk(3) small
    by (auto simp: block_inv_def relocatable_def)
  show bound: "unat off + 8 + 2 * (0 + unat num) \<le> reloc_end c"
    unfolding num_def by (rule block_entries_bound [OF size(1,2)])
  show "unat idx + 0 + unat num \<le> length fd" if "snd st = Some fd" for fd
    using inv that bound by (auto simp: block_inv_def)
  show "unat (idx + num) = unat idx + unat num" if "snd st \<noteq> None"
    using that inv bound small by (intro unat_add_u32) (auto simp: block_inv_def)
  show "block_inv cfg c (off + bs) (if snd st = None then idx else idx + num) st'" if "reloc_post c st st'" for st'
    unfolding num_def by (rule block_inv_step [OF inv size(3,1,2) bs that])
  show "unat (off + bs) = unat off + unat bs" "8 \<le> unat bs"
    using next_block [OF bs size(1)] by simp_all
qed

lemma parse_dir_frame:
  assumes "reloc_frame c b b'" "unat m + 8 = reloc_end c"
  shows "block_inv cfg c off 0 (b, None) \<Longrightarrow> reloc_end c - unat off \<le> fuel \<Longrightarrow>
    parse_dir fuel cfg c b' m off = parse_dir fuel cfg c b m off"
proof (induction fuel arbitrary: off)
  case 0
  then have "\<not> off \<le> m"
    using assms(2) by (simp add: word_le_nat_alt)
  then show ?case
    by (simp add: parse_dir.simps)
next
  case (Suc fuel)
  show ?case
  proof (cases "off \<le> m")
    case True
    define sz :: u32 where "sz = get_word 4 b (unat off + 4)"
    have dir: "unat (RelocDirRva c) \<le> unat off"
      using Suc.prems(1) by (simp add: block_inv_def)
    have e: "unat off + 8 \<le> reloc_end c"
      using True assms(2) by (simp add: word_le_nat_alt)
    have sz': "get_word 4 b' (unat off + 4) = sz"
      unfolding sz_def using dir e by (intro reloc_frame_get_word [OF assms(1)]) simp_all
    have rest: "parse_dir fuel cfg c b' m (off + bs) = parse_dir fuel cfg c b m (off + bs)"
      if "\<not> unat sz < 8" "\<not> sz - 8 > m - off" "RelocBlockSize cfg sz = Inr bs" for bs
    proof -
      note blk = block_facts [OF Suc.prems(1) True assms(2) that]
      have "block_inv cfg c (off + bs) 0 (b, None)"
        using blk(6) [of "(b, None)"] by (simp add: reloc_post_def)
      then show ?thesis
        using Suc.IH [of "off + bs"] Suc.prems(2) blk(7,8) e by simp
    qed
    have entries: "check_entries cfg c b' (unat off) 0 (unat ((sz - 8) div 2)) =
        check_entries cfg c b (unat off) 0 (unat ((sz - 8) div 2))"
      if "\<not> unat sz < 8" "\<not> sz - 8 > m - off"
      using check_entries_frame [OF assms(1) dir] block_entries_bound block_in_dir [OF True assms(2) that] by blast
    show ?thesis
      unfolding parse_dir.simps [of "Suc fuel"] sz' sz_def [symmetric] Let_def
      using entries rest by (auto intro!: bindR_cong simp: True)
  qed (simp add: parse_dir.simps)
qed


definition blocks_result :: "u64 \<Rightarrow> u32 \<Rightarrow> reloc_state \<Rightarrow> reloc list \<times> u32 \<Rightarrow> u32 \<times> u32 \<times> reloc_state" where
  "blocks_result a idx st = (\<lambda>(es, off).
     (off, if snd st = None then idx else idx + word_of_nat (length es), reloc_run a (unat idx) es st))"

lemma blocks_result_append:
  assumes "st' = reloc_run a (unat idx) es st" "snd st \<noteq> None \<Longrightarrow> unat (idx + num) = unat idx + unat num"
    and "length es = unat num" "snd st' = None \<longleftrightarrow> snd st = None"
  shows "blocks_result a (if snd st = None then idx else idx + num) st' (es', off) = blocks_result a idx st (es @ es', off)"
  using assms
  by (cases st; cases "snd st")
    (auto simp: blocks_result_def reloc_run_append reloc_run_no_fixups add.assoc)

lemma RelocateBlocks_exact:
  assumes "unat m + 8 = reloc_end c"
  shows "block_inv cfg c off idx st \<Longrightarrow> reloc_end c - unat off \<le> fuel \<Longrightarrow>
    RelocateBlocks fuel cfg c a m off idx st =
      bindR (parse_dir fuel cfg c (fst st) m off) (\<lambda>r. Inr (blocks_result a idx st r))"
proof (induction fuel arbitrary: off idx st)
  case 0
  then have "\<not> off \<le> m"
    using assms by (simp add: word_le_nat_alt)
  then show ?case
    by (simp add: parse_dir.simps RelocateBlocks.simps blocks_result_def)
next
  case (Suc fuel)
  show ?case
  proof (cases "off \<le> m")
    case False
    then show ?thesis
      by (simp add: parse_dir.simps RelocateBlocks.simps blocks_result_def)
  next
    case True
    define sz :: u32 where "sz = get_word 4 (fst st) (unat off + 4)"
    define num where "num = (sz - 8) div 2"
    have img: "relocatable c (fst st)" "unat (RelocDirRva c) \<le> unat off"
      using Suc.prems(1) by (simp_all add: block_inv_def)
    have e: "unat off + 8 \<le> reloc_end c"
      using True assms by (simp add: word_le_nat_alt)
    have step: "bindR (ApplyRelocations cfg c (unat off) a (unat idx) 0 (unat num) st) (\<lambda>st'.
          RelocateBlocks fuel cfg c a m (off + bs) (if snd st = None then idx else idx + num) st') =
        bindR (check_entries cfg c (fst st) (unat off) 0 (unat num)) (\<lambda>es.
          bindR (parse_dir fuel cfg c (fst st) m (off + bs)) (\<lambda>(es', off').
          Inr (blocks_result a idx st (es @ es', off'))))" (is "bindR ?A _ = _")
      if chk: "\<not> unat sz < 8" "\<not> sz - 8 > m - off" "RelocBlockSize cfg sz = Inr bs" for bs
    proof -
      note blk = block_facts [OF Suc.prems(1) True assms chk, folded num_def]
      have A: "?A = bindR (check_entries cfg c (fst st) (unat off) 0 (unat num)) (\<lambda>es. Inr (reloc_run a (unat idx) es st))"
        using ApplyRelocations_exact [OF img blk(3,4)] by simp
      have A_post: "reloc_post c st st'" if "?A = Inr st'" for st'
        using wp_Inr [OF ApplyRelocations_wp that] img blk(3,4) by (auto simp: relocatable_def)
      have rest: "RelocateBlocks fuel cfg c a m (off + bs) (if snd st = None then idx else idx + num) st' =
          bindR (parse_dir fuel cfg c (fst st) m (off + bs)) (\<lambda>(es', off'). Inr (blocks_result a idx st (es @ es', off')))"
        if es: "check_entries cfg c (fst st) (unat off) 0 (unat num) = Inr es" "st' = reloc_run a (unat idx) es st" for es st'
      proof -
        have post: "reloc_post c st st'"
          using A_post A es by simp
        then have frame: "reloc_frame c (fst st) (fst st')" and none: "snd st' = None \<longleftrightarrow> snd st = None"
          by (auto simp: reloc_post_def)
        note inv = blk(6) [OF post]
        have fuel: "reloc_end c - unat (off + bs) \<le> fuel"
          using blk(7,8) Suc.prems(2) e by simp
        have inv0: "block_inv cfg c (off + bs) 0 (fst st, None)"
          using inv img by (auto simp: block_inv_def)
        show ?thesis
          unfolding Suc.IH [OF inv fuel] parse_dir_frame [OF frame assms inv0 fuel]
          using blocks_result_append [OF es(2) blk(5) check_entries_length [OF es(1)] none]
          by (intro bindR_cong refl) (auto split: prod.split)
      qed
      show ?thesis
        unfolding A bindR_assoc using rest by (intro bindR_cong) auto
    qed
    have read: "ReadUnaligned32 (fst st) (unat off + 4) = Inr sz"
      using img e by (simp add: ReadUnaligned32_def read_word_def sz_def relocatable_def)
    show ?thesis
      unfolding RelocateBlocks.simps [of "Suc fuel"] parse_dir.simps [of "Suc fuel"] sz_def [symmetric] Let_def
      using step by (auto simp: True read SubU32_eq bindR_assoc split_def num_def intro!: bindR_cong)
  qed
qed

section \<open>Relocations with disjoint targets\<close>

abbreviation target_size :: "reloc \<Rightarrow> nat" where "target_size e \<equiv> fixup_size (fst e)"
abbreviation target_start :: "reloc \<Rightarrow> nat" where "target_start e \<equiv> unat (snd e)"

definition target_inside :: "nat \<Rightarrow> reloc \<Rightarrow> bool" where
  "target_inside n e \<longleftrightarrow> target_size e = 0 \<or> target_start e + target_size e \<le> n"

definition apart :: "reloc \<Rightarrow> reloc \<Rightarrow> bool" where
  "apart e e' \<longleftrightarrow> target_size e = 0 \<or> target_size e' = 0 \<or>
     target_start e + target_size e \<le> target_start e' \<or> target_start e' + target_size e' \<le> target_start e"

definition disjoint_targets :: "reloc list \<Rightarrow> bool" where
  "disjoint_targets es \<longleftrightarrow> sorted_wrt apart es"

lemma apart_sym: "apart e e' \<longleftrightarrow> apart e' e"
  by (auto simp: apart_def)

lemma reloc_apply_id: "target_size e = 0 \<Longrightarrow> reloc_apply a e b = b"
  by (cases e) (auto simp: reloc_apply_def window_def fixup_act_def fixup_size_def split: if_splits)

lemma reloc_apply_window:
  "reloc_apply a e = window (target_start e) (target_size e) (fixup_act (fst e) a)"
  by (simp add: reloc_apply_def split_def)

lemma length_reloc_apply [simp]: "target_inside (length b) e \<Longrightarrow> length (reloc_apply a e b) = length b"
  by (cases "target_size e = 0", simp add: reloc_apply_id, simp add: reloc_apply_window target_inside_def fixup.length_window)

lemma reloc_apply_changes_only:
  "target_inside (length b) e \<Longrightarrow> changes_only (target_start e) (target_size e) b (reloc_apply a e b)"
  by (cases "target_size e = 0", simp add: reloc_apply_id, simp add: reloc_apply_window target_inside_def fixup.window_changes_only)

lemma length_fold_reloc_apply [simp]:
  "list_all (target_inside (length b)) es \<Longrightarrow> length (fold (reloc_apply a) es b) = length b"
  by (induction es arbitrary: b) auto

lemma reloc_apply_commute:
  assumes "target_inside (length b) e" "target_inside (length b) e'" "apart e e'"
  shows "reloc_apply a e (reloc_apply a' e' b) = reloc_apply a' e' (reloc_apply a e b)"
proof (cases "target_size e = 0 \<or> target_size e' = 0")
  case True
  then show ?thesis
    by (auto simp: reloc_apply_id)
next
  case False
  then show ?thesis
    using assms unfolding reloc_apply_window
    by (intro fixup_pair.window_commute) (auto simp: target_inside_def apart_def)
qed

lemma reloc_apply_add:
  "target_inside (length b) e \<Longrightarrow> reloc_apply a' e (reloc_apply a e b) = reloc_apply (a + a') e b"
  by (cases "target_size e = 0", simp add: reloc_apply_id, simp add: reloc_apply_window target_inside_def fixup.window_add)

lemma reloc_apply_fold_commute:
  "target_inside (length b) e \<Longrightarrow> list_all (target_inside (length b)) es \<Longrightarrow> list_all (apart e) es \<Longrightarrow>
     reloc_apply a e (fold (reloc_apply a') es b) = fold (reloc_apply a') es (reloc_apply a e b)"
proof (induction es arbitrary: b)
  case (Cons x es)
  then show ?case
    using Cons.IH [of "reloc_apply a' x b"] reloc_apply_commute [of b e x a a'] by simp
qed simp

text \<open>Relocating by \<open>a\<close> and then by \<open>a'\<close> is relocating by their sum.\<close>

lemma fold_reloc_apply_add:
  "list_all (target_inside (length b)) es \<Longrightarrow> disjoint_targets es \<Longrightarrow>
     fold (reloc_apply a') es (fold (reloc_apply a) es b) = fold (reloc_apply (a + a')) es b"
proof (induction es arbitrary: b)
  case (Cons e es)
  have ap: "list_all (apart e) es" "disjoint_targets es"
    using Cons.prems(2) by (simp_all add: disjoint_targets_def list_all_iff)
  have len: "length (reloc_apply a e b) = length b"
    using Cons.prems(1) by simp
  have "reloc_apply a' e (fold (reloc_apply a) es (reloc_apply a e b)) =
      fold (reloc_apply a) es (reloc_apply a' e (reloc_apply a e b))"
    using Cons.prems(1) ap(1) len by (intro reloc_apply_fold_commute) simp_all
  then show ?case
    using Cons.IH [of "reloc_apply (a + a') e b"] Cons.prems(1) ap(2) by (simp add: reloc_apply_add)
qed simp

lemma reloc_value_frame:
  assumes "target_inside (length b) e'" "apart e e'"
  shows "reloc_value e (reloc_apply a e' b) = reloc_value e b"
proof (cases "target_size e = 0 \<or> target_size e' = 0")
  case True
  then show ?thesis
    by (auto simp: reloc_value_def split_def reloc_apply_id get_word_def)
next
  case False
  then show ?thesis
    unfolding reloc_value_def split_def using assms
    by (intro changes_only_get_word [OF reloc_apply_changes_only]) (auto simp: apart_def)
qed

lemma reloc_value_fold_frame:
  "list_all (target_inside (length b)) es \<Longrightarrow> list_all (apart e) es \<Longrightarrow>
     reloc_value e (fold (reloc_apply a) es b) = reloc_value e b"
  by (induction es arbitrary: b) (auto simp: reloc_value_frame)

text \<open>The recorded values are still in place when all relocations have been applied.\<close>

lemma reloc_values_final:
  "list_all (target_inside (length b)) es \<Longrightarrow> disjoint_targets es \<Longrightarrow>
     reloc_values a es b = map (\<lambda>e. reloc_value e (fold (reloc_apply a) es b)) es"
proof (induction es arbitrary: b)
  case (Cons e es)
  have ap: "list_all (apart e) es" "disjoint_targets es"
    using Cons.prems(2) by (simp_all add: disjoint_targets_def list_all_iff)
  then show ?case
    using Cons.IH [of "reloc_apply a e b"] Cons.prems(1) by (simp add: reloc_value_fold_frame)
qed simp


section \<open>Relocating an image, exactly\<close>

definition reloc_ok :: "loader_cfg \<Rightarrow> pe_context \<Rightarrow> reloc \<Rightarrow> bool" where
  "reloc_ok cfg c e \<longleftrightarrow> fst e = EFI_IMAGE_REL_BASED_ABSOLUTE \<or>
     IMAGE_RELOC_TYPE_SUPPORTED cfg (fst e) \<and> target_start e + target_size e \<le> unat (SizeOfImage c) \<and>
     \<not> targets_reloc_dir c (snd e) (target_size e)"

lemma reloc_ok_inside: "reloc_ok cfg c e \<Longrightarrow> unat (SizeOfImage c) \<le> n \<Longrightarrow> target_inside n e"
  by (auto simp: reloc_ok_def target_inside_def fixup_size_cases)

lemma entry_ok:
  assumes "entry_error cfg c (get_word 4 b blk) (get_word 2 b (blk + 8 + 2 * i)) = None"
  shows "reloc_ok cfg c (reloc_entry b blk i)"
    "fst (reloc_entry b blk i) \<noteq> EFI_IMAGE_REL_BASED_ABSOLUTE \<Longrightarrow>
      target_start (reloc_entry b blk i) = unat (get_word 4 b blk :: u32) +
        unat (ucast (IMAGE_RELOC_OFFSET (get_word 2 b (blk + 8 + 2 * i))) :: u32)"
proof -
  define r :: u16 where "r = get_word 2 b (blk + 8 + 2 * i)"
  define va :: u32 where "va = get_word 4 b blk"
  have entry: "reloc_entry b blk i = (IMAGE_RELOC_TYPE r, va + ucast (IMAGE_RELOC_OFFSET r))"
    by (simp add: reloc_entry_def r_def va_def Let_def)
  have sum: "unat (va + ucast (IMAGE_RELOC_OFFSET r)) = unat va + unat (IMAGE_RELOC_OFFSET r)"
    if "unat va + unat (IMAGE_RELOC_OFFSET r) \<le> unat (SizeOfImage c)"
    using that u32_less [of "SizeOfImage c"] by (simp add: unat_add_u32 unat_reloc_offset)
  show "reloc_ok cfg c (reloc_entry b blk i)"
    using assms sum
    by (auto simp: entry reloc_ok_def entry_error_def Let_def IMAGE_RELOC_TYPE_SUPPORTED_def fixup_size_0_iff
        fixup_size_cases not_less split: if_splits simp flip: r_def va_def)
  show "target_start (reloc_entry b blk i) = unat (get_word 4 b blk :: u32) +
      unat (ucast (IMAGE_RELOC_OFFSET (get_word 2 b (blk + 8 + 2 * i))) :: u32)"
    if "fst (reloc_entry b blk i) \<noteq> EFI_IMAGE_REL_BASED_ABSOLUTE"
    using assms sum that
    by (auto simp: entry entry_error_def Let_def unat_reloc_offset not_less split: if_splits simp flip: r_def va_def)
qed

lemma check_entries_ok: "check_entries cfg c b blk i n = Inr es \<Longrightarrow> list_all (reloc_ok cfg c) es"
  by (induction n arbitrary: i es) (auto simp: bindR_Inr_iff entry_ok split: option.splits)

lemma parse_dir_ok: "parse_dir fuel cfg c b m off = Inr (es, off') \<Longrightarrow> list_all (reloc_ok cfg c) es"
proof (induction fuel arbitrary: off es)
  case 0
  then show ?case
    by (subst (asm) parse_dir.simps) (auto split: if_splits)
next
  case (Suc fuel)
  from Suc.prems show ?case
    by (subst (asm) parse_dir.simps)
      (auto simp: Let_def bindR_Inr_iff check_entries_ok dest: Suc.IH split: if_splits)
qed

lemma parse_dir_length:
  assumes "unat m + 8 = reloc_end c"
  shows "block_inv cfg c off 0 (b, None) \<Longrightarrow> parse_dir fuel cfg c b m off = Inr (es, off') \<Longrightarrow>
    2 * length es \<le> reloc_end c - unat off"
proof (induction fuel arbitrary: off es)
  case 0
  then show ?case
    by (subst (asm) parse_dir.simps) (auto split: if_splits)
next
  case (Suc fuel)
  show ?case
  proof (cases "off \<le> m")
    case False
    then show ?thesis
      using Suc.prems(2) by (subst (asm) parse_dir.simps) simp
  next
    case True
    obtain sz bs es1 es2 where blk: "\<not> unat sz < 8" "\<not> sz - 8 > m - off" "RelocBlockSize cfg sz = Inr bs"
        "check_entries cfg c b (unat off) 0 (unat ((sz - 8) div 2)) = Inr es1"
        "parse_dir fuel cfg c b m (off + bs) = Inr (es2, off')" "es = es1 @ es2"
      using Suc.prems(2) True by (subst (asm) parse_dir.simps) (auto simp: Let_def bindR_Inr_iff split: if_splits)
    note facts = block_facts [OF Suc.prems(1) True assms blk(1-3)]
    have "block_inv cfg c (off + bs) 0 (b, None)"
      using facts(6) [of "(b, None)"] by (simp add: reloc_post_def)
    from Suc.IH [OF this blk(5)] have "2 * length es2 \<le> reloc_end c - unat (off + bs)" .
    moreover have "8 + 2 * unat ((sz - 8) div 2) \<le> unat sz"
      using blk(1) by (simp add: unat_div unat_sub word_le_nat_alt)
    moreover have "unat sz \<le> unat bs"
      by (simp add: facts(1))
    ultimately show ?thesis
      using facts(3,7) check_entries_length [OF blk(4)] blk(6) by simp
  qed
qed

text \<open>The relocations of an image: all entries of the directory, or the status of its rejection.\<close>

definition reloc_list :: "loader_cfg \<Rightarrow> pe_context \<Rightarrow> reloc list result" where
  "reloc_list cfg c =
     bindR (TopOfRelocDir cfg (RelocDirRva c + RelocDirSize c)) (\<lambda>t.
     bindR (parse_dir (unat (RelocDirSize c)) cfg c (ImageBytes c)
              (RelocDirRva c + RelocDirSize c - word_of_nat sizeof_BASE_RELOCATION_BLOCK) (RelocDirRva c))
       (\<lambda>(es, off). if off \<noteq> t then fail RETURN_VOLUME_CORRUPTED else Inr es))"

text \<open>What the caller guarantees for the runtime context.\<close>

definition wf_runtime_buffer ::
  "pe_context \<Rightarrow> PE_COFF_LOADER_RUNTIME_CONTEXT option \<Rightarrow> u32 \<Rightarrow> bool" where
  "wf_runtime_buffer c rt sz \<longleftrightarrow>
     (case rt of
        None \<Rightarrow> sz = 0
      | Some r \<Rightarrow> 8 + unat (RelocDirSize c) * 4 \<le> unat sz \<and> length (FixupData r) = (unat sz - 8) div 8)"

definition wf_reloc_image :: "pe_context \<Rightarrow> bool" where
  "wf_reloc_image c \<longleftrightarrow> RelocDirSize c = 0 \<or> relocatable c (ImageBytes c)"

definition recorded :: "u64 \<Rightarrow> reloc list \<Rightarrow> pe_context \<Rightarrow> PE_COFF_LOADER_RUNTIME_CONTEXT \<Rightarrow> PE_COFF_LOADER_RUNTIME_CONTEXT" where
  "recorded a es c rt = rt\<lparr>RtRelocDirRva := RelocDirRva c, RtRelocDirSize := RelocDirSize c,
     FixupData := reloc_values a es (ImageBytes c) @ replicate (length (FixupData rt) - length es) 0\<rparr>"

lemma TopOfRelocDir_wp:
  "wp (TopOfRelocDir cfg e) (\<lambda>t. unat t = (if relaxed_blocks cfg then align_up (unat e) 4 else unat e) \<and>
     (relaxed_blocks cfg \<longrightarrow> align_up (unat e) 4 < 2 ^ 32))"
  using align_up_le_size [of 4 e]
  by (auto simp: TopOfRelocDir_def relaxed_blocks_def AlignUpU32_eq unat_of_nat)

lemma reloc_start_inv:
  assumes "relocatable c (ImageBytes c)" "TopOfRelocDir cfg (RelocDirRva c + RelocDirSize c) = Inr t"
    and "wf_runtime_buffer c rt sz"
  shows "block_inv cfg c (RelocDirRva c) 0 (ImageBytes c, map_option FixupData rt)"
    "unat (RelocDirRva c + RelocDirSize c - 8) + 8 = reloc_end c"
proof -
  note e = reloc_dir_end [OF assms(1)]
  have "relaxed_blocks cfg \<longrightarrow> align_up (reloc_end c) 4 < 2 ^ 32"
    using wp_Inr [OF TopOfRelocDir_wp assms(2)] e by simp
  then show "block_inv cfg c (RelocDirRva c) 0 (ImageBytes c, map_option FixupData rt)"
    using assms(1,3) by (auto simp: block_inv_def relocatable_def wf_runtime_buffer_def split: option.splits)
  show "unat (RelocDirRva c + RelocDirSize c - 8) + 8 = reloc_end c"
    using assms(1) e by (simp add: relocatable_def unat_sub word_le_nat_alt)
qed

text \<open>The end of the relocation: the remaining part of the record is zeroed.\<close>

lemma record_finish:
  assumes "wf_runtime_buffer c rt sz" "2 * length es \<le> unat (RelocDirSize c)"
  defines "rt0 \<equiv> map_option (\<lambda>r. r\<lparr>RtRelocDirRva := RelocDirRva c, RtRelocDirSize := RelocDirSize c\<rparr>) rt"
  shows "(case blocks_result a 0 (ImageBytes c, map_option FixupData rt) (es, off) of
      (off, idx, Img, Fixups) \<Rightarrow> if off \<noteq> t then fail RETURN_VOLUME_CORRUPTED
        else bindR (zero_fixups Fixups (unat idx)) (\<lambda>Fixups.
          Inr (set_ImageBytes c Img, map_option (\<lambda>rt. rt\<lparr>FixupData := the Fixups\<rparr>) rt0))) =
    (if off \<noteq> t then fail RETURN_VOLUME_CORRUPTED
     else Inr (set_ImageBytes c (fold (reloc_apply a) es (ImageBytes c)), map_option (recorded a es c) rt))"
proof (cases rt)
  case None
  then show ?thesis
    by (simp add: blocks_result_def reloc_run_no_fixups zero_fixups_def rt0_def)
next
  case (Some r)
  have "length es \<le> length (FixupData r)"
    using assms(1,2) Some by (simp add: wf_runtime_buffer_def less_eq_div_iff_mult_less_eq) arith
  moreover have "unat (word_of_nat (length es) :: u32) = length es"
    using assms(2) u32_less [of "RelocDirSize c"] by (simp add: unat_of_nat)
  ultimately show ?thesis
    using Some by (simp add: blocks_result_def reloc_run_fixups zero_fixups_def rt0_def recorded_def)
qed

lemma relocate_blocks_finish:
  assumes rel: "relocatable c (ImageBytes c)" and rt: "wf_runtime_buffer c rt sz"
    and t: "TopOfRelocDir cfg (RelocDirRva c + RelocDirSize c) = Inr t"
  defines "m \<equiv> RelocDirRva c + RelocDirSize c - 8"
    and "rt0 \<equiv> map_option (\<lambda>r. r\<lparr>RtRelocDirRva := RelocDirRva c, RtRelocDirSize := RelocDirSize c\<rparr>) rt"
  shows "bindR (RelocateBlocks (unat (RelocDirSize c)) cfg c a m (RelocDirRva c) 0 (ImageBytes c, map_option FixupData rt0))
      (\<lambda>(off, idx, Img, Fixups). if off \<noteq> t then fail RETURN_VOLUME_CORRUPTED
        else bindR (zero_fixups Fixups (unat idx)) (\<lambda>Fixups.
          Inr (set_ImageBytes c Img, map_option (\<lambda>rt. rt\<lparr>FixupData := the Fixups\<rparr>) rt0))) =
    bindR (parse_dir (unat (RelocDirSize c)) cfg c (ImageBytes c) m (RelocDirRva c))
      (\<lambda>(es, off). if off \<noteq> t then fail RETURN_VOLUME_CORRUPTED
        else Inr (set_ImageBytes c (fold (reloc_apply a) es (ImageBytes c)), map_option (recorded a es c) rt))"
    (is "bindR _ ?fin = bindR ?parse ?done")
proof -
  note inv = reloc_start_inv [OF rel t rt, folded m_def]
  have inv0: "block_inv cfg c (RelocDirRva c) 0 (ImageBytes c, None)"
    using reloc_start_inv(1) [OF rel t, of None 0] by (simp add: wf_runtime_buffer_def)
  have len: "2 * length es \<le> unat (RelocDirSize c)" if "?parse = Inr (es, off)" for es off
    using parse_dir_length [OF _ inv0 that] inv(2) by simp
  have fx: "map_option FixupData rt0 = map_option FixupData rt"
    by (simp add: rt0_def option.map_comp comp_def)
  have "RelocateBlocks (unat (RelocDirSize c)) cfg c a m (RelocDirRva c) 0 (ImageBytes c, map_option FixupData rt) =
      bindR ?parse (\<lambda>r. Inr (blocks_result a 0 (ImageBytes c, map_option FixupData rt) r))"
    using RelocateBlocks_exact [of m c cfg "RelocDirRva c" 0 "(ImageBytes c, map_option FixupData rt)"] inv by simp
  moreover have "?fin (blocks_result a 0 (ImageBytes c, map_option FixupData rt) x) = ?done x" if "?parse = Inr x" for x
    using record_finish [where es = "fst x" and off = "snd x" and a = a and t = t, OF rt, folded rt0_def]
      len [of "fst x" "snd x"] that by (cases x) (simp only: prod.sel prod.case)
  ultimately show ?thesis
    unfolding fx by (simp only: bindR_assoc bindR_simps) (rule bindR_cong [OF refl])
qed

lemma PeCoffRelocateImage_exact:
  assumes "wf_reloc_image c" "\<not> RelocsStripped c \<or> base = ImageBase c" "wf_runtime_buffer c rt sz"
  defines "a \<equiv> base - ImageBase c"
  shows "PeCoffRelocateImage cfg c base rt sz =
    (if RelocDirSize c = 0 \<or> rt = None \<and> a = 0
     then Inr (c, map_option (\<lambda>r. r\<lparr>RtRelocDirRva := RelocDirRva c, RtRelocDirSize := RelocDirSize c\<rparr>) rt)
     else bindR (reloc_list cfg c) (\<lambda>es.
       Inr (set_ImageBytes c (fold (reloc_apply a) es (ImageBytes c)), map_option (recorded a es c) rt)))"
    (is "_ = (if ?skip then Inr (c, ?rt0) else bindR _ ?done)")
proof (cases ?skip)
  case True
  then show ?thesis
    using assms(2,3)
    by (auto simp: PeCoffRelocateImage_def wf_runtime_buffer_def Let_def a_def split: option.splits)
next
  case False
  have rel: "relocatable c (ImageBytes c)"
    using False assms(1) by (simp add: wf_reloc_image_def)
  let ?m = "RelocDirRva c + RelocDirSize c - 8"
  let ?st = "(ImageBytes c, map_option FixupData ?rt0)"
  have asserts: "rt \<noteq> None \<or> sz = 0" "rt = None \<or> 8 + unat (RelocDirSize c) * 4 \<le> unat sz"
    using assms(3) by (auto simp: wf_runtime_buffer_def split: option.splits)
  have "rt \<noteq> None \<or> base - ImageBase c \<noteq> 0" "RelocDirSize c \<noteq> 0"
    using False by (auto simp: a_def)
  then have "PeCoffRelocateImage cfg c base rt sz =
      bindR (TopOfRelocDir cfg (RelocDirRva c + RelocDirSize c)) (\<lambda>t.
      bindR (RelocateBlocks (unat (RelocDirSize c)) cfg c a ?m (RelocDirRva c) 0 ?st)
        (\<lambda>(off, idx, Img, Fixups). if off \<noteq> t then fail RETURN_VOLUME_CORRUPTED
          else bindR (zero_fixups Fixups (unat idx)) (\<lambda>Fixups.
            Inr (set_ImageBytes c Img, map_option (\<lambda>rt. rt\<lparr>FixupData := the Fixups\<rparr>) ?rt0))))"
    using assms(2) asserts by (auto simp: PeCoffRelocateImage_def a_def Let_def)
  also have "\<dots> = bindR (reloc_list cfg c) ?done"
    unfolding reloc_list_def bindR_assoc
    by (rule bindR_cong [OF refl]) (auto simp: relocate_blocks_finish [OF rel assms(3)] intro!: bindR_cong)
  finally show ?thesis
    by (simp only: if_not_P [OF False])
qed

text \<open>The image keeps its directory, and its length.\<close>

lemma reloc_list_ok:
  assumes "reloc_list cfg c = Inr es"
  shows "list_all (reloc_ok cfg c) es"
  using assms by (auto simp: reloc_list_def bindR_Inr_iff dest: parse_dir_ok split: if_splits)

lemma reloc_list_safe:
  assumes "relocatable c (ImageBytes c)"
  shows "safe (reloc_list cfg c)"
proof -
  let ?m = "RelocDirRva c + RelocDirSize c - 8"
  let ?st = "(ImageBytes c, None :: u64 list option)"
  have "wp (parse_dir (unat (RelocDirSize c)) cfg c (ImageBytes c) ?m (RelocDirRva c)) (\<lambda>_. True)"
    if t: "TopOfRelocDir cfg (RelocDirRva c + RelocDirSize c) = Inr t" for t
  proof -
    have inv: "block_inv cfg c (RelocDirRva c) 0 ?st" "unat ?m + 8 = reloc_end c"
      using reloc_start_inv [OF assms t, of None 0] by (simp_all add: wf_runtime_buffer_def)
    have fuel: "reloc_end c - unat (RelocDirRva c) \<le> unat (RelocDirSize c)"
      by simp
    show ?thesis
      using RelocateBlocks_wp [OF inv(1) fuel inv(2), of 0] RelocateBlocks_exact [OF inv(2,1) fuel, of 0]
      by (auto elim: wp_mono)
  qed
  then show ?thesis
    unfolding reloc_list_def by (auto intro!: wp_mono [OF TopOfRelocDir_wp] elim!: wp_mono)
qed

lemma reloc_apply_frame:
  assumes "relocatable c b" "reloc_ok cfg c e"
  shows "reloc_frame c b (reloc_apply a e b)"
proof (cases "fst e = EFI_IMAGE_REL_BASED_ABSOLUTE")
  case True
  then show ?thesis
    by (simp add: reloc_apply_id fixup_size_cases)
next
  case False
  have "target_inside (length b) e"
    using assms by (auto simp: relocatable_def intro: reloc_ok_inside)
  then show ?thesis
    using assms False target_frame [OF assms(1) _ _ reloc_apply_changes_only]
    by (auto simp: reloc_ok_def)
qed

lemma fold_reloc_apply_frame:
  "relocatable c b \<Longrightarrow> list_all (reloc_ok cfg c) es \<Longrightarrow> reloc_frame c b (fold (reloc_apply a) es b)"
proof (induction es arbitrary: b)
  case (Cons e es)
  have "reloc_frame c b (reloc_apply a e b)"
    using Cons.prems by (auto intro: reloc_apply_frame)
  with Cons show ?case
    by (auto intro: reloc_frame_trans relocatable_frame)
qed simp

lemma PeCoffRelocateImage_wp:
  assumes "wf_reloc_image c" "\<not> RelocsStripped c \<or> base = ImageBase c" "wf_runtime_buffer c rt sz"
  shows "wp (PeCoffRelocateImage cfg c base rt sz) (\<lambda>(c', rt').
    c' = c \<or> (\<exists>b. c' = set_ImageBytes c b \<and> reloc_frame c (ImageBytes c) b))"
proof (cases "RelocDirSize c = 0")
  case True
  then show ?thesis
    by (simp add: PeCoffRelocateImage_exact [OF assms])
next
  case False
  then have rel: "relocatable c (ImageBytes c)"
    using assms(1) by (simp add: wf_reloc_image_def)
  show ?thesis
    unfolding PeCoffRelocateImage_exact [OF assms] wp_if wp_bind
    by (auto intro!: wp_mono [OF reloc_list_safe [OF rel]] fold_reloc_apply_frame [OF rel]
        dest: reloc_list_ok)
qed

section \<open>Relocation at runtime, exactly\<close>

lemma InternalApplyRelocationRuntime_exact:
  assumes "reloc_ok cfg c (ty, t)" "ty \<noteq> EFI_IMAGE_REL_BASED_ABSOLUTE" "unat (SizeOfImage c) \<le> length b"
  shows "InternalApplyRelocationRuntime cfg b (unat t) ty a (reloc_value (ty, t) b) = Inr (reloc_apply a (ty, t) b)"
proof -
  have len: "unat t + fixup_size ty \<le> length b" and sup: "IMAGE_RELOC_TYPE_SUPPORTED cfg ty"
    using assms by (auto simp: reloc_ok_def)
  then consider "ty = 3" | "ty = 10" | "ty = 7" "PcdImageLoaderRelocTypePolicy cfg AND PCD_RELOC_TYPE_POLICY_ARM \<noteq> 0"
    using assms(2) by (auto simp: IMAGE_RELOC_TYPE_SUPPORTED_def)
  then show ?thesis
  proof cases
    case 1
    then show ?thesis
      using len sup window_write [of "unat t" 4 b "highlow_act a"]
      by (simp add: InternalApplyRelocationRuntime_def fixup_size_cases ReadUnaligned32_def read_word_def
          reloc_value_def ucast_get_word_4 WriteUnaligned32_def reloc_apply_def fixup_act_def
          highlow_act_def [of a "take 4 (drop (unat t) b)"] get_word_0)
  next
    case 2
    then show ?thesis
      using len sup window_write [of "unat t" 8 b "dir64_act a"]
      by (simp add: InternalApplyRelocationRuntime_def fixup_size_cases ReadUnaligned64_def read_word_def
          reloc_value_def WriteUnaligned64_def reloc_apply_def fixup_act_def
          dir64_act_def [of a "take 8 (drop (unat t) b)"] get_word_0)
  next
    case 3
    then show ?thesis
      using len sup
      by (simp add: InternalApplyRelocationRuntime_def fixup_size_cases ReadUnaligned64_def read_word_def
          reloc_value_def Thumb_fixup_exact reloc_apply_def fixup_act_def)
  qed
qed

text \<open>The record matches the image: each value is found when its relocation is reached.\<close>

fun fixups_match :: "u64 \<Rightarrow> reloc list \<Rightarrow> u64 list \<Rightarrow> u8 list \<Rightarrow> bool" where
  "fixups_match a [] vs b \<longleftrightarrow> True"
| "fixups_match a (e # es) vs b \<longleftrightarrow>
     (\<exists>v vs'. vs = v # vs' \<and> (target_size e \<noteq> 0 \<longrightarrow> v = reloc_value e b) \<and> fixups_match a es vs' (reloc_apply a e b))"

lemma fixups_match_append:
  "fixups_match a (es @ es') vs b \<longleftrightarrow>
     fixups_match a es vs b \<and> fixups_match a es' (drop (length es) vs) (fold (reloc_apply a) es b)"
  by (induction es arbitrary: vs b) auto

lemma fixups_match_length: "fixups_match a es vs b \<Longrightarrow> length es \<le> length vs"
  by (induction es arbitrary: vs b) auto

lemma fixups_match_recorded:
  assumes "list_all (target_inside (length b)) es" "disjoint_targets es"
    and "vs = map (\<lambda>e. reloc_value e b) es @ rest"
  shows "fixups_match a es vs b"
  using assms
proof (induction es arbitrary: b vs)
  case (Cons e es)
  have ap: "list_all (apart e) es" "disjoint_targets es"
    using Cons.prems(2) by (simp_all add: disjoint_targets_def list_all_iff)
  have "reloc_value e' (reloc_apply a e b) = reloc_value e' b" if "e' \<in> set es" for e'
    using that ap(1) Cons.prems(1) by (intro reloc_value_frame) (auto simp: list_all_iff apart_sym)
  then have "map (\<lambda>e'. reloc_value e' b) es = map (\<lambda>e'. reloc_value e' (reloc_apply a e b)) es"
    by simp
  then show ?case
    using Cons.IH [of "reloc_apply a e b"] Cons.prems ap(2) by (simp del: map_eq_conv)
qed simp


lemma RuntimeFixupStatus_Inr [simp]: "RuntimeFixupStatus cfg (Inr b) = Inr b"
  by (simp add: RuntimeFixupStatus_def)

lemma RuntimeApplyRelocations_exact:
  assumes "relocatable c b" "unat (RelocDirRva c) \<le> blk" "blk + 8 + 2 * (i + n) \<le> reloc_end c"
    and "check_entries cfg c b blk i n = Inr es" "fixups_match a es (drop (unat k) Fixups) b"
    and "unat k + n < 2 ^ 32"
  shows "RuntimeApplyRelocations cfg blk a Fixups i n (k, b) = Inr (k + word_of_nat n, fold (reloc_apply a) es b)"
  using assms
proof (induction n arbitrary: i k b es)
  case (Suc n)
  define r :: u16 where "r = get_word 2 b (blk + 8 + 2 * i)"
  define va :: u32 where "va = get_word 4 b blk"
  obtain es' where es: "es = reloc_entry b blk i # es'" and rest: "check_entries cfg c b blk (Suc i) n = Inr es'"
    and ok: "entry_error cfg c va r = None"
    using Suc.prems(4) by (auto simp: bindR_Inr_iff r_def va_def split: option.splits)
  let ?t = "va + ucast (IMAGE_RELOC_OFFSET r) :: u32"
  have entry: "reloc_entry b blk i = (IMAGE_RELOC_TYPE r, ?t)"
    by (simp add: reloc_entry_def r_def va_def Let_def)
  note good = entry_ok [OF ok [unfolded r_def va_def], folded r_def va_def, unfolded entry]
  have frame: "reloc_frame c b (reloc_apply a (IMAGE_RELOC_TYPE r, ?t) b)"
    by (rule reloc_apply_frame [OF Suc.prems(1) good(1)])
  have k: "unat (k + 1) = Suc (unat k)"
    using Suc.prems(6) by (simp add: unat_add_u32)
  have k_len: "unat k < length Fixups"
    using fixups_match_length [OF Suc.prems(5)] es by simp
  have match: "target_size (IMAGE_RELOC_TYPE r, ?t) \<noteq> 0 \<longrightarrow> Fixups ! unat k = reloc_value (IMAGE_RELOC_TYPE r, ?t) b"
    "fixups_match a es' (drop (Suc (unat k)) Fixups) (reloc_apply a (IMAGE_RELOC_TYPE r, ?t) b)"
    using Suc.prems(5) k_len unfolding es entry by (auto simp flip: Cons_nth_drop_Suc)
  have "RuntimeApplyRelocations cfg blk a Fixups (Suc i) n (k + 1, reloc_apply a (IMAGE_RELOC_TYPE r, ?t) b) =
      Inr (k + 1 + word_of_nat n, fold (reloc_apply a) es' (reloc_apply a (IMAGE_RELOC_TYPE r, ?t) b))"
    using Suc.prems rest match(2) k frame check_entries_frame [OF frame Suc.prems(2), of "Suc i" n cfg]
    by (intro Suc.IH) (auto intro: relocatable_frame)
  moreover have "readU16 b (blk + 8 + 2 * i) = Inr r" "ReadUnaligned32 b blk = Inr va"
    using Suc.prems(1,3)
    by (simp_all add: relocatable_def readU16_def ReadUnaligned32_def read_word_def r_def va_def)
  ultimately show ?case
    using es entry k_len match(1) good InternalApplyRelocationRuntime_exact [OF good(1)] Suc.prems(1)
    by (cases "IMAGE_RELOC_TYPE r = 0")
      (auto simp: reloc_apply_id fixup_size_cases Let_def word_le_nat_alt relocatable_def add.assoc reloc_ok_def
        IMAGE_RELOC_TYPE_SUPPORTED_def fixup_size_0_iff)
qed simp

lemma RelocBlockSize_runtime:
  "RelocBlockSize cfg sz = Inr bs \<Longrightarrow>
     (if PcdImageLoaderAlignmentPolicy cfg AND PCD_ALIGNMENT_POLICY_RELOCATION_BLOCK_SIZES = 0
      then assertR (IS_ALIGNED sz 4) (Inr sz) else Inr (ALIGN_VALUE sz 4)) = Inr bs"
  by (auto simp: RelocBlockSize_def split: if_splits)

lemma RuntimeRelocateBlocks_exact:
  assumes m: "unat m + 8 = reloc_end c" and e: "unat e = reloc_end c" and top: "reloc_end c \<le> unat off'"
  shows "block_inv cfg c off 0 (b, None) \<Longrightarrow> parse_dir fuel cfg c b m off = Inr (es, off') \<Longrightarrow>
    reloc_end c - unat off \<le> fuel \<Longrightarrow> fixups_match a es (drop (unat k) Fixups) b \<Longrightarrow> 2 * unat k + unat (RelocDirRva c) \<le> unat off \<Longrightarrow>
    RuntimeRelocateBlocks fuel cfg a Fixups e off (k, b) = Inr (off', fold (reloc_apply a) es b)"
proof (induction fuel arbitrary: off k b es)
  case 0
  note prems = this
  have "off = off'" "es = []"
    using prems(2) by (subst (asm) parse_dir.simps, simp split: if_splits)+
  then show ?case
    using top e by (simp add: RuntimeRelocateBlocks.simps word_less_nat_alt)
next
  case (Suc fuel)
  show ?case
  proof (cases "off \<le> m")
    case False
    then have "off = off'" "es = []"
      using Suc.prems(2) by (subst (asm) parse_dir.simps, simp)+
    then show ?thesis
      using top e by (simp add: RuntimeRelocateBlocks.simps word_less_nat_alt)
  next
    case True
    define sz :: u32 where "sz = get_word 4 b (unat off + 4)"
    obtain bs es1 es2 where blk: "\<not> unat sz < 8" "\<not> sz - 8 > m - off" "RelocBlockSize cfg sz = Inr bs"
        "check_entries cfg c b (unat off) 0 (unat ((sz - 8) div 2)) = Inr es1"
        "parse_dir fuel cfg c b m (off + bs) = Inr (es2, off')" "es = es1 @ es2"
      using Suc.prems(2) True
      by (subst (asm) parse_dir.simps) (auto simp: Let_def bindR_Inr_iff sz_def split: if_splits)
    define num where "num = (sz - 8) div 2"
    define b1 where "b1 = fold (reloc_apply a) es1 b"
    note facts = block_facts [OF Suc.prems(1) True m blk(1-3), folded num_def]
    have img: "relocatable c b" "unat (RelocDirRva c) \<le> unat off" "4 dvd unat off"
      using Suc.prems(1) by (simp_all add: block_inv_def)
    have len1: "length es1 = unat num"
      using check_entries_length [OF blk(4)] by (simp add: num_def)
    have end32: "reloc_end c < 2 ^ 32"
      using e u32_less [of e] by simp
    have frame: "reloc_frame c b b1"
      unfolding b1_def by (rule fold_reloc_apply_frame [OF img(1) check_entries_ok [OF blk(4)]])
    have match: "fixups_match a es1 (drop (unat k) Fixups) b" "fixups_match a es2 (drop (unat k + unat num) Fixups) b1"
      using Suc.prems(4) by (simp_all add: blk(6) fixups_match_append b1_def len1 add.commute)
    have small: "unat k + unat num < 2 ^ 32"
      using Suc.prems(5) facts(3) end32 by simp
    then have k: "unat (k + num) = unat k + unat num"
      by (simp add: unat_add_u32)
    have inv1: "block_inv cfg c (off + bs) 0 (b1, None)"
      using facts(6) [of "(b1, None)"] frame by (simp add: reloc_post_def)
    have inv: "block_inv cfg c (off + bs) 0 (b, None)"
      using facts(6) [of "(b, None)"] by (simp add: reloc_post_def)
    have fuel: "reloc_end c - unat (off + bs) \<le> fuel"
      using Suc.prems(3) facts(7,8) True m by (simp add: word_le_nat_alt)
    have "2 * unat num + 8 \<le> unat sz" "unat sz \<le> unat bs"
      using blk(1) by (simp_all add: num_def unat_div unat_sub word_le_nat_alt facts(1))
    then have rest: "RuntimeRelocateBlocks fuel cfg a Fixups e (off + bs) (k + num, b1) = Inr (off', fold (reloc_apply a) es2 b1)"
      using Suc.prems(5) match(2) fuel inv1 k facts(7) blk(5) parse_dir_frame [OF frame m inv fuel]
      by (intro Suc.IH) simp_all
    have off4: "unat off + 8 \<le> reloc_end c" "off < e"
      using True m e by (simp_all add: word_le_nat_alt word_less_nat_alt)
    have reads: "ReadUnaligned32 b (unat off + 4) = Inr sz" "ReadUnaligned32 b1 (unat off + 4) = Inr sz"
      using img off4 frame reloc_frame_get_word [OF frame, of "unat off + 4" 4]
      by (auto simp: ReadUnaligned32_def read_word_def sz_def relocatable_def reloc_frame_def)
    have "RuntimeApplyRelocations cfg (unat off) a Fixups 0 (unat num) (k, b) = Inr (k + num, b1)"
      using RuntimeApplyRelocations_exact [OF img(1,2) facts(3) blk(4) [folded num_def] match(1) small] by (simp add: b1_def)
    then show ?thesis
      unfolding RuntimeRelocateBlocks.simps [of "Suc fuel"]
      using off4(2) reads rest RelocBlockSize_runtime [OF blk(3)] blk(1) img(3)
      by (simp add: IS_ALIGNED_numeral num_def [symmetric] Let_def b1_def [symmetric] blk(6))
  qed
qed

lemma reloc_apply_0: "target_inside (length b) e \<Longrightarrow> reloc_apply 0 e b = b"
  by (cases "target_size e = 0", simp add: reloc_apply_id, simp add: reloc_apply_window target_inside_def fixup.window_zero)

lemma fold_reloc_apply_0: "list_all (target_inside (length b)) es \<Longrightarrow> fold (reloc_apply 0) es b = b"
  by (induction es) (simp_all add: reloc_apply_0)

lemma reloc_list_inside:
  assumes "relocatable c b" "reloc_list cfg c = Inr es"
  shows "list_all (target_inside (length b)) es"
  using assms reloc_list_ok [OF assms(2)]
  by (auto simp: list_all_iff relocatable_def intro: reloc_ok_inside)

text \<open>The bytes of the image after a relocation by \<open>a\<close>, whether or not the loop is entered.\<close>

lemma relocated_bytes:
  assumes "wf_reloc_image c" "\<not> RelocsStripped c \<or> base = ImageBase c" "wf_runtime_buffer c rt sz"
    and "ImageBuffer c \<noteq> NotLoaded" "RelocDirSize c \<noteq> 0" "reloc_list cfg c = Inr es"
  shows "\<exists>c'. PeCoffRelocateImage cfg c base rt sz = Inr (c', map_option (recorded (base - ImageBase c) es c) rt) \<and>
    ImageBytes c' = fold (reloc_apply (base - ImageBase c)) es (ImageBytes c)"
proof -
  have "relocatable c (ImageBytes c)"
    using assms(1,5) by (simp add: wf_reloc_image_def)
  from reloc_list_inside [OF this assms(6)]
  have "fold (reloc_apply 0) es (ImageBytes c) = ImageBytes c"
    by (rule fold_reloc_apply_0)
  then show ?thesis
    using assms(4-6) PeCoffRelocateImage_exact [OF assms(1-3), of cfg]
    by (cases "rt = None \<and> base - ImageBase c = 0") (auto simp: image_bytes_after_set)
qed

lemma RuntimeRelocate_recorded:
  fixes a :: u64
  assumes rel: "relocatable c b0" "b0 = ImageBytes c" and es: "reloc_list cfg c = Inr es" "disjoint_targets es"
    and "base1 \<noteq> 0" "base2 \<noteq> 0"
  defines "b1 \<equiv> fold (reloc_apply a) es b0"
  shows "PeCoffRuntimeRelocateImage cfg \<lparr>Address = base1, Bytes = b1\<rparr> base2 (recorded a es c rt) =
    Inr \<lparr>Address = base1, Bytes = fold (reloc_apply (base2 - base1)) es b1\<rparr>"
proof -
  let ?e = "RelocDirRva c + RelocDirSize c" and ?fx = "FixupData (recorded a es c rt)"
  let ?m = "?e - 8"
  have inside: "list_all (target_inside (length b0)) es"
    by (rule reloc_list_inside [OF rel(1) es(1)])
  have len: "length b1 = length b0"
    using inside by (simp add: b1_def)
  obtain t where t: "TopOfRelocDir cfg ?e = Inr t"
    and parse: "parse_dir (unat (RelocDirSize c)) cfg c b0 ?m (RelocDirRva c) = Inr (es, t)"
    using es(1) rel(2) by (auto simp: reloc_list_def bindR_Inr_iff split: if_splits)
  have inv: "block_inv cfg c (RelocDirRva c) 0 (b0, None)" and m: "unat ?m + 8 = reloc_end c"
    using reloc_start_inv [of c cfg t None 0] rel t by (simp_all add: wf_runtime_buffer_def)
  have e: "unat ?e = reloc_end c"
    by (rule reloc_dir_end [OF rel(1)])
  have top: "unat t = (if relaxed_blocks cfg then align_up (unat ?e) 4 else unat ?e)"
    "relaxed_blocks cfg \<longrightarrow> align_up (unat ?e) 4 < 2 ^ 32"
    using wp_Inr [OF TopOfRelocDir_wp t] by simp_all
  have frame: "reloc_frame c b0 b1"
    unfolding b1_def by (rule fold_reloc_apply_frame [OF rel(1) reloc_list_ok [OF es(1)]])
  have parse1: "parse_dir (unat (RelocDirSize c)) cfg c b1 ?m (RelocDirRva c) = Inr (es, t)"
    using parse_dir_frame [OF frame m inv] parse by simp
  have inv1: "block_inv cfg c (RelocDirRva c) 0 (b1, None)"
    using inv relocatable_frame [OF rel(1) frame] by (simp add: block_inv_def)
  have "reloc_values a es b0 = map (\<lambda>e. reloc_value e b1) es"
    unfolding b1_def by (rule reloc_values_final [OF inside es(2)])
  then have match: "fixups_match (base2 - base1) es (drop (unat (0 :: u32)) ?fx) b1"
    using inside es(2) len rel(2) by (intro fixups_match_recorded) (simp_all add: recorded_def)
  have "reloc_end c \<le> unat t"
    using top(1) e by simp
  from RuntimeRelocateBlocks_exact [OF m e this inv1 parse1 _ match]
  have "RuntimeRelocateBlocks (unat (RelocDirSize c)) cfg (base2 - base1) ?fx ?e (RelocDirRva c) (0, b1) =
      Inr (t, fold (reloc_apply (base2 - base1)) es b1)"
    by simp
  moreover have "t = (if PcdImageLoaderAlignmentPolicy cfg AND PCD_ALIGNMENT_POLICY_RELOCATION_BLOCK_SIZES \<noteq> 0
      then ALIGN_VALUE ?e 4 else ?e)"
    using top by (auto simp: relaxed_blocks_def word_unat_eq_iff unat_ALIGN_VALUE)
  moreover have "RelocDirSize c \<noteq> 0"
    using rel(1) by (auto simp: relocatable_def)
  ultimately show ?thesis
    using assms(5,6) inside len
    by (auto simp: PeCoffRuntimeRelocateImage_def recorded_def Let_def fold_reloc_apply_0)
qed

lemma runtime_relocation_equiv:
  assumes "wf_reloc_image c" "\<not> RelocsStripped c" "wf_runtime_buffer c (Some rt) sz" "ImageBuffer c \<noteq> NotLoaded"
    and "base1 \<noteq> 0" "base2 \<noteq> 0" "\<And>es. reloc_list cfg c = Inr es \<Longrightarrow> disjoint_targets es"
    and "PeCoffRelocateImage cfg c base1 (Some rt) sz = Inr (c1, Some rt1)"
  shows "\<exists>c2. PeCoffRelocateImage cfg c base2 None 0 = Inr (c2, None) \<and>
    PeCoffRuntimeRelocateImage cfg \<lparr>Address = base1, Bytes = ImageBytes c1\<rparr> base2 rt1 =
      Inr \<lparr>Address = base1, Bytes = ImageBytes c2\<rparr>"
proof (cases "RelocDirSize c = 0")
  case True
  have none: "wf_runtime_buffer c None 0"
    by (simp add: wf_runtime_buffer_def)
  show ?thesis
    using True assms(5,6,8) PeCoffRelocateImage_exact [where base = base1 and cfg = cfg, OF assms(1) disjI1 [OF assms(2)] assms(3)]
      PeCoffRelocateImage_exact [where base = base2 and cfg = cfg, OF assms(1) disjI1 [OF assms(2)] none]
    by (auto simp: PeCoffRuntimeRelocateImage_def)
next
  case False
  then have rel: "relocatable c (ImageBytes c)"
    using assms(1) by (simp add: wf_reloc_image_def)
  obtain es where es: "reloc_list cfg c = Inr es"
    using assms(8) False PeCoffRelocateImage_exact [where base = base1 and cfg = cfg, OF assms(1) disjI1 [OF assms(2)] assms(3)]
    by (auto simp: bindR_Inr_iff)
  let ?a1 = "base1 - ImageBase c" and ?a2 = "base2 - base1" and ?b = "ImageBytes c"
  have c1: "rt1 = recorded ?a1 es c rt" "ImageBytes c1 = fold (reloc_apply ?a1) es ?b"
    using relocated_bytes [where base = base1, OF assms(1) disjI1 [OF assms(2)] assms(3,4) False es] assms(8) by auto
  obtain c2 where c2: "PeCoffRelocateImage cfg c base2 None 0 = Inr (c2, None)"
      "ImageBytes c2 = fold (reloc_apply (base2 - ImageBase c)) es ?b"
    using relocated_bytes [where base = base2 and rt = None and sz = 0, OF assms(1) disjI1 [OF assms(2)] _ assms(4) False es]
    by (auto simp: wf_runtime_buffer_def)
  have "fold (reloc_apply ?a2) es (fold (reloc_apply ?a1) es ?b) = ImageBytes c2"
    using fold_reloc_apply_add [OF reloc_list_inside [OF rel es] assms(7) [OF es], of ?a2 ?a1] c2(2) by simp
  then show ?thesis
    using RuntimeRelocate_recorded [OF rel refl es assms(7) [OF es] assms(5,6), of ?a1 rt] c1 c2(1) by auto
qed

end
