(* ===== verification/PeSample.thy ===== *)
theory PeSample
  imports PeRelocSpec
begin

text \<open>
  A small PE32 image: two sections, a relocation directory with one HIGHLOW fix-up, and no DOS
  stub. The lemmas compute what the loader makes of it; they are the concrete inputs at which the
  properties of the loader are instantiated.
\<close>


definition sample_headers :: "u8 list" where
  "sample_headers =
   [0x50, 0x45, 0, 0, 0x4C, 1, 2, 0, 0, 0, 0, 0, 0, 0, 0, 0,
    0, 0, 0, 0, 0x90, 0, 2, 1, 0x0B, 1, 0, 0, 0, 0, 0, 0,
    0, 0, 0, 0, 0, 0, 0, 0, 0xF8, 0, 0, 0, 0, 0, 0, 0,
    0, 0, 0, 0, 0, 0, 0x40, 0, 8, 0, 0, 0, 0, 0, 0, 0,
    0, 0, 0, 0, 0, 0, 0, 0, 0, 0, 0, 0, 0, 0, 0, 0,
    0, 0, 0, 0, 0xF8, 0, 0, 0, 0, 0, 0, 0, 0x0B, 0, 0, 0,
    0, 0, 0, 0, 0, 0, 0, 0, 0, 0, 0, 0, 0, 0, 0, 0,
    0, 0, 0, 0, 6, 0, 0, 0, 0, 0, 0, 0, 0, 0, 0, 0,
    0, 0, 0, 0, 0, 0, 0, 0, 0, 0, 0, 0, 0, 0, 0, 0,
    0, 0, 0, 0, 0, 0, 0, 0, 0, 0, 0, 0, 0, 0, 0, 0,
    8, 1, 0, 0, 0x0C, 0, 0, 0]"

definition sample_sections :: "u8 list" where
  "sample_sections =
   [0x2E, 0x74, 0x65, 0x78, 0x74, 0, 0, 0, 0x10, 0, 0, 0, 0xF8, 0, 0, 0,
    0x10, 0, 0, 0, 0xF8, 0, 0, 0, 0, 0, 0, 0, 0, 0, 0, 0,
    0, 0, 0, 0, 0x20, 0, 0, 0x60, 0x2E, 0x72, 0x65, 0x6C, 0x6F, 0x63, 0, 0,
    0x10, 0, 0, 0, 8, 1, 0, 0, 0x10, 0, 0, 0, 8, 1, 0, 0,
    0, 0, 0, 0, 0, 0, 0, 0, 0, 0, 0, 0, 0x40, 0, 0, 0x42]"

definition sample_text :: "u8 list" where
  "sample_text = [0x90, 0x90, 0x90, 0xC3, 0xF8, 0, 0x40, 0, 0xCC, 0xCC, 0xCC, 0xCC, 0xCC, 0xCC, 0xCC, 0xCC]"

definition sample_reloc :: "u8 list" where
  "sample_reloc = [0xF8, 0, 0, 0, 0x0C, 0, 0, 0, 4, 0x30, 0, 0, 0, 0, 0, 0]"

definition sample_file :: buffer where
  "sample_file = \<lparr>Address = 0x400000, Bytes = sample_headers @ sample_sections @ sample_text @ sample_reloc\<rparr>"

definition sample_cfg :: loader_cfg where
  "sample_cfg =
     \<lparr> PcdImageLoaderAlignmentPolicy = 0xFFFFFFFF, PcdImageLoaderWXorX = True, PcdImageLoaderRemoveXForWX = False,
       PcdImageLoaderAllowMisalignedOffset = False, PcdImageLoaderLoadHeader = True, PcdImageLoaderRelocTypePolicy = 0xFFFFFFFF,
       PcdImageLoaderRtRelocAllowTargetMismatch = False, PcdImageLoaderHashProhibitOverlap = True,
       PcdImageLoaderDebugSupport = True, PcdImageProtectionPolicy = 0,
       DEFAULT_PAGE_ALLOCATION_GRANULARITY = 0x1000, RUNTIME_PAGE_ALLOCATION_GRANULARITY = 0x1000 \<rparr>"

definition sample_context :: pe_context where
  "sample_context =
     \<lparr> ImageBase = 0x400000, FileBuffer = sample_file, FileSize = 280, ImageBuffer = NotLoaded,
       SectionsOffset = 168, NumberOfSections = 2, SizeOfImage = 280, SectionAlignment = 8,
       ExeHdrOffset = 0, SizeOfHeaders = 248, AddressOfEntryPoint = 248, RelocsStripped = False,
       ImageType = PeCoffLoaderTypePe32, Subsystem = 11, Machine = 0x14C, RelocDirRva = 264,
       RelocDirSize = 12, SecDirOffset = 0, SecDirSize = 0 \<rparr>"


lemmas sample_defs = sample_file_def sample_headers_def sample_sections_def sample_text_def sample_reloc_def

lemma sample_length: "length (Bytes sample_file) = 280"
  by (simp add: sample_defs)

lemma sample_address: "Address sample_file = 0x400000"
  by (simp add: sample_file_def)

lemma sample_header_fields:
  "get_word 2 (Bytes sample_file) 0 = (0x4550 :: u16)"
  "get_word 4 (Bytes sample_file) 0 = (0x4550 :: u32)"
  "get_word 2 (Bytes sample_file) 24 = (0x10b :: u16)"
  "get_word 2 (Bytes sample_file) 92 = (0xb :: u16)"
  "get_word 4 (Bytes sample_file) 84 = (0xf8 :: u32)"
  "get_word 4 (Bytes sample_file) 52 = (0x400000 :: u32)"
  "get_word 4 (Bytes sample_file) 40 = (0xf8 :: u32)"
  "get_word 4 (Bytes sample_file) 56 = (8 :: u32)"
  "get_word 4 (Bytes sample_file) 116 = (6 :: u32)"
  "get_word 2 (Bytes sample_file) 20 = (0x90 :: u16)"
  "get_word 2 (Bytes sample_file) 6 = (2 :: u16)"
  "get_word 2 (Bytes sample_file) 4 = (0x14c :: u16)"
  "get_word 2 (Bytes sample_file) 22 = (0x102 :: u16)"
  "get_word 4 (Bytes sample_file) 160 = (0x108 :: u32)"
  "get_word 4 (Bytes sample_file) 164 = (0xc :: u32)"
  "get_word 4 (Bytes sample_file) 152 = (0 :: u32)"
  "get_word 4 (Bytes sample_file) 156 = (0 :: u32)"
  by (simp_all add: sample_defs get_word_def)

lemma sample_section_fields:
  "get_word 4 (Bytes sample_file) 176 = (0x10 :: u32)"
  "get_word 4 (Bytes sample_file) 180 = (0xf8 :: u32)"
  "get_word 4 (Bytes sample_file) 184 = (0x10 :: u32)"
  "get_word 4 (Bytes sample_file) 188 = (0xf8 :: u32)"
  "get_word 4 (Bytes sample_file) 192 = (0 :: u32)"
  "get_word 4 (Bytes sample_file) 196 = (0 :: u32)"
  "get_word 2 (Bytes sample_file) 200 = (0 :: u16)"
  "get_word 2 (Bytes sample_file) 202 = (0 :: u16)"
  "get_word 4 (Bytes sample_file) 204 = (0x60000020 :: u32)"
  "get_word 4 (Bytes sample_file) 216 = (0x10 :: u32)"
  "get_word 4 (Bytes sample_file) 220 = (0x108 :: u32)"
  "get_word 4 (Bytes sample_file) 224 = (0x10 :: u32)"
  "get_word 4 (Bytes sample_file) 228 = (0x108 :: u32)"
  "get_word 4 (Bytes sample_file) 232 = (0 :: u32)"
  "get_word 4 (Bytes sample_file) 236 = (0 :: u32)"
  "get_word 2 (Bytes sample_file) 240 = (0 :: u16)"
  "get_word 2 (Bytes sample_file) 242 = (0 :: u16)"
  "get_word 4 (Bytes sample_file) 244 = (0x42000040 :: u32)"
  by (simp_all add: sample_defs get_word_def)

definition text_header :: EFI_IMAGE_SECTION_HEADER where
  "text_header = \<lparr>SectionName = [0x2E, 0x74, 0x65, 0x78, 0x74, 0, 0, 0], VirtualSize = 16, VirtualAddress = 248,
     SizeOfRawData = 16, PointerToRawData = 248, PointerToRelocations = 0, PointerToLinenumbers = 0,
     NumberOfRelocations = 0, NumberOfLinenumbers = 0, Characteristics = 0x60000020\<rparr>"

definition reloc_header :: EFI_IMAGE_SECTION_HEADER where
  "reloc_header = \<lparr>SectionName = [0x2E, 0x72, 0x65, 0x6C, 0x6F, 0x63, 0, 0], VirtualSize = 16, VirtualAddress = 264,
     SizeOfRawData = 16, PointerToRawData = 264, PointerToRelocations = 0, PointerToLinenumbers = 0,
     NumberOfRelocations = 0, NumberOfLinenumbers = 0, Characteristics = 0x42000040\<rparr>"

lemma sample_section_names:
  "take 8 (drop 168 (Bytes sample_file)) = [0x2E, 0x74, 0x65, 0x78, 0x74, 0, 0, 0]"
  "take 8 (drop 208 (Bytes sample_file)) = [0x2E, 0x72, 0x65, 0x6C, 0x6F, 0x63, 0, 0]"
  by (simp_all add: sample_defs)

lemma sample_table: "section_table (Bytes sample_file) 168 2 = [text_header, reloc_header]"
  by (simp add: section_table_def section_header_def upt_rec [of 0 2] upt_rec [of "Suc 0" 2] sample_section_fields sample_section_names
      text_header_def reloc_header_def)

lemmas sample_init_rules =
  PeCoffInitializeContext_def InternalInitializePe_def InitializePeOptionalHeader_def
  ImageProtectionPolicy_def InitializePeHeaderSizes_def InitializePeRelocDir_def InitializePeSecurityDir_def
  InternalVerifySections_def PeCoffGetSectionTable_def read_sections_def VerifySectionAddress_def
  VerifySectionRawData_def NextSectionRva_def DetermineSizeOfImage_def InternalValidateRelocInfo_def
  readU16_def ReadUnaligned32_def read_word_def sample_length sample_address sample_header_fields sample_table
  text_header_def reloc_header_def sample_cfg_def sample_context_def zero_context_def Let_def IS_ALIGNED_def
  ALIGN_VALUE_SUBTRAHEND_def IS_POW2_def BaseOverflowAddU32_def BaseOverflowAlignUpU32_def

lemma sample_init: "PeCoffInitializeContext sample_cfg sample_file 280 UefiImageOriginFv = Inr sample_context"
  by (simp add: sample_init_rules)

text \<open>The image loaded at address 0x500000.\<close>

definition sample_destination :: buffer where
  "sample_destination = \<lparr>Address = 0x500000, Bytes = replicate 280 0xAA\<rparr>"

definition sample_loaded :: pe_context where
  "sample_loaded = sample_context\<lparr>ImageBuffer := Destination \<lparr>Address = 0x500000, Bytes = Bytes sample_file\<rparr>\<rparr>"

lemma sample_Sections: "Sections sample_context = [text_header, reloc_header]"
  by (simp add: Sections_def sample_context_def sample_table)

text \<open>
  A second file, whose last section is empty and starts behind the end of the file; its relocation
  directory lies in between.
\<close>

definition sparse_headers :: "u8 list" where
  "sparse_headers =
   [0x50, 0x45, 0, 0, 0x4C, 1, 2, 0, 0, 0, 0, 0, 0, 0, 0, 0,
    0, 0, 0, 0, 0x90, 0, 2, 1, 0x0B, 1, 0, 0, 0, 0, 0, 0,
    0, 0, 0, 0, 0, 0, 0, 0, 0xF8, 0, 0, 0, 0, 0, 0, 0,
    0, 0, 0, 0, 0, 0, 0x40, 0, 8, 0, 0, 0, 0, 0, 0, 0,
    0, 0, 0, 0, 0, 0, 0, 0, 0, 0, 0, 0, 0, 0, 0, 0,
    0, 0, 0, 0, 0xF8, 0, 0, 0, 0, 0, 0, 0, 0x0B, 0, 0, 0,
    0, 0, 0, 0, 0, 0, 0, 0, 0, 0, 0, 0, 0, 0, 0, 0,
    0, 0, 0, 0, 6, 0, 0, 0, 0, 0, 0, 0, 0, 0, 0, 0,
    0, 0, 0, 0, 0, 0, 0, 0, 0, 0, 0, 0, 0, 0, 0, 0,
    0, 0, 0, 0, 0, 0, 0, 0, 0, 0, 0, 0, 0, 0, 0, 0,
    0, 2, 0, 0, 0x0C, 0, 0, 0]"

definition sparse_sections :: "u8 list" where
  "sparse_sections =
   [0x2E, 0x74, 0x65, 0x78, 0x74, 0, 0, 0, 0x10, 0, 0, 0, 0xF8, 0, 0, 0,
    0x10, 0, 0, 0, 0xF8, 0, 0, 0, 0, 0, 0, 0, 0, 0, 0, 0,
    0, 0, 0, 0, 0x20, 0, 0, 0x60, 0x2E, 0x62, 0x73, 0x73, 0, 0, 0, 0,
    0, 0, 0, 0, 0, 0x10, 0, 0, 0, 0, 0, 0, 0, 0x10, 0, 0,
    0, 0, 0, 0, 0, 0, 0, 0, 0, 0, 0, 0, 0x80, 0, 0, 0xC0]"

definition sparse_file :: buffer where
  "sparse_file = \<lparr>Address = 0x10000, Bytes = sparse_headers @ sparse_sections @ sample_text\<rparr>"

definition bss_header :: EFI_IMAGE_SECTION_HEADER where
  "bss_header = \<lparr>SectionName = [0x2E, 0x62, 0x73, 0x73, 0, 0, 0, 0], VirtualSize = 0, VirtualAddress = 0x1000,
     SizeOfRawData = 0, PointerToRawData = 0x1000, PointerToRelocations = 0, PointerToLinenumbers = 0,
     NumberOfRelocations = 0, NumberOfLinenumbers = 0, Characteristics = 0xC0000080\<rparr>"

definition sparse_context :: pe_context where
  "sparse_context = sample_context\<lparr>FileBuffer := sparse_file, FileSize := 264, SizeOfImage := 0x1000, RelocDirRva := 512\<rparr>"

lemmas sparse_defs = sparse_file_def sparse_headers_def sparse_sections_def sample_text_def

lemma sparse_length: "length (Bytes sparse_file) = 264"
  by (simp add: sparse_defs)

lemma sparse_address: "Address sparse_file = 0x10000"
  by (simp add: sparse_file_def)

lemma sparse_header_fields:
  "get_word 2 (Bytes sparse_file) 0 = (0x4550 :: u16)"
  "get_word 4 (Bytes sparse_file) 0 = (0x4550 :: u32)"
  "get_word 2 (Bytes sparse_file) 24 = (0x10b :: u16)"
  "get_word 2 (Bytes sparse_file) 92 = (0xb :: u16)"
  "get_word 4 (Bytes sparse_file) 84 = (0xf8 :: u32)"
  "get_word 4 (Bytes sparse_file) 52 = (0x400000 :: u32)"
  "get_word 4 (Bytes sparse_file) 40 = (0xf8 :: u32)"
  "get_word 4 (Bytes sparse_file) 56 = (8 :: u32)"
  "get_word 4 (Bytes sparse_file) 116 = (6 :: u32)"
  "get_word 2 (Bytes sparse_file) 20 = (0x90 :: u16)"
  "get_word 2 (Bytes sparse_file) 6 = (2 :: u16)"
  "get_word 2 (Bytes sparse_file) 4 = (0x14c :: u16)"
  "get_word 2 (Bytes sparse_file) 22 = (0x102 :: u16)"
  "get_word 4 (Bytes sparse_file) 160 = (0x200 :: u32)"
  "get_word 4 (Bytes sparse_file) 164 = (0xc :: u32)"
  "get_word 4 (Bytes sparse_file) 152 = (0 :: u32)"
  "get_word 4 (Bytes sparse_file) 156 = (0 :: u32)"
  by (simp_all add: sparse_defs get_word_def)

lemma sparse_section_fields:
  "get_word 4 (Bytes sparse_file) 176 = (0x10 :: u32)"
  "get_word 4 (Bytes sparse_file) 180 = (0xf8 :: u32)"
  "get_word 4 (Bytes sparse_file) 184 = (0x10 :: u32)"
  "get_word 4 (Bytes sparse_file) 188 = (0xf8 :: u32)"
  "get_word 4 (Bytes sparse_file) 192 = (0 :: u32)"
  "get_word 4 (Bytes sparse_file) 196 = (0 :: u32)"
  "get_word 2 (Bytes sparse_file) 200 = (0 :: u16)"
  "get_word 2 (Bytes sparse_file) 202 = (0 :: u16)"
  "get_word 4 (Bytes sparse_file) 204 = (0x60000020 :: u32)"
  "get_word 4 (Bytes sparse_file) 216 = (0 :: u32)"
  "get_word 4 (Bytes sparse_file) 220 = (0x1000 :: u32)"
  "get_word 4 (Bytes sparse_file) 224 = (0 :: u32)"
  "get_word 4 (Bytes sparse_file) 228 = (0x1000 :: u32)"
  "get_word 4 (Bytes sparse_file) 232 = (0 :: u32)"
  "get_word 4 (Bytes sparse_file) 236 = (0 :: u32)"
  "get_word 2 (Bytes sparse_file) 240 = (0 :: u16)"
  "get_word 2 (Bytes sparse_file) 242 = (0 :: u16)"
  "get_word 4 (Bytes sparse_file) 244 = (0xc0000080 :: u32)"
  by (simp_all add: sparse_defs get_word_def)

lemma sparse_section_names:
  "take 8 (drop 168 (Bytes sparse_file)) = [0x2E, 0x74, 0x65, 0x78, 0x74, 0, 0, 0]"
  "take 8 (drop 208 (Bytes sparse_file)) = [0x2E, 0x62, 0x73, 0x73, 0, 0, 0, 0]"
  by (simp_all add: sparse_defs)

lemma sparse_table: "section_table (Bytes sparse_file) 168 2 = [text_header, bss_header]"
  by (simp add: section_table_def section_header_def upt_rec [of 0 2] upt_rec [of "Suc 0" 2] sparse_section_fields
      sparse_section_names text_header_def bss_header_def)

lemma sparse_init: "PeCoffInitializeContext sample_cfg sparse_file 264 UefiImageOriginFv = Inr sparse_context"
  by (simp add: sample_init_rules sparse_length sparse_address sparse_header_fields sparse_table bss_header_def
      sparse_context_def)

text \<open>
  A third file: the headers end at 248 and the sections are aligned to 16 bytes, so that there is
  padding in front of the first section. It is accepted where sections must be adjacent.
\<close>

definition padded_headers :: "u8 list" where
  "padded_headers =
   [0x50, 0x45, 0, 0, 0x4C, 1, 2, 0, 0, 0, 0, 0, 0, 0, 0, 0,
    0, 0, 0, 0, 0x90, 0, 2, 1, 0x0B, 1, 0, 0, 0, 0, 0, 0,
    0, 0, 0, 0, 0, 0, 0, 0, 0, 1, 0, 0, 0, 0, 0, 0,
    0, 0, 0, 0, 0, 0, 0x40, 0, 0x10, 0, 0, 0, 0, 0, 0, 0,
    0, 0, 0, 0, 0, 0, 0, 0, 0, 0, 0, 0, 0, 0, 0, 0,
    0, 0, 0, 0, 0xF8, 0, 0, 0, 0, 0, 0, 0, 0x0B, 0, 0, 0,
    0, 0, 0, 0, 0, 0, 0, 0, 0, 0, 0, 0, 0, 0, 0, 0,
    0, 0, 0, 0, 6, 0, 0, 0, 0, 0, 0, 0, 0, 0, 0, 0,
    0, 0, 0, 0, 0, 0, 0, 0, 0, 0, 0, 0, 0, 0, 0, 0,
    0, 0, 0, 0, 0, 0, 0, 0, 0, 0, 0, 0, 0, 0, 0, 0,
    0x10, 1, 0, 0, 0x0C, 0, 0, 0]"

definition padded_sections :: "u8 list" where
  "padded_sections =
   [0x2E, 0x74, 0x65, 0x78, 0x74, 0, 0, 0, 0x10, 0, 0, 0, 0, 1, 0, 0,
    0x10, 0, 0, 0, 0xF8, 0, 0, 0, 0, 0, 0, 0, 0, 0, 0, 0,
    0, 0, 0, 0, 0x20, 0, 0, 0x60, 0x2E, 0x72, 0x65, 0x6C, 0x6F, 0x63, 0, 0,
    0x10, 0, 0, 0, 0x10, 1, 0, 0, 0x10, 0, 0, 0, 8, 1, 0, 0,
    0, 0, 0, 0, 0, 0, 0, 0, 0, 0, 0, 0, 0x40, 0, 0, 0x42]"

definition padded_file :: buffer where
  "padded_file = \<lparr>Address = 0x400000, Bytes = padded_headers @ padded_sections @ sample_text @ sample_reloc\<rparr>"

definition padded_context :: pe_context where
  "padded_context = sample_context\<lparr>FileBuffer := padded_file, SizeOfImage := 288, SectionAlignment := 16,
     AddressOfEntryPoint := 256, RelocDirRva := 272\<rparr>"

definition strict_cfg :: loader_cfg where
  "strict_cfg = sample_cfg\<lparr>PcdImageLoaderAlignmentPolicy := 0\<rparr>"

lemmas padded_defs = padded_file_def padded_headers_def padded_sections_def sample_text_def sample_reloc_def

lemma padded_length: "length (Bytes padded_file) = 280"
  by (simp add: padded_defs)

lemma padded_address: "Address padded_file = 0x400000"
  by (simp add: padded_file_def)

lemma padded_header_fields:
  "get_word 2 (Bytes padded_file) 0 = (0x4550 :: u16)"
  "get_word 4 (Bytes padded_file) 0 = (0x4550 :: u32)"
  "get_word 2 (Bytes padded_file) 24 = (0x10b :: u16)"
  "get_word 2 (Bytes padded_file) 92 = (0xb :: u16)"
  "get_word 4 (Bytes padded_file) 84 = (0xf8 :: u32)"
  "get_word 4 (Bytes padded_file) 52 = (0x400000 :: u32)"
  "get_word 4 (Bytes padded_file) 40 = (0x100 :: u32)"
  "get_word 4 (Bytes padded_file) 56 = (0x10 :: u32)"
  "get_word 4 (Bytes padded_file) 116 = (6 :: u32)"
  "get_word 2 (Bytes padded_file) 20 = (0x90 :: u16)"
  "get_word 2 (Bytes padded_file) 6 = (2 :: u16)"
  "get_word 2 (Bytes padded_file) 4 = (0x14c :: u16)"
  "get_word 2 (Bytes padded_file) 22 = (0x102 :: u16)"
  "get_word 4 (Bytes padded_file) 160 = (0x110 :: u32)"
  "get_word 4 (Bytes padded_file) 164 = (0xc :: u32)"
  "get_word 4 (Bytes padded_file) 152 = (0 :: u32)"
  "get_word 4 (Bytes padded_file) 156 = (0 :: u32)"
  by (simp_all add: padded_defs get_word_def)

lemma padded_section_fields:
  "get_word 4 (Bytes padded_file) 176 = (0x10 :: u32)"
  "get_word 4 (Bytes padded_file) 180 = (0x100 :: u32)"
  "get_word 4 (Bytes padded_file) 184 = (0x10 :: u32)"
  "get_word 4 (Bytes padded_file) 188 = (0xf8 :: u32)"
  "get_word 4 (Bytes padded_file) 192 = (0 :: u32)"
  "get_word 4 (Bytes padded_file) 196 = (0 :: u32)"
  "get_word 2 (Bytes padded_file) 200 = (0 :: u16)"
  "get_word 2 (Bytes padded_file) 202 = (0 :: u16)"
  "get_word 4 (Bytes padded_file) 204 = (0x60000020 :: u32)"
  "get_word 4 (Bytes padded_file) 216 = (0x10 :: u32)"
  "get_word 4 (Bytes padded_file) 220 = (0x110 :: u32)"
  "get_word 4 (Bytes padded_file) 224 = (0x10 :: u32)"
  "get_word 4 (Bytes padded_file) 228 = (0x108 :: u32)"
  "get_word 4 (Bytes padded_file) 232 = (0 :: u32)"
  "get_word 4 (Bytes padded_file) 236 = (0 :: u32)"
  "get_word 2 (Bytes padded_file) 240 = (0 :: u16)"
  "get_word 2 (Bytes padded_file) 242 = (0 :: u16)"
  "get_word 4 (Bytes padded_file) 244 = (0x42000040 :: u32)"
  by (simp_all add: padded_defs get_word_def)

lemma padded_section_names:
  "take 8 (drop 168 (Bytes padded_file)) = [0x2E, 0x74, 0x65, 0x78, 0x74, 0, 0, 0]"
  "take 8 (drop 208 (Bytes padded_file)) = [0x2E, 0x72, 0x65, 0x6C, 0x6F, 0x63, 0, 0]"
  by (simp_all add: padded_defs)

lemma padded_table: "section_table (Bytes padded_file) 168 2 =
    [text_header\<lparr>VirtualAddress := 256\<rparr>, reloc_header\<lparr>VirtualAddress := 272\<rparr>]"
  by (simp add: section_table_def section_header_def upt_rec [of 0 2] upt_rec [of "Suc 0" 2] padded_section_fields
      padded_section_names text_header_def reloc_header_def)

lemma padded_init: "PeCoffInitializeContext strict_cfg padded_file 280 UefiImageOriginFv = Inr padded_context"
  by (simp add: sample_init_rules padded_length padded_address padded_header_fields padded_table padded_context_def strict_cfg_def)

end
