(* ===== verification/PeCoffSpec.thy ===== *)
theory PeCoffSpec
  imports PeSample
begin

text \<open>
  The correctness properties of the PE/COFF loader: validation accepts only files whose sections
  are laid out disjointly inside of image and file, loading reproduces the declared memory image,
  relocation implements the specification of \<^verbatim>\<open>PeRelocSpec\<close>, and relocating again at runtime
  gives what relocating to the new address at load time would have given. Every property with
  hypotheses is applied to the sample images of \<^verbatim>\<open>PeSample\<close>.
\<close>

section \<open>Validation\<close>

lemma sample_wf_cfg: "wf_cfg sample_cfg"
  by (simp add: wf_cfg_def sample_cfg_def IS_POW2_def)

text \<open>C1: whatever bytes the file holds, its validation reads only inside of the file, fails no
  ASSERT, and ends with a status.\<close>
theorem PeCoffInitializeContext_safe:
  assumes "wf_cfg cfg" "length (Bytes buf) = unat fs" "Address buf \<noteq> 0 \<or> fs = 0"
  shows "PeCoffInitializeContext cfg buf fs origin \<notin> {Inl OutOfBounds, Inl AssertFailed, Inl OutOfFuel}"
  using PeCoffInitializeContext_wp [OF assms, of origin] by (auto simp: wp_iff)

theorem PeCoffInitializeContext_safe_witness:
  "wf_cfg sample_cfg \<and> length (replicate 300 (0xFF :: u8)) = unat (300 :: u32) \<and>
   PeCoffInitializeContext sample_cfg \<lparr>Address = 1, Bytes = replicate 300 0xFF\<rparr> 300 UefiImageOriginFv
     \<notin> {Inl OutOfBounds, Inl AssertFailed, Inl OutOfFuel}"
  using PeCoffInitializeContext_safe [of sample_cfg "\<lparr>Address = 1, Bytes = replicate 300 0xFF\<rparr>" 300 UefiImageOriginFv]
    sample_wf_cfg by simp

text \<open>C9: an accepted image has a well-formed context: headers inside the file, a power-of-two
  section alignment, ordered sections, the entry point inside the image, an aligned image base, and
  relocation and security directories inside image and file; the file itself is not changed.\<close>
theorem PeCoffInitializeContext_wf:
  assumes "PeCoffInitializeContext cfg buf fs origin = Inr c"
    and "wf_cfg cfg" "length (Bytes buf) = unat fs" "Address buf \<noteq> 0 \<or> fs = 0"
  shows "wf_context cfg c \<and> FileBuffer c = buf \<and> FileSize c = fs"
  using wp_Inr [OF PeCoffInitializeContext_wp [OF assms(2-4)] assms(1)] .

theorem PeCoffInitializeContext_wf_witness:
  "PeCoffInitializeContext sample_cfg sample_file 280 UefiImageOriginFv = Inr sample_context \<and>
   wf_context sample_cfg sample_context"
  using PeCoffInitializeContext_wf [OF sample_init sample_wf_cfg] by (simp add: sample_init sample_length sample_address)

lemma sample_wf: "wf_context sample_cfg sample_context"
  using PeCoffInitializeContext_wp [OF sample_wf_cfg, of sample_file 280 UefiImageOriginFv]
  by (simp add: sample_init sample_length sample_address)

lemma sections_disjoint:
  assumes "wf_context cfg c"
  shows "sorted_wrt (\<lambda>s t. sec_end s \<le> sec_start t) (Sections c)"
  using wf_sections_sorted [OF assms]
  by (rule sorted_wrt_mono_rel [rotated]) (auto simp: next_start_def intro: le_trans [OF align_up_ge] split: if_splits)

text \<open>C2: the sections of an accepted image are ordered and disjoint, start at multiples of the
  section alignment behind the headers, end inside the image, have their data inside the file, and
  none is both writable and executable where the policy demands it.\<close>
theorem accepted_sections_layout:
  assumes "PeCoffInitializeContext cfg buf fs origin = Inr c"
    and "wf_cfg cfg" "length (Bytes buf) = unat fs" "Address buf \<noteq> 0 \<or> fs = 0"
  shows "Sections c \<noteq> [] \<and> sorted_wrt (\<lambda>s t. sec_end s \<le> sec_start t) (Sections c) \<and>
    (VirtualAddress (hd (Sections c)) = 0 \<or> unat (SizeOfHeaders c) \<le> sec_start (hd (Sections c))) \<and>
    (\<forall>s \<in> set (Sections c).
       unat (SectionAlignment c) dvd sec_start s \<and> sec_end s \<le> unat (SizeOfImage c) \<and>
       (SizeOfRawData s \<noteq> 0 \<longrightarrow> raw_end s \<le> unat fs) \<and>
       (PcdImageLoaderWXorX cfg \<and> \<not> PcdImageLoaderRemoveXForWX cfg \<longrightarrow>
          Characteristics s AND EFI_IMAGE_SCN_MEM_EXECUTE = 0 \<or> Characteristics s AND EFI_IMAGE_SCN_MEM_WRITE = 0))"
proof -
  have wf: "wf_context cfg c" "FileSize c = fs"
    using wp_Inr [OF PeCoffInitializeContext_wp [OF assms(2-4)] assms(1)] by simp_all
  have ne: "Sections c \<noteq> []"
    by (rule Sections_nonempty [OF wf_contextD(1) [OF wf(1)]])
  have "sorted_wrt (\<lambda>s t. sec_end s \<le> sec_start t) (Sections c)"
    by (rule sections_disjoint [OF wf(1)])
  moreover have "VirtualAddress (hd (Sections c)) = 0 \<or> unat (SizeOfHeaders c) \<le> sec_start (hd (Sections c))"
    using wf_sections_bounds(2) [OF wf(1), of "hd (Sections c)"] ne
    by (auto simp: image_start_def next_start_def intro: le_trans [OF align_up_ge] split: if_splits)
  moreover have "unat (SectionAlignment c) dvd sec_start s \<and> sec_end s \<le> unat (SizeOfImage c) \<and>
       (SizeOfRawData s \<noteq> 0 \<longrightarrow> raw_end s \<le> unat fs) \<and>
       (PcdImageLoaderWXorX cfg \<and> \<not> PcdImageLoaderRemoveXForWX cfg \<longrightarrow>
          Characteristics s AND EFI_IMAGE_SCN_MEM_EXECUTE = 0 \<or> Characteristics s AND EFI_IMAGE_SCN_MEM_WRITE = 0)"
    if "s \<in> set (Sections c)" for s
    using wf_sections_bounds [OF wf(1) that] wf(2) wx_violation_iff [of s] by (auto simp: wf_section_def)
  ultimately show ?thesis
    using ne by blast
qed

theorem accepted_sections_layout_witness:
  "PeCoffInitializeContext sample_cfg sample_file 280 UefiImageOriginFv = Inr sample_context \<and>
   sorted_wrt (\<lambda>s t. sec_end s \<le> sec_start t) (Sections sample_context)"
  using accepted_sections_layout [OF sample_init sample_wf_cfg] by (simp add: sample_init sample_length sample_address)

lemma section_chain_adjacent:
  assumes "strict_sections cfg"
  shows "section_chain cfg fsize al lo ss hi \<Longrightarrow> ss \<noteq> [] \<Longrightarrow>
    hi = align_up (sec_end (last ss)) al \<and> sec_start (hd ss) = lo \<and>
    (\<forall>i. Suc i < length ss \<longrightarrow> sec_start (ss ! Suc i) = align_up (sec_end (ss ! i)) al)"
proof (induction ss arbitrary: lo)
  case (Cons s ss)
  show ?case
  proof (cases "ss = []")
    case True
    then show ?thesis
      using Cons.prems assms by (auto simp: next_start_def)
  next
    case False
    have "section_chain cfg fsize al (align_up (sec_end s) al) ss hi"
      using Cons.prems assms by (auto simp: next_start_def)
    from Cons.IH [OF this False] have IH: "hi = align_up (sec_end (last ss)) al" "sec_start (hd ss) = align_up (sec_end s) al"
      "\<forall>i. Suc i < length ss \<longrightarrow> sec_start (ss ! Suc i) = align_up (sec_end (ss ! i)) al"
      by simp_all
    have "sec_start ((s # ss) ! Suc i) = align_up (sec_end ((s # ss) ! i)) al" if "Suc i < length (s # ss)" for i
      using that IH False by (cases i) (auto simp: hd_conv_nth)
    then show ?thesis
      using Cons.prems assms IH(1) False by simp
  qed
qed simp

text \<open>Under the strict policy the sections of an accepted image leave no gap: each one starts
  where the previous one ends, rounded up to the section alignment, and the image ends where the
  last one does.\<close>
theorem strict_sections_contiguous:
  assumes "PeCoffInitializeContext cfg buf fs origin = Inr c" "strict_sections cfg"
    and "wf_cfg cfg" "length (Bytes buf) = unat fs" "Address buf \<noteq> 0 \<or> fs = 0"
  shows "unat (SizeOfImage c) = align_up (sec_end (last (Sections c))) (unat (SectionAlignment c)) \<and>
    (\<forall>i. Suc i < length (Sections c) \<longrightarrow>
       sec_start (Sections c ! Suc i) = align_up (sec_end (Sections c ! i)) (unat (SectionAlignment c)))"
proof -
  have wf: "wf_context cfg c"
    using wp_Inr [OF PeCoffInitializeContext_wp [OF assms(3-5)] assms(1)] by simp
  obtain hi where hi: "section_chain cfg (unat (FileSize c)) (unat (SectionAlignment c)) (image_start cfg c) (Sections c) hi"
    "unat (SizeOfImage c) = align_up hi (unat (SectionAlignment c))"
    using wf by (auto simp: wf_context_def wf_sections_def)
  note adj = section_chain_adjacent [OF assms(2) hi(1) Sections_nonempty [OF wf_contextD(1) [OF wf]]]
  have "align_up hi (unat (SectionAlignment c)) = hi"
    using adj wf_contextD(7) [OF wf] by (simp add: align_up_id_iff)
  with adj hi(2) show ?thesis
    by simp
qed

lemma strict_sample_init:
  "PeCoffInitializeContext (sample_cfg\<lparr>PcdImageLoaderAlignmentPolicy := 0\<rparr>) sample_file 280 UefiImageOriginFv = Inr sample_context"
  by (simp add: sample_init_rules)

theorem strict_sections_contiguous_witness:
  "strict_sections (sample_cfg\<lparr>PcdImageLoaderAlignmentPolicy := 0\<rparr>) \<and>
   unat (SizeOfImage sample_context) = align_up (sec_end (last (Sections sample_context))) 8"
  using strict_sections_contiguous [OF strict_sample_init]
  by (simp add: strict_sections_def wf_cfg_def IS_POW2_def sample_length sample_address)
    (simp add: sample_cfg_def sample_context_def)

text \<open>In the relaxed mode, where the end of the last section can be rounded up to none of the
  page granularities, the alignment falls back to one byte but the recorded image size is the
  wrapped value zero.\<close>
theorem relaxed_fallback_size_zero:
  assumes "\<not> strict_sections cfg" "wf_cfg cfg" "IS_POW2 Alignment"
    and "DEFAULT_PAGE_ALLOCATION_GRANULARITY cfg \<le> Alignment"
    and "2 ^ 32 - unat (DEFAULT_PAGE_ALLOCATION_GRANULARITY cfg) < unat NextSectRva"
  shows "DetermineSizeOfImage cfg Alignment NextSectRva = (1, 0)"
proof -
  let ?R = "RUNTIME_PAGE_ALLOCATION_GRANULARITY cfg" and ?D = "DEFAULT_PAGE_ALLOCATION_GRANULARITY cfg"
  have pow2: "IS_POW2 ?R" "IS_POW2 ?D" "?D \<le> ?R"
    using assms(2) by (simp_all add: wf_cfg_def)
  have wrap: "align_up (unat NextSectRva) (unat g) = 2 ^ 32" if g: "IS_POW2 g" "?D \<le> g" for g
  proof -
    have pos: "0 < unat g"
      using g(1) by (rule IS_POW2_pos)
    obtain k where k: "(2::nat) ^ 32 = unat g * k"
      using pow2_dvd_size [OF g(1)] by (simp only: len_bit0 len_num1 len_num0 dvd_def) auto
    have "unat g * (k - 1) < unat NextSectRva"
      using assms(5) g(2) k by (simp add: right_diff_distrib' word_le_nat_alt)
    then have "unat g * (k - 1) < align_up (unat NextSectRva) (unat g)"
      by (rule less_le_trans) simp
    moreover obtain j where j: "align_up (unat NextSectRva) (unat g) = unat g * j"
      using align_up_dvd [OF pos] by (auto simp only: dvd_def)
    ultimately have "k \<le> j"
      by (simp only: mult_less_cancel1) arith
    then have "2 ^ 32 \<le> align_up (unat NextSectRva) (unat g)"
      using mult_le_mono2 [of k j "unat g"] by (simp only: j k)
    then show ?thesis
      using align_up_le_size [OF g(1), of NextSectRva] by simp
  qed
  show ?thesis
    using assms(1) wrap [OF assms(3,4)] wrap [OF pow2(1,3)] wrap [OF pow2(2)]
    by (auto simp: DetermineSizeOfImage_def strict_sections_def AlignUpU32_eq assms(3) pow2 Let_def)
qed

theorem relaxed_fallback_size_zero_witness:
  "wf_cfg sample_cfg \<and> DetermineSizeOfImage sample_cfg 0x1000 0xFFFFFFF0 = (1, 0)"
  using relaxed_fallback_size_zero [of sample_cfg "0x1000" "0xFFFFFFF0"] sample_wf_cfg
  by (simp add: strict_sections_def IS_POW2_def) (simp add: sample_cfg_def)

section \<open>Loading\<close>

lemma sorted_wrt_total:
  "sorted_wrt P xs \<Longrightarrow> x \<in> set xs \<Longrightarrow> y \<in> set xs \<Longrightarrow> x \<noteq> y \<Longrightarrow> P x y \<or> P y x"
  by (induction xs) auto

lemma loaded_section_byte:
  assumes wf: "wf_context cfg c" and n: "unat (SizeOfImage c) \<le> n"
    and s: "s \<in> set (Sections c)" "i < unat (VirtualSize s)"
  shows "loaded_image cfg c n ! (sec_start s + i) =
    (if i < unat (SizeOfRawData s) then FileBytes c ! (unat (PointerToRawData s) + i) else 0)"
proof (cases "i < unat (DataSize s)")
  case True
  then show ?thesis
    using loaded_image_nth(2) [OF wf n s(1)] DataSize_le(2) [of s] by simp
next
  case False
  have raw: "\<not> i < unat (SizeOfRawData s)"
    using False s(2) by (auto simp: DataSize_def word_le_nat_alt split: if_splits)
  have outside: "\<not> (sec_start t \<le> sec_start s + i \<and> sec_start s + i < sec_start t + unat (DataSize t))"
    if t: "t \<in> set (Sections c)" for t
  proof (cases "t = s")
    case False
    then have "sec_end t \<le> sec_start s \<or> sec_end s \<le> sec_start t"
      using sorted_wrt_total [OF sections_disjoint [OF wf] t s(1)] by simp
    then show ?thesis
      using s(2) DataSize_le(1) [of t] by auto
  qed (use \<open>\<not> i < unat (DataSize s)\<close> in auto)
  have "loaded_header_size cfg c \<le> image_start cfg c"
    by (simp add: loaded_header_size_def image_start_def next_start_def)
  then have "loaded_image cfg c n ! (sec_start s + i) = 0"
    using wf_sections_bounds(2,3) [OF wf s(1)] s(2) n outside
    by (intro loaded_image_nth(3) [OF wf n]) auto
  with raw show ?thesis
    by simp
qed


lemma sample_destination_simps:
  "length (Bytes sample_destination) = unat (280 :: u32)" "Address sample_destination \<noteq> 0"
  "IS_ALIGNED (Address sample_destination) (ucast (SectionAlignment sample_context))" "SizeOfImage sample_context \<le> 280"
  by (simp_all add: sample_destination_def sample_context_def IS_ALIGNED_def ALIGN_VALUE_SUBTRAHEND_def)


text \<open>C12: discarding sections of a loaded image zeroes exactly the bytes of the sections marked as
  discardable, keeps every other byte, and forgets the relocation directory.\<close>
theorem PeCoffDiscardSections_exact:
  assumes "wf_context cfg c" "ImageBuffer c = Destination d" "unat (SizeOfImage c) \<le> length (Bytes d)"
  shows "PeCoffDiscardSections c =
    Inr (c\<lparr>RelocDirRva := 0, RelocDirSize := 0,
           ImageBuffer := Destination (d\<lparr>Bytes := map (\<lambda>i.
             if \<exists>s \<in> set (Sections c). Characteristics s AND EFI_IMAGE_SCN_MEM_DISCARDABLE \<noteq> 0 \<and>
                  sec_start s \<le> i \<and> i < sec_end s
             then 0 else Bytes d ! i) [0..<length (Bytes d)]\<rparr>)\<rparr>)"
proof -
  have "sec_end s \<le> length (Bytes d)" if "s \<in> set (Sections c)" for s
    using wf_sections_bounds(3) [OF assms(1) that] assms(3) by simp
  then have exact: "DiscardSectionsLoop (Sections c) (Bytes d) =
      Inr (map (\<lambda>i. if discarded (Sections c) i then 0 else Bytes d ! i) [0..<length (Bytes d)])"
    by (rule DiscardSectionsLoop_exact)
  have "wf_headers (c\<lparr>RelocDirRva := 0, RelocDirSize := 0\<rparr>)"
    using wf_contextD(1) [OF assms(1)] by (simp add: wf_headers_def)
  from read_Sections [OF this] show ?thesis
    using assms(2) exact [unfolded discarded_def]
    by (simp add: PeCoffDiscardSections_def Let_def ImageBytes_def set_ImageBytes_def Sections_def)
qed

lemma wf_context_ImageBuffer [simp]: "wf_context cfg (c\<lparr>ImageBuffer := x\<rparr>) = wf_context cfg c"
  by (simp add: wf_context_def wf_headers_def wf_sections_def image_start_def Sections_def wf_reloc_dir_def wf_security_dir_def
      directory_defs)

lemma sample_loaded_wf: "wf_context sample_cfg sample_loaded"
  by (simp add: sample_loaded_def sample_wf)

lemma sample_loaded_simps:
  "ImageBuffer sample_loaded = Destination \<lparr>Address = 0x500000, Bytes = Bytes sample_file\<rparr>"
  "SizeOfImage sample_loaded = 280" "RelocDirRva sample_loaded = 264" "RelocDirSize sample_loaded = 12"
  "RelocsStripped sample_loaded = False" "ImageBase sample_loaded = 0x400000" "ImageBytes sample_loaded = Bytes sample_file"
  by (simp_all add: sample_loaded_def sample_context_def ImageBytes_def)

theorem PeCoffDiscardSections_exact_witness:
  "wf_context sample_cfg sample_loaded \<and> (\<exists>c'. PeCoffDiscardSections sample_loaded = Inr c')"
  using PeCoffDiscardSections_exact [OF sample_loaded_wf sample_loaded_simps(1)]
  by (simp add: sample_loaded_wf sample_loaded_simps sample_length)

section \<open>Loading in place\<close>

text \<open>C11: an image that is declared loaded in place is at its preferred address, and every section
  is found in the file at its own virtual address, its aligned size ending inside of the file where
  it is not empty.\<close>
theorem PeCoffLoadImageInplace_sections:
  assumes "wf_context cfg c" "PeCoffLoadImageInplace c = Inr c'"
  shows "c' = c\<lparr>ImageBuffer := Inplace\<rparr> \<and> ImageBase c = Address (FileBuffer c) \<and>
    (\<forall>s \<in> set (Sections c). PointerToRawData s = VirtualAddress s \<and>
       (VirtualSize s \<noteq> 0 \<longrightarrow>
          sec_start s + align_up (unat (VirtualSize s)) (unat (SectionAlignment c)) \<le> length (FileBytes c)))"
proof -
  have inp: "ImageBase c = Address (FileBuffer c)" "c' = c\<lparr>ImageBuffer := Inplace\<rparr>"
    "list_all (inplace_section (SectionAlignment c)) (Sections c)"
    using assms(2) read_Sections [OF wf_contextD(1) [OF assms(1)]]
    by (auto simp: PeCoffLoadImageInplace_def PeCoffImageIsInplace_def PeCoffGetImageBase_def
        PeCoffLoadImageInplaceNoBase_def split: if_splits)
  have "PointerToRawData s = VirtualAddress s \<and> (VirtualSize s \<noteq> 0 \<longrightarrow>
      sec_start s + align_up (unat (VirtualSize s)) (unat (SectionAlignment c)) \<le> length (FileBytes c))"
    if "s \<in> set (Sections c)" for s
    using inplace_section_end [OF assms(1) that] inp(3) that wf_contextD(1) [OF assms(1)]
    by (auto simp: list_all_iff inplace_section_def wf_headers_def)
  with inp show ?thesis
    by blast
qed

theorem PeCoffLoadImageInplace_sections_witness:
  "PeCoffLoadImageInplace sample_context = Inr (sample_context\<lparr>ImageBuffer := Inplace\<rparr>) \<and>
   list_all (\<lambda>s. PointerToRawData s = VirtualAddress s) (Sections sample_context)"
proof -
  have "PeCoffLoadImageInplace sample_context = Inr (sample_context\<lparr>ImageBuffer := Inplace\<rparr>)"
    using read_Sections [OF wf_contextD(1) [OF sample_wf]]
    by (simp add: PeCoffLoadImageInplace_def PeCoffImageIsInplace_def PeCoffGetImageBase_def PeCoffLoadImageInplaceNoBase_def
        sample_Sections text_header_def reloc_header_def inplace_section_def ALIGN_VALUE_def ALIGN_VALUE_ADDEND_def)
      (simp add: sample_context_def sample_address)
  with PeCoffLoadImageInplace_sections [OF sample_wf this] show ?thesis
    by (simp add: list_all_iff)
qed

text \<open>C33: loading in place compares offsets and sizes of the sections only. A file whose last
  section is empty and starts behind the end of the file is accepted, and its relocation in place
  then accesses memory behind the file.\<close>
theorem inplace_relocation_out_of_bounds:
  "PeCoffInitializeContext sample_cfg sparse_file 264 UefiImageOriginFv = Inr sparse_context \<and>
   length (Bytes sparse_file) = 264 \<and>
   PeCoffRelocateImageInplace sample_cfg sparse_context = Inl OutOfBounds"
proof -
  have load: "PeCoffLoadImageInplaceNoBase sparse_context = Inr (sparse_context\<lparr>ImageBuffer := Inplace\<rparr>)"
    by (simp add: PeCoffLoadImageInplaceNoBase_def PeCoffGetSectionTable_def read_sections_def sparse_context_def
        sample_context_def sparse_length sparse_table text_header_def bss_header_def inplace_section_def
        ALIGN_VALUE_def ALIGN_VALUE_ADDEND_def)
  have "PeCoffRelocateImage sample_cfg (sparse_context\<lparr>ImageBuffer := Inplace\<rparr>) 0x10000 None 0 = Inl OutOfBounds"
    by (simp add: PeCoffRelocateImage_def sparse_context_def sample_context_def TopOfRelocDir_def sample_cfg_def
        BaseOverflowAlignUpU32_def BaseOverflowAddU32_def Let_def RelocateBlocks.simps ImageBytes_def
        ReadUnaligned32_def read_word_def sparse_length)
  then show ?thesis
    using load sparse_init
    by (simp add: sparse_length PeCoffRelocateImageInplace_def PeCoffLoaderGetImageAddress_def sparse_context_def sparse_address)
qed

section \<open>Relocation\<close>

lemma sample_reloc_fields:
  "get_word 4 (Bytes sample_file) 264 = (248 :: u32)" "get_word 4 (Bytes sample_file) 268 = (12 :: u32)"
  "get_word 2 (Bytes sample_file) 272 = (0x3004 :: u16)" "get_word 2 (Bytes sample_file) 274 = (0 :: u16)"
  "get_word 4 (Bytes sample_file) 252 = (0x4000F8 :: u32)"
  by (simp_all add: sample_defs get_word_def)

lemma sample_reloc_list: "reloc_list sample_cfg sample_loaded = Inr [(EFI_IMAGE_REL_BASED_HIGHLOW, 252), (EFI_IMAGE_REL_BASED_ABSOLUTE, 248)]"
proof -
  have two: "check_entries cfg c b blk 0 2 = check_entries cfg c b blk 0 (Suc (Suc 0))" for cfg c b blk
    by (simp only: numeral_2_eq_2)
  have "parse_dir 11 sample_cfg sample_loaded (Bytes sample_file) 268 276 = Inr ([], 276)"
    by (simp add: parse_dir.simps)
  note parsed = this
  have "entry_error sample_cfg sample_loaded 248 0x3004 = None" "entry_error sample_cfg sample_loaded 248 0 = None"
    by (simp_all add: entry_error_def IMAGE_RELOC_TYPE_def IMAGE_RELOC_OFFSET_def sample_loaded_simps fixup_size_def
        targets_reloc_dir_def Let_def)
  then have "check_entries sample_cfg sample_loaded (Bytes sample_file) 264 0 (Suc (Suc 0)) =
      Inr [(EFI_IMAGE_REL_BASED_HIGHLOW, 252), (EFI_IMAGE_REL_BASED_ABSOLUTE, 248)]"
    by (simp add: sample_reloc_fields reloc_entry_def IMAGE_RELOC_TYPE_def
        IMAGE_RELOC_OFFSET_def Let_def)
  with parsed have "parse_dir 12 sample_cfg sample_loaded (Bytes sample_file) 268 264 =
      Inr ([(EFI_IMAGE_REL_BASED_HIGHLOW, 252), (EFI_IMAGE_REL_BASED_ABSOLUTE, 248)], 276)"
    by (subst parse_dir.simps)
      (simp add: two sample_reloc_fields RelocBlockSize_def sample_cfg_def ALIGN_VALUE_def ALIGN_VALUE_ADDEND_def Let_def)
  then show ?thesis
    by (simp add: reloc_list_def sample_loaded_simps TopOfRelocDir_def BaseOverflowAlignUpU32_def BaseOverflowAddU32_def
        Let_def)
qed

lemma sample_disjoint: "disjoint_targets [(EFI_IMAGE_REL_BASED_HIGHLOW, 252), (EFI_IMAGE_REL_BASED_ABSOLUTE, 248)]"
  by (simp add: disjoint_targets_def apart_def fixup_size_def)


lemma wf_context_reloc_image:
  assumes "wf_context cfg c" "unat (SizeOfImage c) \<le> length (ImageBytes c)"
  shows "wf_reloc_image c"
  using wf_contextD(5) [OF assms(1)] assms(2) by (auto simp: wf_reloc_image_def wf_reloc_dir_def relocatable_def)

lemma sample_wf_reloc_image: "wf_reloc_image sample_loaded"
  by (rule wf_context_reloc_image [OF sample_loaded_wf]) (simp add: sample_loaded_simps sample_length)

definition sample_runtime :: PE_COFF_LOADER_RUNTIME_CONTEXT where
  "sample_runtime = \<lparr>RtRelocDirRva = 0, RtRelocDirSize = 0, FixupData = replicate 6 0\<rparr>"

lemma sample_runtime_wf: "wf_runtime_buffer sample_loaded (Some sample_runtime) 56" "wf_runtime_buffer sample_loaded None 0"
  by (simp_all add: wf_runtime_buffer_def sample_loaded_simps sample_runtime_def)

text \<open>C10: relocating a validated and loaded image never accesses memory outside of the image or of
  the runtime context, fails no ASSERT, and ends; it changes no byte of the relocation directory and
  none behind the image.\<close>
theorem PeCoffRelocateImage_safe:
  assumes "wf_context cfg c" "unat (SizeOfImage c) \<le> length (ImageBytes c)"
    and "\<not> RelocsStripped c \<or> base = ImageBase c" "wf_runtime_buffer c rt sz" "ImageBuffer c \<noteq> NotLoaded"
  shows "PeCoffRelocateImage cfg c base rt sz \<notin> {Inl OutOfBounds, Inl AssertFailed, Inl OutOfFuel} \<and>
    (\<forall>c' rt'. PeCoffRelocateImage cfg c base rt sz = Inr (c', rt') \<longrightarrow>
       length (ImageBytes c') = length (ImageBytes c) \<and>
       (\<forall>i < length (ImageBytes c).
          unat (RelocDirRva c) \<le> i \<and> i < unat (RelocDirRva c) + unat (RelocDirSize c) \<or> unat (SizeOfImage c) \<le> i \<longrightarrow>
          ImageBytes c' ! i = ImageBytes c ! i))"
  using PeCoffRelocateImage_wp [OF wf_context_reloc_image [OF assms(1,2)] assms(3,4), of cfg] assms(5)
  by (auto simp: wp_iff reloc_frame_def in_reloc_dir_def image_bytes_after_set)

theorem PeCoffRelocateImage_safe_witness:
  "wf_context sample_cfg sample_loaded \<and> wf_runtime_buffer sample_loaded (Some sample_runtime) 56 \<and>
   PeCoffRelocateImage sample_cfg sample_loaded 0x500000 (Some sample_runtime) 56
     \<notin> {Inl OutOfBounds, Inl AssertFailed, Inl OutOfFuel}"
  using PeCoffRelocateImage_safe [OF sample_loaded_wf _ _ sample_runtime_wf(1), of "0x500000"]
  by (simp add: sample_loaded_wf sample_runtime_wf sample_loaded_simps sample_length)

text \<open>C4: relocation implements its specification: the directory is read into the list of its
  fix-ups, or rejected with the status that reading it gives; then exactly these fix-ups are applied
  in order, each adding the displacement to its target, and the relocated values are recorded in the
  runtime context, the rest of which is zeroed.\<close>
theorem PeCoffRelocateImage_refines:
  assumes "wf_context cfg c" "unat (SizeOfImage c) \<le> length (ImageBytes c)"
    and "\<not> RelocsStripped c \<or> base = ImageBase c" "wf_runtime_buffer c rt sz"
    and "RelocDirSize c \<noteq> 0" "rt \<noteq> None \<or> base \<noteq> ImageBase c"
  shows "PeCoffRelocateImage cfg c base rt sz =
    bindR (reloc_list cfg c) (\<lambda>es.
      Inr (set_ImageBytes c (fold (reloc_apply (base - ImageBase c)) es (ImageBytes c)),
           map_option (recorded (base - ImageBase c) es c) rt))"
  using assms(5,6) PeCoffRelocateImage_exact [OF wf_context_reloc_image [OF assms(1,2)] assms(3,4), of cfg]
  by auto

theorem PeCoffRelocateImage_refines_witness:
  "wf_context sample_cfg sample_loaded \<and>
   PeCoffRelocateImage sample_cfg sample_loaded 0x500000 None 0 =
     Inr (set_ImageBytes sample_loaded
       (fold (reloc_apply 0x100000) [(EFI_IMAGE_REL_BASED_HIGHLOW, 252), (EFI_IMAGE_REL_BASED_ABSOLUTE, 248)] (Bytes sample_file)), None)"
  using PeCoffRelocateImage_refines [OF sample_loaded_wf _ _ sample_runtime_wf(2), of "0x500000"]
  by (simp add: sample_loaded_wf sample_loaded_simps sample_length sample_reloc_list)

lemma reloc_apply_target_value:
  assumes "target_inside (length b) e"
  shows "fst e = EFI_IMAGE_REL_BASED_HIGHLOW \<Longrightarrow>
      get_word 4 (reloc_apply a e b) (target_start e) = (get_word 4 b (target_start e) + ucast a :: u32)"
    and "fst e = EFI_IMAGE_REL_BASED_DIR64 \<Longrightarrow>
      get_word 8 (reloc_apply a e b) (target_start e) = (get_word 8 b (target_start e) + a :: u64)"
  using assms get_word_window_view [of "target_start e" 4 b "highlow_act a", where 'a = 32]
    get_word_window_view [of "target_start e" 8 b "dir64_act a", where 'a = 64]
  by (auto simp: reloc_apply_window target_inside_def fixup_size_def fixup_act_def highlow_act_def dir64_act_def
      get_word_le_to_bytes_all get_word_0)

lemma get_word_fold_frame:
  "list_all (target_inside (length b)) es \<Longrightarrow> list_all (apart e) es \<Longrightarrow>
     target_size e \<noteq> 0 \<Longrightarrow> get_word (target_size e) (fold (reloc_apply a) es b) (target_start e) = get_word (target_size e) b (target_start e)"
proof (induction es arbitrary: b)
  case (Cons x es)
  then have "get_word (target_size e) (reloc_apply a x b) (target_start e) = get_word (target_size e) b (target_start e)"
    by (cases "target_size x = 0", simp add: reloc_apply_id)
      (auto simp: apart_def intro!: changes_only_get_word [OF reloc_apply_changes_only])
  with Cons show ?case
    by simp
qed simp

lemma fold_target_value:
  assumes "list_all (target_inside (length b)) es" "disjoint_targets es" "e \<in> set es"
  shows "fst e = EFI_IMAGE_REL_BASED_HIGHLOW \<Longrightarrow> get_word 4 (fold (reloc_apply a) es b) (target_start e) =
      (get_word 4 b (target_start e) + ucast a :: u32)"
    and "fst e = EFI_IMAGE_REL_BASED_DIR64 \<Longrightarrow> get_word 8 (fold (reloc_apply a) es b) (target_start e) =
      (get_word 8 b (target_start e) + a :: u64)"
proof -
  obtain xs ys where es: "es = xs @ e # ys"
    using assms(3) by (meson split_list)
  have ap: "list_all (apart e) xs" "list_all (apart e) ys"
    using assms(2) by (auto simp: es disjoint_targets_def sorted_wrt_append list_all_iff apart_sym)
  define b1 where "b1 = fold (reloc_apply a) xs b"
  define b2 where "b2 = reloc_apply a e b1"
  have inside: "list_all (target_inside (length b)) xs" "target_inside (length b) e" "list_all (target_inside (length b)) ys"
    using assms(1) by (simp_all add: es)
  then have len: "length b1 = length b" "length b2 = length b"
    by (simp_all add: b1_def b2_def)
  have img: "fold (reloc_apply a) es b = fold (reloc_apply a) ys b2"
    by (simp add: es b1_def b2_def)
  show "get_word 4 (fold (reloc_apply a) es b) (target_start e) = (get_word 4 b (target_start e) + ucast a :: u32)"
    if "fst e = EFI_IMAGE_REL_BASED_HIGHLOW"
    using get_word_fold_frame [OF inside(1) ap(1), of a, where 'a = 32] get_word_fold_frame [of b2 ys e a, where 'a = 32]
      reloc_apply_target_value(1) [of b1 e a] that inside len ap
    by (simp add: img fixup_size_def b1_def [symmetric] b2_def [symmetric])
  show "get_word 8 (fold (reloc_apply a) es b) (target_start e) = (get_word 8 b (target_start e) + a :: u64)"
    if "fst e = EFI_IMAGE_REL_BASED_DIR64"
    using get_word_fold_frame [OF inside(1) ap(1), of a, where 'a = 64] get_word_fold_frame [of b2 ys e a, where 'a = 64]
      reloc_apply_target_value(2) [of b1 e a] that inside len ap
    by (simp add: img fixup_size_def b1_def [symmetric] b2_def [symmetric])
qed

lemma fold_outside_targets:
  "list_all (target_inside (length b)) es \<Longrightarrow> i < length b \<Longrightarrow>
     (\<And>e. e \<in> set es \<Longrightarrow> \<not> (target_start e \<le> i \<and> i < target_start e + target_size e)) \<Longrightarrow>
     fold (reloc_apply a) es b ! i = b ! i"
proof (induction es arbitrary: b)
  case (Cons e es)
  have "reloc_apply a e b ! i = b ! i"
    using reloc_apply_changes_only [of b e a] Cons.prems(1,2) Cons.prems(3) [of e] by (auto simp: changes_only_def not_le not_less)
  with Cons show ?case
    by simp
qed simp





section \<open>Thumb instruction pairs and the runtime context\<close>

lemma ThumbPatch_opcode:
  assumes "off + 8 \<le> length b" "ThumbMovwMovtImmediatePatch b off Addr = Inr b'" "i \<in> {0, 4}"
  shows "get_word 2 b' (off + i) AND NOT 0x040F = (get_word 2 b (off + i) AND NOT 0x040F :: u16)"
    "get_word 2 b' (off + i + 2) AND NOT 0x70FF = (get_word 2 b (off + i + 2) AND NOT 0x70FF :: u16)"
proof -
  obtain b1 where b1: "ThumbMovtImmediatePatch b off (ucast (Addr AND 0x0000FFFF)) = Inr b1"
    "ThumbMovtImmediatePatch b1 (off + 4) (ucast (drop_bit 16 (Addr AND 0xFFFF0000))) = Inr b'"
    using assms(2) unfolding ThumbMovwMovtImmediatePatch_def bindR_Inr_iff by blast
  have p1: "changes_only off 4 b b1"
    "get_word 2 b1 off = thumb_patch1 (get_word 2 b off) (ucast (Addr AND 0x0000FFFF))"
    "get_word 2 b1 (off + 2) = thumb_patch2 (get_word 2 b (off + 2)) (ucast (Addr AND 0x0000FFFF))"
    using wp_Inr [OF ThumbMovtImmediatePatch_wp b1(1)] assms(1) by simp_all
  have p2: "changes_only (off + 4) 4 b1 b'"
    "get_word 2 b' (off + 4) = thumb_patch1 (get_word 2 b1 (off + 4)) (ucast (drop_bit 16 (Addr AND 0xFFFF0000)))"
    "get_word 2 b' (off + 4 + 2) = thumb_patch2 (get_word 2 b1 (off + 4 + 2)) (ucast (drop_bit 16 (Addr AND 0xFFFF0000)))"
    using wp_Inr [OF ThumbMovtImmediatePatch_wp b1(2)] assms(1) changes_only_length [OF p1(1)] by simp_all
  have keep: "get_word 2 b' off = (get_word 2 b1 off :: u16)" "get_word 2 b' (off + 2) = (get_word 2 b1 (off + 2) :: u16)"
    "get_word 2 b1 (off + 4) = (get_word 2 b (off + 4) :: u16)" "get_word 2 b1 (off + 4 + 2) = (get_word 2 b (off + 4 + 2) :: u16)"
    using p1(1) p2(1) by (auto intro!: changes_only_get_word)
  show "get_word 2 b' (off + i) AND NOT 0x040F = (get_word 2 b (off + i) AND NOT 0x040F :: u16)"
    using assms(3) p1(2) p2(2) keep thumb_patch1_opcode by auto
  show "get_word 2 b' (off + i + 2) AND NOT 0x70FF = (get_word 2 b (off + i + 2) AND NOT 0x70FF :: u16)"
    using assms(3) p1(3) p2(3) keep thumb_patch2_opcode by auto
qed

text \<open>C14: patching a Thumb MOVW/MOVT pair and reading its immediate back gives the patched address;
  the opcode and register bits of the four halfwords and all bytes around the pair are kept.\<close>
theorem ThumbMovwMovt_round_trip:
  assumes "off + 8 \<le> length b"
  shows "\<exists>b'. ThumbMovwMovtImmediatePatch b off Addr = Inr b' \<and>
    PeCoffThumbMovwMovtImmediateAddress b' off = Inr Addr \<and>
    length b' = length b \<and> (\<forall>i < length b. i < off \<or> off + 8 \<le> i \<longrightarrow> b' ! i = b ! i) \<and>
    (\<forall>i \<in> {0, 4}. get_word 2 b' (off + i) AND NOT 0x040F = (get_word 2 b (off + i) AND NOT 0x040F :: u16) \<and>
       get_word 2 b' (off + i + 2) AND NOT 0x70FF = (get_word 2 b (off + i + 2) AND NOT 0x70FF :: u16))"
proof -
  have "\<exists>b'. ThumbMovwMovtImmediatePatch b off Addr = Inr b'"
    using assms by (simp add: ThumbMovwMovtImmediatePatch_def ThumbMovtImmediatePatch_exact)
  then obtain b' where b': "ThumbMovwMovtImmediatePatch b off Addr = Inr b'" ..
  have post: "changes_only off 8 b b'" "movw_movt_address b' off = Addr"
    using wp_Inr [OF MovwMovtImmediatePatch_wp [OF assms] b'] by simp_all
  then show ?thesis
    using b' ThumbPatch_opcode [OF assms b'] assms
    by (intro exI [of _ b']) (simp add: MovwMovtImmediateAddress_eq changes_only_def)
qed

theorem ThumbMovwMovt_round_trip_witness:
  "\<exists>b'. ThumbMovwMovtImmediatePatch [0x40, 0xF2, 0, 0, 0xC0, 0xF2, 0, 0] 0 0x12345678 = Inr b' \<and>
     PeCoffThumbMovwMovtImmediateAddress b' 0 = Inr 0x12345678"
  using ThumbMovwMovt_round_trip [of 0 "[0x40, 0xF2, 0, 0, 0xC0, 0xF2, 0, 0]" "0x12345678"] by auto

lemma reloc_list_length:
  assumes "relocatable c (ImageBytes c)" "reloc_list cfg c = Inr es"
  shows "2 * length es \<le> unat (RelocDirSize c)"
proof -
  obtain t where t: "TopOfRelocDir cfg (RelocDirRva c + RelocDirSize c) = Inr t"
    and parse: "parse_dir (unat (RelocDirSize c)) cfg c (ImageBytes c) (RelocDirRva c + RelocDirSize c - 8) (RelocDirRva c) = Inr (es, t)"
    using assms(2) by (auto simp: reloc_list_def bindR_Inr_iff split: if_splits)
  have "block_inv cfg c (RelocDirRva c) 0 (ImageBytes c, None)" "unat (RelocDirRva c + RelocDirSize c - 8) + 8 = reloc_end c"
    using reloc_start_inv [OF assms(1) t, of None 0] by (simp_all add: wf_runtime_buffer_def)
  from parse_dir_length [OF this(2,1) parse] show ?thesis
    by simp
qed

text \<open>C13: the size computed for the runtime context is eight bytes and four for every byte of the
  relocation directory, or the request is refused where that does not fit in 32 bits; a context of
  this size passes the checks of the relocation and holds one value for every relocation.\<close>
theorem PeCoffLoaderGetRuntimeContextSize_sufficient:
  assumes "\<not> RelocsStripped c"
  shows "PeCoffLoaderGetRuntimeContextSize c =
      (if 2 ^ 32 \<le> 8 + 4 * unat (RelocDirSize c) then fail RETURN_UNSUPPORTED
       else Inr (word_of_nat (8 + 4 * unat (RelocDirSize c)))) \<and>
    (\<forall>sz rt cfg es. PeCoffLoaderGetRuntimeContextSize c = Inr sz \<and> length (FixupData rt) = (unat sz - 8) div 8 \<longrightarrow>
       wf_runtime_buffer c (Some rt) sz \<and>
       (wf_context cfg c \<and> unat (SizeOfImage c) \<le> length (ImageBytes c) \<and> RelocDirSize c \<noteq> 0 \<and>
        reloc_list cfg c = Inr es \<longrightarrow> length es \<le> length (FixupData rt)))"
proof (intro conjI allI impI)
  let ?n = "8 + 4 * unat (RelocDirSize c)"
  have lit: "unat (4 :: u32) = 4" "unat (8 :: u32) = 8"
    by simp_all
  have mul: "unat (RelocDirSize c * 4) = 4 * unat (RelocDirSize c)" if "unat (RelocDirSize c) * 4 < 2 ^ 32"
    using that by (simp add: unat_word_ariths(2))
  show size: "PeCoffLoaderGetRuntimeContextSize c = (if 2 ^ 32 \<le> ?n then fail RETURN_UNSUPPORTED else Inr (word_of_nat ?n))"
  proof (cases "unat (RelocDirSize c) * 4 < 2 ^ 32")
    case True
    have "RelocDirSize c * 4 + 8 = word_of_nat ?n"
      by (simp add: algebra_simps)
    with True assms mul [OF True] lit show ?thesis
      by (simp add: PeCoffLoaderGetRuntimeContextSize_def MulU32_eq AddU32_eq add.commute)
  next
    case False
    with assms lit show ?thesis
      by (simp add: PeCoffLoaderGetRuntimeContextSize_def MulU32_eq)
  qed
  fix sz cfg es and rt :: PE_COFF_LOADER_RUNTIME_CONTEXT
  assume rt: "PeCoffLoaderGetRuntimeContextSize c = Inr sz \<and> length (FixupData rt) = (unat sz - 8) div 8"
  then have "word_of_nat ?n = sz" "?n < 2 ^ 32"
    using size by (simp_all split: if_splits)
  then have sz: "unat sz = ?n"
    using of_nat_inverse [of ?n sz] by simp
  show wf: "wf_runtime_buffer c (Some rt) sz"
    using rt sz by (simp add: wf_runtime_buffer_def)
  assume c: "wf_context cfg c \<and> unat (SizeOfImage c) \<le> length (ImageBytes c) \<and> RelocDirSize c \<noteq> 0 \<and> reloc_list cfg c = Inr es"
  then have "relocatable c (ImageBytes c)"
    using wf_context_reloc_image [of cfg c] by (simp add: wf_reloc_image_def)
  then have "2 * length es \<le> unat (RelocDirSize c)"
    using c by (blast intro: reloc_list_length)
  then show "length es \<le> length (FixupData rt)"
    using rt sz by simp
qed

theorem PeCoffLoaderGetRuntimeContextSize_sufficient_witness:
  "\<not> RelocsStripped sample_loaded \<and> PeCoffLoaderGetRuntimeContextSize sample_loaded = Inr 56"
  using PeCoffLoaderGetRuntimeContextSize_sufficient [of sample_loaded] by (simp add: sample_loaded_simps)

end
