(* ===== verification/PeDirectories.thy ===== *)
theory PeDirectories
  imports PeCoffInit
begin

text \<open>
  The data directory of an accepted file as \<^verbatim>\<open>PeCoffHash.c\<close>, \<^verbatim>\<open>PeCoffDebug.c\<close> and \<^verbatim>\<open>PeCoffHii.c\<close>
  access it: NumberOfRvaAndSizes and the entries are read again from the headers of the file, at the
  offsets of the PE32 or the PE32+ header.
\<close>

fun OFFSET_OF_DataDirectory :: "PE_COFF_LOADER_IMAGE_TYPE \<Rightarrow> u32" where
  "OFFSET_OF_DataDirectory PeCoffLoaderTypePe32 = 120"
| "OFFSET_OF_DataDirectory PeCoffLoaderTypePe32Plus = 136"

fun OFFSET_OF_NumberOfRvaAndSizes :: "PE_COFF_LOADER_IMAGE_TYPE \<Rightarrow> u32" where
  "OFFSET_OF_NumberOfRvaAndSizes PeCoffLoaderTypePe32 = 116"
| "OFFSET_OF_NumberOfRvaAndSizes PeCoffLoaderTypePe32Plus = 132"

text \<open>The entry with the given index as VirtualAddress and Size.\<close>

definition GetDataDirectory :: "pe_context \<Rightarrow> u32 \<Rightarrow> (u32 \<times> u32) result" where
  "GetDataDirectory Context Index =
     (let b = FileBytes Context; o' = unat (ExeHdrOffset Context);
          Entry = o' + unat (OFFSET_OF_DataDirectory (ImageType Context)) + sizeof_DATA_DIRECTORY * unat Index
      in bindR (ReadUnaligned32 b (o' + unat (OFFSET_OF_NumberOfRvaAndSizes (ImageType Context)))) (\<lambda>NumberOfRvaAndSizes.
         if NumberOfRvaAndSizes \<le> Index then fail RETURN_NOT_FOUND
         else
           bindR (ReadUnaligned32 b Entry) (\<lambda>Rva.
           bindR (ReadUnaligned32 b (Entry + 4)) (\<lambda>DirSize.
           Inr (Rva, DirSize)))))"

lemma offset_words:
  "unat (OFFSET_OF_DataDirectory t) = (case t of PeCoffLoaderTypePe32 \<Rightarrow> 120 | PeCoffLoaderTypePe32Plus \<Rightarrow> 136)"
  "unat (OFFSET_OF_NumberOfRvaAndSizes t) = (case t of PeCoffLoaderTypePe32 \<Rightarrow> 116 | PeCoffLoaderTypePe32Plus \<Rightarrow> 132)"
  by (cases t; simp)+

lemma directory_bounds:
  assumes "wf_context cfg c"
  shows "DataDirectoryOffset c + sizeof_DATA_DIRECTORY * unat (RvaAndSizes c) \<le> length (FileBytes c)"
    "DataDirectoryOffset c + sizeof_DATA_DIRECTORY * unat (RvaAndSizes c) \<le> unat (SizeOfHeaders c)"
    "unat (SizeOfHeaders c) \<le> length (FileBytes c)" "length (FileBytes c) = unat (FileSize c)"
    "unat (ExeHdrOffset c) + 120 \<le> DataDirectoryOffset c"
    "DataDirectoryOffset c = unat (ExeHdrOffset c) + unat (OFFSET_OF_DataDirectory (ImageType c))"
  using wf_contextD(1,8) [OF assms]
  by (auto simp: wf_headers_def wf_directories_def DataDirectoryOffset_def offset_words split: PE_COFF_LOADER_IMAGE_TYPE.splits)

lemma read_RvaAndSizes:
  assumes "wf_context cfg c"
  shows "ReadUnaligned32 (FileBytes c) (unat (ExeHdrOffset c) + unat (OFFSET_OF_NumberOfRvaAndSizes (ImageType c))) =
    Inr (RvaAndSizes c)"
  using directory_bounds(1) [OF assms]
  by (auto simp: ReadUnaligned32_def read_word_def RvaAndSizes_def DataDirectoryOffset_def offset_words
      split: PE_COFF_LOADER_IMAGE_TYPE.splits)

lemma GetDataDirectory_exact:
  assumes "wf_context cfg c"
  shows "GetDataDirectory c i =
    (if RvaAndSizes c \<le> i then fail RETURN_NOT_FOUND
     else Inr (get_word 4 (FileBytes c) (DataDirectoryOffset c + sizeof_DATA_DIRECTORY * unat i),
               get_word 4 (FileBytes c) (DataDirectoryOffset c + sizeof_DATA_DIRECTORY * unat i + 4)))"
proof -
  have "DataDirectoryOffset c + sizeof_DATA_DIRECTORY * unat i + 8 \<le> length (FileBytes c)" if "\<not> RvaAndSizes c \<le> i"
    using directory_bounds(1) [OF assms] that by (simp add: word_le_nat_alt)
  then show ?thesis
    using directory_bounds(6) [OF assms]
    by (auto simp: GetDataDirectory_def Let_def read_RvaAndSizes [OF assms]) (simp_all add: ReadUnaligned32_def read_word_def)
qed

lemma GetDataDirectory_safe: "wf_context cfg c \<Longrightarrow> safe (GetDataDirectory c i)"
  by (simp add: GetDataDirectory_exact)

end
