(* ===== verification/PeCoffHash.thy ===== *)
theory PeCoffHash
  imports PeDirectories "HOL-Library.Multiset"
begin

text \<open>
  Image hashing and certificates (\<^verbatim>\<open>PeCoffHash.c\<close>): the Authenticode hash over the headers, the
  sections in the order of their file offsets and the trailing data, and the iteration over the
  certificates of the security directory. The hash algorithm is a parameter, as it is in the code.
\<close>

section \<open>Sorting the sections\<close>

text \<open>Accesses to the allocated table of section pointers.\<close>

definition array_get :: "'a list \<Rightarrow> nat \<Rightarrow> 'a result" where
  "array_get xs i = (if i < length xs then Inr (xs ! i) else Inl OutOfBounds)"

definition array_put :: "'a list \<Rightarrow> nat \<Rightarrow> 'a \<Rightarrow> 'a list result" where
  "array_put xs i v = (if i < length xs then Inr (xs[i := v]) else Inl OutOfBounds)"

text \<open>The inner loop shifts the larger elements up and yields the position that became free.\<close>

fun SortSectionsShift ::
  "EFI_IMAGE_SECTION_HEADER list \<Rightarrow> u32 \<Rightarrow> nat \<Rightarrow> (EFI_IMAGE_SECTION_HEADER list \<times> nat) result" where
  "SortSectionsShift SortedSections Key 0 = Inr (SortedSections, 0)"
| "SortSectionsShift SortedSections Key (Suc p) =
     bindR (array_get SortedSections p) (\<lambda>s.
     if PointerToRawData s > Key then
       bindR (array_put SortedSections (Suc p) s) (\<lambda>SortedSections. SortSectionsShift SortedSections Key p)
     else Inr (SortedSections, Suc p))"

fun SortSectionsLoop ::
  "EFI_IMAGE_SECTION_HEADER list \<Rightarrow> nat \<Rightarrow> EFI_IMAGE_SECTION_HEADER list \<Rightarrow>
   EFI_IMAGE_SECTION_HEADER list result" where
  "SortSectionsLoop [] SectionIndex SortedSections = Inr SortedSections"
| "SortSectionsLoop (s # ss) SectionIndex SortedSections =
     bindR (SortSectionsShift SortedSections (PointerToRawData s) SectionIndex) (\<lambda>(SortedSections, SectionPos).
     bindR (array_put SortedSections SectionPos s) (\<lambda>SortedSections.
     SortSectionsLoop ss (Suc SectionIndex) SortedSections))"

text \<open>\<open>Pool\<close> is the content of the memory that AllocatePool returned.\<close>

definition SortSections ::
  "EFI_IMAGE_SECTION_HEADER list \<Rightarrow> EFI_IMAGE_SECTION_HEADER list \<Rightarrow> EFI_IMAGE_SECTION_HEADER list result" where
  "SortSections Table Pool =
     (case Table of
        [] \<Rightarrow> Inl OutOfBounds
      | s # ss \<Rightarrow> bindR (array_put Pool 0 s) (SortSectionsLoop ss 1))"

section \<open>The Authenticode hash\<close>

type_synonym 'h hash_update = "'h \<Rightarrow> u8 list \<Rightarrow> bool \<times> 'h"

text \<open>A call of the hash function on a range of the file.\<close>

definition HashRange :: "'h hash_update \<Rightarrow> u8 list \<Rightarrow> 'h \<Rightarrow> nat \<Rightarrow> nat \<Rightarrow> (bool \<times> 'h) result" where
  "HashRange HashUpdate b HashContext off n =
     bindR (read_bytes b off n) (\<lambda>data. Inr (HashUpdate HashContext data))"

fun HashSectionsLoop ::
  "loader_cfg \<Rightarrow> 'h hash_update \<Rightarrow> u8 list \<Rightarrow> EFI_IMAGE_SECTION_HEADER list \<Rightarrow> 'h \<Rightarrow> u32 \<Rightarrow> u32 \<Rightarrow>
   (bool \<times> 'h \<times> u32) result" where
  "HashSectionsLoop cfg HashUpdate b [] HashContext SectionTop CurHashSize = Inr (True, HashContext, CurHashSize)"
| "HashSectionsLoop cfg HashUpdate b (s # ss) HashContext SectionTop CurHashSize =
     (if PcdImageLoaderHashProhibitOverlap cfg \<and> SectionTop > PointerToRawData s
      then Inr (False, HashContext, CurHashSize)
      else
        let SectionTop =
              (if PcdImageLoaderHashProhibitOverlap cfg then PointerToRawData s + SizeOfRawData s else SectionTop)
        in if SizeOfRawData s > 0 then
             bindR (HashRange HashUpdate b HashContext (unat (PointerToRawData s)) (unat (SizeOfRawData s)))
               (\<lambda>(Result, HashContext).
             if \<not> Result then Inr (False, HashContext, CurHashSize)
             else if PcdImageLoaderHashProhibitOverlap cfg then
               HashSectionsLoop cfg HashUpdate b ss HashContext SectionTop (CurHashSize + SizeOfRawData s)
             else
               let (Overflow, CurHashSize) = BaseOverflowAddU32 CurHashSize (SizeOfRawData s)
               in if Overflow then Inr (False, HashContext, CurHashSize)
                  else HashSectionsLoop cfg HashUpdate b ss HashContext SectionTop CurHashSize)
           else HashSectionsLoop cfg HashUpdate b ss HashContext SectionTop CurHashSize)"

text \<open>
  \<open>Pool\<close> is None where the allocation fails; SumBytesHashed is not written then, and the caller does
  not read it.
\<close>

definition InternalHashSections ::
  "loader_cfg \<Rightarrow> pe_context \<Rightarrow> EFI_IMAGE_SECTION_HEADER list option \<Rightarrow> 'h hash_update \<Rightarrow> 'h \<Rightarrow>
   (bool \<times> 'h \<times> u32) result" where
  "InternalHashSections cfg Context Pool HashUpdate HashContext =
     (case Pool of
        None \<Rightarrow> Inr (False, HashContext, 0)
      | Some SortedSections \<Rightarrow>
          bindR (PeCoffGetSectionTable Context) (\<lambda>Table.
          bindR (SortSections Table SortedSections) (\<lambda>SortedSections.
          HashSectionsLoop cfg HashUpdate (FileBytes Context) SortedSections HashContext 0 0)))"

abbreviation (input) OFFSET_OF_CheckSum :: u32 where "OFFSET_OF_CheckSum \<equiv> 88"

text \<open>Steps 3 to 7: the headers without the checksum and the Certificate Table entry.\<close>

definition HashHeaders ::
  "pe_context \<Rightarrow> u32 \<Rightarrow> 'h hash_update \<Rightarrow> 'h \<Rightarrow> (bool \<times> 'h) result" where
  "HashHeaders Context NumberOfRvaAndSizes HashUpdate HashContext =
     (let b = FileBytes Context;
          ChecksumOffset = ExeHdrOffset Context + OFFSET_OF_CheckSum;
          SecurityDirOffset = ExeHdrOffset Context + OFFSET_OF_DataDirectory (ImageType Context) + 4 * 8
      in bindR (HashRange HashUpdate b HashContext 0 (unat ChecksumOffset)) (\<lambda>(Result, HashContext).
         if \<not> Result then Inr (False, HashContext)
         else
           let CurrentOffset = ChecksumOffset + 4 in
           bindR (if 4 < NumberOfRvaAndSizes then
                    bindR (HashRange HashUpdate b HashContext (unat CurrentOffset) (unat (SecurityDirOffset - CurrentOffset)))
                      (\<lambda>(Result, HashContext). Inr (Result, HashContext, SecurityDirOffset + 8))
                  else Inr (True, HashContext, CurrentOffset)) (\<lambda>(Result, HashContext, CurrentOffset).
           if \<not> Result then Inr (False, HashContext)
           else HashRange HashUpdate b HashContext (unat CurrentOffset) (unat (SizeOfHeaders Context - CurrentOffset)))))"

definition PeCoffHashImageAuthenticode ::
  "loader_cfg \<Rightarrow> pe_context \<Rightarrow> EFI_IMAGE_SECTION_HEADER list option \<Rightarrow> 'h hash_update \<Rightarrow> 'h \<Rightarrow>
   (bool \<times> 'h) result" where
  "PeCoffHashImageAuthenticode cfg Context Pool HashUpdate HashContext =
     (let b = FileBytes Context in
      bindR (ReadUnaligned32 b (unat (ExeHdrOffset Context) + unat (OFFSET_OF_NumberOfRvaAndSizes (ImageType Context))))
        (\<lambda>NumberOfRvaAndSizes.
      bindR (if 4 < NumberOfRvaAndSizes
             then ReadUnaligned32 b (unat (ExeHdrOffset Context) + unat (OFFSET_OF_DataDirectory (ImageType Context)) + 4 * 8 + 4)
             else Inr 0) (\<lambda>SecurityDirSize.
      bindR (HashHeaders Context NumberOfRvaAndSizes HashUpdate HashContext) (\<lambda>(Result, HashContext).
      if \<not> Result then Inr (False, HashContext)
      else
        bindR (InternalHashSections cfg Context Pool HashUpdate HashContext) (\<lambda>(Result, HashContext, SumBytesHashed).
        if \<not> Result then Inr (False, HashContext)
        else
          let (Overflow, SumBytesHashed) = BaseOverflowAddU32 SumBytesHashed (SizeOfHeaders Context)
          in if Overflow then Inr (False, HashContext)
             else
               let FileSize' = FileSize Context - SecurityDirSize in
               if SumBytesHashed < FileSize' then
                 HashRange HashUpdate b HashContext (unat SumBytesHashed) (unat (FileSize' - SumBytesHashed))
               else Inr (True, HashContext))))))"

section \<open>Certificates\<close>

text \<open>A certificate pointer is its offset in the file.\<close>

abbreviation (input) IMAGE_CERTIFICATE_ALIGN :: u32 where "IMAGE_CERTIFICATE_ALIGN \<equiv> 8"
abbreviation (input) ALIGNOF_WIN_CERTIFICATE :: u32 where "ALIGNOF_WIN_CERTIFICATE \<equiv> 4"

definition strict_certificates :: "loader_cfg \<Rightarrow> bool" where
  "strict_certificates cfg \<longleftrightarrow>
     PcdImageLoaderAlignmentPolicy cfg AND PCD_ALIGNMENT_POLICY_CERTIFICATE_SIZES = 0"

text \<open>PeCoffGetFirstCertificate after its ASSERTs.\<close>

definition FirstCertificate :: "loader_cfg \<Rightarrow> pe_context \<Rightarrow> nat result" where
  "FirstCertificate cfg Context =
     (if SecDirSize Context = 0 then fail RETURN_NOT_FOUND
      else
        bindR (ReadUnaligned32 (FileBytes Context) (unat (SecDirOffset Context))) (\<lambda>dwLength.
        if dwLength < word_of_nat sizeof_WIN_CERTIFICATE \<or> dwLength > SecDirSize Context
        then fail RETURN_VOLUME_CORRUPTED
        else if strict_certificates cfg \<and> \<not> IS_ALIGNED dwLength IMAGE_CERTIFICATE_ALIGN
        then fail RETURN_VOLUME_CORRUPTED
        else Inr (unat (SecDirOffset Context))))"

definition PeCoffGetFirstCertificate :: "loader_cfg \<Rightarrow> pe_context \<Rightarrow> nat result" where
  "PeCoffGetFirstCertificate cfg Context =
     assertR (SecDirOffset Context mod ALIGNOF_WIN_CERTIFICATE \<noteq> 0)
    (assertR (SecDirSize Context = 0 \<or> word_of_nat sizeof_WIN_CERTIFICATE \<le> SecDirSize Context)
    (FirstCertificate cfg Context))"

definition PeCoffGetNextCertificate :: "loader_cfg \<Rightarrow> pe_context \<Rightarrow> nat \<Rightarrow> nat result" where
  "PeCoffGetNextCertificate cfg Context Certificate =
     assertR (IS_ALIGNED (SecDirSize Context) IMAGE_CERTIFICATE_ALIGN)
     (let b = FileBytes Context;
          CertOffset = word_of_nat Certificate - SecDirOffset Context
      in bindR (ReadUnaligned32 b Certificate) (\<lambda>dwLength.
         let CertSize = (if strict_certificates cfg then dwLength else ALIGN_VALUE dwLength IMAGE_CERTIFICATE_ALIGN);
             CertOffset = CertOffset + CertSize
         in assertR (CertOffset \<le> SecDirSize Context)
            (if CertOffset = SecDirSize Context then fail RETURN_NOT_FOUND
             else if SecDirSize Context - CertOffset < word_of_nat sizeof_WIN_CERTIFICATE then fail RETURN_VOLUME_CORRUPTED
             else
               let Next = unat (SecDirOffset Context) + unat CertOffset in
               bindR (ReadUnaligned32 b Next) (\<lambda>dwLength.
               if dwLength < word_of_nat sizeof_WIN_CERTIFICATE then fail RETURN_VOLUME_CORRUPTED
               else if strict_certificates cfg \<and> \<not> IS_ALIGNED dwLength IMAGE_CERTIFICATE_ALIGN
               then fail RETURN_VOLUME_CORRUPTED
               else
                 let (Overflow, CertEnd) = BaseOverflowAddU32 CertOffset dwLength
                 in if Overflow \<or> CertEnd > SecDirSize Context then fail RETURN_VOLUME_CORRUPTED
                    else Inr Next))))"

section \<open>The sorted section table\<close>

definition insert_last :: "EFI_IMAGE_SECTION_HEADER \<Rightarrow> EFI_IMAGE_SECTION_HEADER list \<Rightarrow> EFI_IMAGE_SECTION_HEADER list" where
  "insert_last s ys =
     (let above = (\<lambda>y. PointerToRawData s < PointerToRawData y)
      in rev (dropWhile above (rev ys)) @ s # rev (takeWhile above (rev ys)))"

lemma SortSectionsShift_exact:
  "\<exists>h'. SortSectionsShift (ys @ h # zs) k (length ys) =
     Inr (rev (dropWhile (\<lambda>y. k < PointerToRawData y) (rev ys)) @ h' # rev (takeWhile (\<lambda>y. k < PointerToRawData y) (rev ys)) @ zs,
          length (dropWhile (\<lambda>y. k < PointerToRawData y) (rev ys)))"
proof (induction ys arbitrary: h zs rule: rev_induct)
  case (snoc y ys)
  then show ?case
    using snoc [of y "y # zs"] by (auto simp: array_get_def array_put_def nth_append list_update_append)
qed simp

lemma SortSectionsLoop_exact:
  "length junk = length ss \<Longrightarrow>
     SortSectionsLoop ss (length ys) (ys @ junk) = Inr (foldl (\<lambda>ys s. insert_last s ys) ys ss)"
proof (induction ss arbitrary: ys junk)
  case (Cons s ss)
  obtain h junk' where junk: "junk = h # junk'" "length junk' = length ss"
    using Cons.prems by (cases junk) auto
  obtain h' where shift: "SortSectionsShift (ys @ h # junk') (PointerToRawData s) (length ys) =
     Inr (rev (dropWhile (\<lambda>y. PointerToRawData s < PointerToRawData y) (rev ys)) @ h' #
          rev (takeWhile (\<lambda>y. PointerToRawData s < PointerToRawData y) (rev ys)) @ junk',
          length (dropWhile (\<lambda>y. PointerToRawData s < PointerToRawData y) (rev ys)))"
    using SortSectionsShift_exact by blast
  have "length (insert_last s ys) = Suc (length ys)"
    using length_append [of "takeWhile (\<lambda>y. PointerToRawData s < PointerToRawData y) (rev ys)"
        "dropWhile (\<lambda>y. PointerToRawData s < PointerToRawData y) (rev ys)"]
    by (simp add: insert_last_def Let_def)
  with Cons.IH [OF junk(2), of "insert_last s ys"] show ?case
    by (simp add: junk(1) shift array_put_def list_update_append insert_last_def Let_def)
qed simp

lemma insert_last_sorted:
  assumes "sorted (map PointerToRawData ys)"
  shows "mset (insert_last s ys) = add_mset s (mset ys)"
    "sorted (map PointerToRawData (insert_last s ys))"
    "filter (\<lambda>x. k = PointerToRawData x) (insert_last s ys) = filter (\<lambda>x. k = PointerToRawData x) (ys @ [s])"
proof -
  define P :: "EFI_IMAGE_SECTION_HEADER \<Rightarrow> bool" where "P = (\<lambda>y. PointerToRawData s < PointerToRawData y)"
  define us vs where "us = rev (dropWhile P (rev ys))" and "vs = rev (takeWhile P (rev ys))"
  have ys: "ys = us @ vs" and ins: "insert_last s ys = us @ s # vs"
    by (simp_all add: us_def vs_def insert_last_def Let_def P_def flip: rev_append)
  have above: "\<forall>y \<in> set vs. PointerToRawData s < PointerToRawData y"
    by (auto simp: vs_def P_def dest: set_takeWhileD)
  have us_sorted: "sorted (map PointerToRawData us)" "sorted (map PointerToRawData vs)"
    using assms by (simp_all add: ys sorted_append)
  have below: "\<forall>y \<in> set us. PointerToRawData y \<le> PointerToRawData s"
  proof (cases "us = []")
    case False
    then have "\<not> P (last us)"
      using hd_dropWhile [of P "rev ys"] by (simp add: us_def last_rev)
    moreover have "PointerToRawData y \<le> PointerToRawData (last us)" if "y \<in> set us" for y
      using us_sorted(1) that False by (cases us rule: rev_cases) (auto simp: sorted_append)
    ultimately show ?thesis
      by (force simp: P_def not_less)
  qed simp
  show "mset (insert_last s ys) = add_mset s (mset ys)"
    unfolding ins by (simp add: ys)
  show "sorted (map PointerToRawData (insert_last s ys))"
    using us_sorted below above by (fastforce simp: ins sorted_append)
  show "filter (\<lambda>x. k = PointerToRawData x) (insert_last s ys) = filter (\<lambda>x. k = PointerToRawData x) (ys @ [s])"
  proof -
    have "filter (\<lambda>x. k = PointerToRawData x) vs = []" if "k = PointerToRawData s"
      using above that by (auto simp: filter_empty_conv)
    then show ?thesis
      unfolding ins by (auto simp: ys)
  qed
qed

lemma insert_last_sort_key: "insert_last s (sort_key PointerToRawData ys) = sort_key PointerToRawData (ys @ [s])"
proof (rule properties_for_sort_key [symmetric])
  show "mset (insert_last s (sort_key PointerToRawData ys)) = mset (ys @ [s])"
    by (simp add: insert_last_sorted(1))
  show "sorted (map PointerToRawData (insert_last s (sort_key PointerToRawData ys)))"
    by (simp add: insert_last_sorted(2))
  fix x
  have "filter (\<lambda>y. PointerToRawData x = PointerToRawData y) (sort_key PointerToRawData ys) =
      filter (\<lambda>y. PointerToRawData x = PointerToRawData y) ys"
    using sort_key_stable [of PointerToRawData "PointerToRawData x" ys] by (simp only: eq_commute)
  then show "filter (\<lambda>y. PointerToRawData x = PointerToRawData y) (insert_last s (sort_key PointerToRawData ys)) =
      filter (\<lambda>y. PointerToRawData x = PointerToRawData y) (ys @ [s])"
    by (simp add: insert_last_sorted(3))
qed

lemma SortSections_exact:
  assumes "ss \<noteq> []" "length pool = length ss"
  shows "SortSections ss pool = Inr (sort_key PointerToRawData ss)"
proof -
  have fold: "foldl (\<lambda>ys s. insert_last s ys) (sort_key PointerToRawData pre) ss' = sort_key PointerToRawData (pre @ ss')" for pre ss'
    by (induction ss' arbitrary: pre) (simp_all add: insert_last_sort_key)
  obtain s ss' h junk where ss: "ss = s # ss'" "pool = h # junk" "length junk = length ss'"
    using assms by (cases ss; cases pool) auto
  then show ?thesis
    using SortSectionsLoop_exact [OF ss(3), of "[s]"] fold [of "[s]" ss']
    by (simp add: SortSections_def array_put_def)
qed

section \<open>What is hashed\<close>

text \<open>The specification: a hash over a list of file ranges, which stops where the algorithm fails.\<close>

fun hash_ranges :: "'h hash_update \<Rightarrow> u8 list \<Rightarrow> 'h \<Rightarrow> (nat \<times> nat) list \<Rightarrow> bool \<times> 'h" where
  "hash_ranges hu b h [] = (True, h)"
| "hash_ranges hu b h ((off, n) # rs) =
     (case hu h (take n (drop off b)) of
        (ok, h') \<Rightarrow> if ok then hash_ranges hu b h' rs else (False, h'))"

definition range_bytes :: "u8 list \<Rightarrow> nat \<times> nat \<Rightarrow> u8 list" where
  "range_bytes b = (\<lambda>(off, n). take n (drop off b))"

definition raw_range :: "EFI_IMAGE_SECTION_HEADER \<Rightarrow> nat \<times> nat" where
  "raw_range s = (unat (PointerToRawData s), unat (SizeOfRawData s))"

definition section_ranges :: "EFI_IMAGE_SECTION_HEADER list \<Rightarrow> (nat \<times> nat) list" where
  "section_ranges ss = map raw_range (filter (\<lambda>s. SizeOfRawData s \<noteq> 0) ss)"

definition raw_total :: "EFI_IMAGE_SECTION_HEADER list \<Rightarrow> nat" where
  "raw_total ss = sum_list (map (\<lambda>s. unat (SizeOfRawData s)) ss)"

text \<open>No section starts in the file before the end of the previous one.\<close>

fun raw_chain :: "nat \<Rightarrow> EFI_IMAGE_SECTION_HEADER list \<Rightarrow> bool" where
  "raw_chain tp [] = True"
| "raw_chain tp (s # ss) = (tp \<le> unat (PointerToRawData s) \<and> raw_chain (raw_end s) ss)"

abbreviation in_file :: "u8 list \<Rightarrow> EFI_IMAGE_SECTION_HEADER list \<Rightarrow> bool" where
  "in_file b ss \<equiv> \<forall>s \<in> set ss. SizeOfRawData s \<noteq> 0 \<longrightarrow> raw_end s \<le> length b"

lemma raw_total_simps [simp]:
  "raw_total [] = 0" "raw_total (s # ss) = unat (SizeOfRawData s) + raw_total ss"
  by (simp_all add: raw_total_def)

lemma section_ranges_simps [simp]:
  "section_ranges [] = []"
  "section_ranges (s # ss) = (if SizeOfRawData s = 0 then section_ranges ss else raw_range s # section_ranges ss)"
  by (simp_all add: section_ranges_def)

lemma raw_total_sort [simp]: "raw_total (sort_key f ss) = raw_total ss"
  by (simp add: raw_total_def flip: sum_mset_sum_list)

lemma raw_chain_total:
  "raw_chain tp ss \<Longrightarrow> in_file b ss \<Longrightarrow> raw_total ss = 0 \<or> tp + raw_total ss \<le> length b"
  by (induction ss arbitrary: tp) (fastforce simp: unat_eq_0)+

lemma HashRange_exact: "off + n \<le> length b \<Longrightarrow> HashRange hu b h off n = Inr (hu h (take n (drop off b)))"
  by (simp add: HashRange_def read_bytes_def)

lemma hash_ranges_append:
  "hash_ranges hu b h (xs @ ys) =
     (case hash_ranges hu b h xs of (ok, h') \<Rightarrow> if ok then hash_ranges hu b h' ys else (False, h'))"
  by (induction hu b h xs rule: hash_ranges.induct) (auto split: prod.splits)

text \<open>The section loop hashes the ranges of the sections unless they overlap or their sizes overflow.\<close>

definition sections_hashable :: "loader_cfg \<Rightarrow> nat \<Rightarrow> nat \<Rightarrow> EFI_IMAGE_SECTION_HEADER list \<Rightarrow> bool" where
  "sections_hashable cfg tp cur ss \<longleftrightarrow>
     (if PcdImageLoaderHashProhibitOverlap cfg then raw_chain tp ss else cur + raw_total ss < 2 ^ 32)"

lemma raw_end_word:
  assumes "SizeOfRawData s \<noteq> 0 \<longrightarrow> raw_end s \<le> length b" "length b < 2 ^ 32"
  shows "unat (PointerToRawData s + SizeOfRawData s) = raw_end s"
  using assms u32_less [of "PointerToRawData s"] by (cases "SizeOfRawData s = 0") (simp_all add: unat_add_u32)

lemma HashSectionsLoop_exact:
  assumes "in_file b ss" "length b < 2 ^ 32" "PcdImageLoaderHashProhibitOverlap cfg \<longrightarrow> unat cur \<le> unat tp"
  shows "if sections_hashable cfg (unat tp) (unat cur) ss
    then \<exists>cur'. HashSectionsLoop cfg hu b ss h tp cur =
           Inr (fst (hash_ranges hu b h (section_ranges ss)), snd (hash_ranges hu b h (section_ranges ss)), cur') \<and>
         (fst (hash_ranges hu b h (section_ranges ss)) \<longrightarrow> unat cur' = unat cur + raw_total ss)
    else \<exists>h' cur'. HashSectionsLoop cfg hu b ss h tp cur = Inr (False, h', cur')"
  using assms
proof (induction ss arbitrary: h tp cur)
  case (Cons s ss)
  let ?size = "SizeOfRawData s" and ?ptr = "PointerToRawData s"
  have tp': "unat (?ptr + ?size) = raw_end s"
    using Cons.prems by (intro raw_end_word) auto
  show ?case
  proof (cases "PcdImageLoaderHashProhibitOverlap cfg")
    case True
    then have cur': "unat (cur + ?size) = unat cur + unat ?size" if "unat tp \<le> unat ?ptr"
      using that Cons.prems tp' u32_less [of "?ptr + ?size"] by (simp add: unat_add_u32)
    have IH: "if raw_chain (raw_end s) ss
        then \<exists>cur'. HashSectionsLoop cfg hu b ss h' (?ptr + ?size) (cur + ?size) =
               Inr (fst (hash_ranges hu b h' (section_ranges ss)), snd (hash_ranges hu b h' (section_ranges ss)), cur') \<and>
             (fst (hash_ranges hu b h' (section_ranges ss)) \<longrightarrow> unat cur' = unat cur + (unat ?size + raw_total ss))
        else \<exists>h'' cur'. HashSectionsLoop cfg hu b ss h' (?ptr + ?size) (cur + ?size) = Inr (False, h'', cur')"
      if "unat tp \<le> unat ?ptr" for h'
      using Cons.IH [of "cur + ?size" "?ptr + ?size" h'] Cons.prems True that cur' tp'
      by (simp add: sections_hashable_def add.assoc cong: if_cong)
    show ?thesis
    proof (cases "unat tp \<le> unat ?ptr")
      case le: True
      then show ?thesis
        using True IH [OF le] Cons.prems
        by (auto simp: sections_hashable_def word_less_nat_alt Let_def HashRange_exact raw_range_def unat_gt_0 not_less
            split: prod.splits if_splits)
    qed (use True in \<open>simp add: sections_hashable_def word_less_nat_alt\<close>)
  next
    case False
    have IH: "if unat cur + (unat ?size + raw_total ss) < 2 ^ 32
        then \<exists>cur'. HashSectionsLoop cfg hu b ss h' tp (cur + ?size) =
               Inr (fst (hash_ranges hu b h' (section_ranges ss)), snd (hash_ranges hu b h' (section_ranges ss)), cur') \<and>
             (fst (hash_ranges hu b h' (section_ranges ss)) \<longrightarrow> unat cur' = unat cur + (unat ?size + raw_total ss))
        else \<exists>h'' cur'. HashSectionsLoop cfg hu b ss h' tp (cur + ?size) = Inr (False, h'', cur')"
      if "unat cur + unat ?size < 2 ^ 32" for h'
      using Cons.IH [of "cur + ?size" tp h'] Cons.prems False that
      by (simp add: sections_hashable_def unat_add_u32 add.assoc cong: if_cong)
    show ?thesis
    proof (cases "unat cur + unat ?size < 2 ^ 32")
      case fits: True
      then show ?thesis
        using False IH [OF fits] Cons.prems
        by (auto simp: sections_hashable_def Let_def HashRange_exact raw_range_def AddU32_eq word_less_nat_alt unat_gt_0
            split: prod.splits if_splits)
    next
      case big: False
      then have "?size \<noteq> 0"
        using u32_less [of cur] by auto
      then show ?thesis
        using False big Cons.prems
        by (auto simp: sections_hashable_def Let_def HashRange_exact AddU32_eq word_less_nat_alt unat_gt_0
            split: prod.splits)
    qed
  qed
qed (simp add: sections_hashable_def u32_less)

definition sorted_sections :: "pe_context \<Rightarrow> EFI_IMAGE_SECTION_HEADER list" where
  "sorted_sections c = sort_key PointerToRawData (Sections c)"

definition header_ranges :: "pe_context \<Rightarrow> (nat \<times> nat) list" where
  "header_ranges c =
     (let sum = unat (ExeHdrOffset c) + 88; dir = DataDirectoryOffset c + 4 * sizeof_DATA_DIRECTORY in
      if 4 < RvaAndSizes c
      then [(0, sum), (sum + 4, dir - (sum + 4)), (dir + 8, unat (SizeOfHeaders c) - (dir + 8))]
      else [(0, sum), (sum + 4, unat (SizeOfHeaders c) - (sum + 4))])"

definition trailing_ranges :: "pe_context \<Rightarrow> (nat \<times> nat) list" where
  "trailing_ranges c =
     (let hashed = unat (SizeOfHeaders c) + raw_total (Sections c);
          rest = unat (FileSize c) - unat (SecDirSize c)
      in if hashed < rest then [(hashed, rest - hashed)] else [])"

definition authenticode_ranges :: "pe_context \<Rightarrow> (nat \<times> nat) list" where
  "authenticode_ranges c = header_ranges c @ section_ranges (sorted_sections c) @ trailing_ranges c"

definition hashable :: "loader_cfg \<Rightarrow> pe_context \<Rightarrow> bool" where
  "hashable cfg c \<longleftrightarrow>
     (PcdImageLoaderHashProhibitOverlap cfg \<longrightarrow> raw_chain 0 (sorted_sections c)) \<and>
     unat (SizeOfHeaders c) + raw_total (Sections c) < 2 ^ 32"

lemma read_security_dir_size:
  assumes "wf_context cfg c"
  shows "(if 4 < RvaAndSizes c
     then ReadUnaligned32 (FileBytes c) (unat (ExeHdrOffset c) + unat (OFFSET_OF_DataDirectory (ImageType c)) + 4 * 8 + 4)
     else Inr 0) = Inr (SecDirSize c)"
  using directory_bounds(1,6) [OF assms] wf_contextD(8) [OF assms]
  by (auto simp: ReadUnaligned32_def read_word_def security_dir_size_def wf_directories_def directory_index)

lemma HashHeaders_exact:
  assumes "wf_context cfg c"
  shows "HashHeaders c (RvaAndSizes c) hu h = Inr (hash_ranges hu (FileBytes c) h (header_ranges c))"
proof -
  note bounds = directory_bounds [OF assms]
  define S D where "S = ExeHdrOffset c + 88"
    and "D = ExeHdrOffset c + OFFSET_OF_DataDirectory (ImageType c) + 4 * 8"
  have small: "length (FileBytes c) < 2 ^ 32"
    using bounds(4) u32_less [of "FileSize c"] by simp
  have S: "unat S = unat (ExeHdrOffset c) + 88"
    using bounds(1,5) small by (simp add: S_def unat_add_u32)
  then have S4: "unat (S + 4) = unat (ExeHdrOffset c) + 88 + 4"
    using bounds(1,5) small by (simp add: unat_add_u32)
  then have rest: "unat (SizeOfHeaders c - (S + 4)) = unat (SizeOfHeaders c) - (unat (ExeHdrOffset c) + 88 + 4)"
    using bounds(2,5) by (simp only: unat_sub word_le_nat_alt)
  have first: "HashRange hu (FileBytes c) h 0 (unat S) = Inr (hu h (take (unat S) (FileBytes c)))"
    using bounds(1,5) S by (simp add: HashRange_exact)
  have unfold: "HashHeaders c (RvaAndSizes c) hu h =
     bindR (HashRange hu (FileBytes c) h 0 (unat S)) (\<lambda>(ok, h).
       if \<not> ok then Inr (False, h)
       else bindR (if 4 < RvaAndSizes c then
              bindR (HashRange hu (FileBytes c) h (unat (S + 4)) (unat (D - (S + 4)))) (\<lambda>(ok, h). Inr (ok, h, D + 8))
            else Inr (True, h, S + 4)) (\<lambda>(ok, h, off).
         if \<not> ok then Inr (False, h) else HashRange hu (FileBytes c) h (unat off) (unat (SizeOfHeaders c - off))))"
    by (simp only: HashHeaders_def Let_def S_def D_def)
  show ?thesis
  proof (cases "4 < RvaAndSizes c")
    case True
    then have n: "DataDirectoryOffset c + 40 \<le> unat (SizeOfHeaders c)"
      using bounds(2) by (simp add: directory_index)
    have "unat (ExeHdrOffset c + OFFSET_OF_DataDirectory (ImageType c)) = DataDirectoryOffset c"
      using bounds(1,6) small by (simp add: unat_add_u32)
    then have D: "unat D = DataDirectoryOffset c + 4 * 8" "unat (D + 8) = DataDirectoryOffset c + 4 * 8 + 8"
      using n bounds(3) small by (simp_all add: D_def unat_add_u32)
    then have len: "unat (D - (S + 4)) = DataDirectoryOffset c + 4 * 8 - (unat (ExeHdrOffset c) + 88 + 4)"
      "unat (SizeOfHeaders c - (D + 8)) = unat (SizeOfHeaders c) - (DataDirectoryOffset c + 4 * 8 + 8)"
      using n bounds(5) S4 by (simp_all only: unat_sub word_le_nat_alt)
    show ?thesis
      using True n bounds(3,5)
      by (simp add: unfold header_ranges_def Let_def HashRange_exact first S4 D len S split: prod.split)
  next
    case False
    then show ?thesis
      using bounds(2,3,5)
      by (simp add: unfold header_ranges_def Let_def HashRange_exact first S4 rest S split: prod.split)
  qed
qed

lemma sections_in_file: "wf_context cfg c \<Longrightarrow> in_file (FileBytes c) (sorted_sections c)"
  using wf_sections_bounds(1) [of cfg c] wf_contextD(1) [of cfg c]
  by (auto simp: sorted_sections_def wf_section_def wf_headers_def)

lemma InternalHashSections_exact:
  assumes "wf_context cfg c" "length pool = unat (NumberOfSections c)"
  shows "InternalHashSections cfg c (Some pool) hu h = HashSectionsLoop cfg hu (FileBytes c) (sorted_sections c) h 0 0"
  using assms wf_contextD(1) [OF assms(1)] Sections_nonempty [of c]
  by (simp add: InternalHashSections_def read_Sections SortSections_exact sorted_sections_def)

text \<open>The hash once the headers have been hashed: the sections, then the trailing data.\<close>

definition hash_rest ::
  "pe_context \<Rightarrow> 'h hash_update \<Rightarrow> (bool \<times> 'h \<times> u32) \<Rightarrow> (bool \<times> 'h) result" where
  "hash_rest c hu = (\<lambda>(ok, h, n).
     if \<not> ok then Inr (False, h)
     else if 2 ^ 32 \<le> unat n + unat (SizeOfHeaders c) then Inr (False, h)
     else if n + SizeOfHeaders c < FileSize c - SecDirSize c
       then HashRange hu (FileBytes c) h (unat (n + SizeOfHeaders c)) (unat (FileSize c - SecDirSize c - (n + SizeOfHeaders c)))
       else Inr (True, h))"

lemma PeCoffHashImageAuthenticode_unfold:
  assumes "wf_context cfg c" "hash_ranges hu (FileBytes c) h (header_ranges c) = (ok, h1)"
  shows "PeCoffHashImageAuthenticode cfg c pool hu h =
    (if \<not> ok then Inr (False, h1) else bindR (InternalHashSections cfg c pool hu h1) (hash_rest c hu))"
  by (simp only: PeCoffHashImageAuthenticode_def Let_def read_RvaAndSizes [OF assms(1)] read_security_dir_size [OF assms(1)]
      HashHeaders_exact [OF assms(1)] assms(2) bindR_simps prod.case AddU32_eq hash_rest_def)

lemma hash_rest_exact:
  assumes "wf_context cfg c" "unat n = raw_total (Sections c)"
    and "raw_total (Sections c) + unat (SizeOfHeaders c) < 2 ^ 32"
  shows "hash_rest c hu (True, h, n) = Inr (hash_ranges hu (FileBytes c) h (trailing_ranges c))"
proof -
  define F where "F = FileSize c - SecDirSize c"
  define N where "N = n + SizeOfHeaders c"
  have F: "unat F = unat (FileSize c) - unat (SecDirSize c)"
    using wf_contextD(6) [OF assms(1)] by (simp add: F_def wf_security_dir_def unat_sub word_le_nat_alt)
  have N: "unat N = raw_total (Sections c) + unat (SizeOfHeaders c)"
    using assms(2,3) by (simp add: N_def unat_add_u32)
  have "unat (F - N) = unat F - unat N" if "N < F"
    using that by (simp add: unat_sub)
  then show ?thesis
    using assms(2,3) directory_bounds(4) [OF assms(1)] F N
    by (auto simp: hash_rest_def HashRange_exact trailing_ranges_def Let_def word_less_nat_alt add.commute
        simp flip: F_def N_def split: prod.split)
qed

lemma hashable_sections: "hashable cfg c \<longleftrightarrow>
    sections_hashable cfg 0 0 (sorted_sections c) \<and> raw_total (Sections c) + unat (SizeOfHeaders c) < 2 ^ 32"
  by (auto simp: hashable_def sections_hashable_def sorted_sections_def)

lemma PeCoffHashImageAuthenticode_exact:
  assumes "wf_context cfg c" "length pool = unat (NumberOfSections c)"
  shows "if hashable cfg c
    then PeCoffHashImageAuthenticode cfg c (Some pool) hu h = Inr (hash_ranges hu (FileBytes c) h (authenticode_ranges c))
    else \<exists>h'. PeCoffHashImageAuthenticode cfg c (Some pool) hu h = Inr (False, h')"
proof -
  obtain ok h1 where h1: "hash_ranges hu (FileBytes c) h (header_ranges c) = (ok, h1)"
    by fastforce
  obtain ok' h2 where h2: "hash_ranges hu (FileBytes c) h1 (section_ranges (sorted_sections c)) = (ok', h2)"
    by fastforce
  note run = PeCoffHashImageAuthenticode_unfold [OF assms(1) h1, of "Some pool"]
  have small: "length (FileBytes c) < 2 ^ 32"
    using directory_bounds(4) [OF assms(1)] u32_less [of "FileSize c"] by simp
  have secs: "if sections_hashable cfg 0 0 (sorted_sections c)
    then \<exists>n. InternalHashSections cfg c (Some pool) hu h1 = Inr (ok', h2, n) \<and> (ok' \<longrightarrow> unat n = raw_total (Sections c))
    else \<exists>h' n. InternalHashSections cfg c (Some pool) hu h1 = Inr (False, h', n)"
    using HashSectionsLoop_exact [OF sections_in_file [OF assms(1)] small, of cfg 0 0 hu h1] h2
    by (simp add: InternalHashSections_exact [OF assms] sorted_sections_def cong: if_cong)
  show ?thesis
  proof (cases "sections_hashable cfg 0 0 (sorted_sections c)")
    case True
    then obtain n where n: "InternalHashSections cfg c (Some pool) hu h1 = Inr (ok', h2, n)"
      "ok' \<longrightarrow> unat n = raw_total (Sections c)"
      using secs by auto
    show ?thesis
    proof (cases "hashable cfg c")
      case good: True
      then have "hash_rest c hu (True, h2, n) = Inr (hash_ranges hu (FileBytes c) h2 (trailing_ranges c))" if ok'
        using that n(2) hash_rest_exact [OF assms(1)] by (simp add: hashable_sections)
      then show ?thesis
        using good n(1) by (auto simp: run authenticode_ranges_def hash_ranges_append h1 h2 hash_rest_def)
    next
      case False
      then show ?thesis
        using True n by (auto simp: run hashable_sections hash_rest_def)
    qed
  next
    case False
    then show ?thesis
      using secs by (auto simp: run hashable_sections hash_rest_def)
  qed
qed

section \<open>Coverage\<close>

text \<open>The non-empty sections cover the file from \<open>lo\<close> to \<open>hi\<close> one after the other.\<close>

fun raw_tiles :: "nat \<Rightarrow> EFI_IMAGE_SECTION_HEADER list \<Rightarrow> nat \<Rightarrow> bool" where
  "raw_tiles lo [] hi \<longleftrightarrow> lo = hi"
| "raw_tiles lo (s # ss) hi \<longleftrightarrow>
     (if SizeOfRawData s = 0 then raw_tiles lo ss hi
      else unat (PointerToRawData s) = lo \<and> raw_tiles (raw_end s) ss hi)"

definition file_slice :: "u8 list \<Rightarrow> nat \<Rightarrow> nat \<Rightarrow> u8 list" where
  "file_slice b lo hi = take (hi - lo) (drop lo b)"

lemma file_slice_append: "lo \<le> mid \<Longrightarrow> mid \<le> hi \<Longrightarrow> file_slice b lo mid @ file_slice b mid hi = file_slice b lo hi"
proof -
  assume "lo \<le> mid" "mid \<le> hi"
  then have "hi - lo = (mid - lo) + (hi - mid)" "drop mid b = drop (mid - lo) (drop lo b)"
    by simp_all
  then show ?thesis
    by (simp only: file_slice_def take_add)
qed

lemma file_slice_empty [simp]: "file_slice b lo lo = []"
  by (simp add: file_slice_def)

lemma raw_tiles_total: "raw_tiles lo ss hi \<Longrightarrow> hi = lo + raw_total ss"
  by (induction ss arbitrary: lo) (fastforce split: if_splits)+

lemma raw_tiles_bytes:
  "raw_tiles lo ss hi \<Longrightarrow> concat (map (range_bytes b) (section_ranges ss)) = file_slice b lo hi"
proof (induction ss arbitrary: lo)
  case (Cons s ss)
  show ?case
  proof (cases "SizeOfRawData s = 0")
    case False
    then have tiles: "raw_tiles (raw_end s) ss hi" "unat (PointerToRawData s) = lo"
      using Cons.prems by auto
    have "range_bytes b (raw_range s) = file_slice b lo (raw_end s)"
      using tiles(2) by (simp add: range_bytes_def raw_range_def file_slice_def)
    moreover have "file_slice b lo (raw_end s) @ file_slice b (raw_end s) hi = file_slice b lo hi"
      using tiles raw_tiles_total [OF tiles(1)] by (intro file_slice_append) auto
    ultimately show ?thesis
      using False Cons.IH [OF tiles(1)] by simp
  qed (use Cons in simp)
qed simp

lemma hash_ranges_append_bytes:
  "hash_ranges (\<lambda>h d. (True, h @ d)) b h rs = (True, h @ concat (map (range_bytes b) rs))"
  by (induction rs arbitrary: h) (auto simp: range_bytes_def)

lemma authenticode_bytes:
  assumes "wf_context cfg c" "4 < RvaAndSizes c"
    and "raw_tiles (unat (SizeOfHeaders c)) (sorted_sections c) hi" "hi + unat (SecDirSize c) \<le> unat (FileSize c)"
  defines "chk \<equiv> unat (ExeHdrOffset c) + 88" and "dir \<equiv> DataDirectoryOffset c + 4 * sizeof_DATA_DIRECTORY"
  shows "concat (map (range_bytes (FileBytes c)) (authenticode_ranges c)) =
    file_slice (FileBytes c) 0 chk @ file_slice (FileBytes c) (chk + 4) dir @
    file_slice (FileBytes c) (dir + 8) (unat (FileSize c) - unat (SecDirSize c))"
proof -
  let ?b = "FileBytes c" and ?H = "unat (SizeOfHeaders c)" and ?F = "unat (FileSize c) - unat (SecDirSize c)"
  have hi: "hi = ?H + raw_total (Sections c)"
    using raw_tiles_total [OF assms(3)] by (simp add: sorted_sections_def)
  have dir: "dir + 8 \<le> ?H"
    using directory_bounds(2) [OF assms(1)] assms(2) by (simp add: dir_def directory_index)
  have hdr: "concat (map (range_bytes ?b) (header_ranges c)) = file_slice ?b 0 chk @ file_slice ?b (chk + 4) dir @ file_slice ?b (dir + 8) ?H"
    using assms(2) by (simp add: header_ranges_def Let_def range_bytes_def file_slice_def chk_def dir_def)
  have trail: "concat (map (range_bytes ?b) (trailing_ranges c)) = file_slice ?b hi ?F"
    using hi by (auto simp: trailing_ranges_def Let_def range_bytes_def file_slice_def)
  have "file_slice ?b (dir + 8) ?H @ file_slice ?b ?H hi @ file_slice ?b hi ?F = file_slice ?b (dir + 8) ?F"
    using file_slice_append [of ?H hi ?F ?b] file_slice_append [of "dir + 8" ?H ?F ?b] dir hi assms(4) by simp
  then show ?thesis
    by (simp add: authenticode_ranges_def hdr trail raw_tiles_bytes [OF assms(3)])
qed

section \<open>Certificates\<close>

text \<open>A certificate pointer that the iteration may be continued from.\<close>

definition cert_length :: "pe_context \<Rightarrow> nat \<Rightarrow> nat" where
  "cert_length c p = unat (get_word 4 (FileBytes c) p :: u32)"

definition wf_cert :: "loader_cfg \<Rightarrow> pe_context \<Rightarrow> nat \<Rightarrow> bool" where
  "wf_cert cfg c p \<longleftrightarrow>
     unat (SecDirOffset c) \<le> p \<and> 8 dvd p \<and> sizeof_WIN_CERTIFICATE \<le> cert_length c p \<and>
     p + cert_length c p \<le> unat (SecDirOffset c) + unat (SecDirSize c) \<and>
     (strict_certificates cfg \<longrightarrow> 8 dvd cert_length c p)"

lemma FirstCertificate_wp:
  assumes "wf_context cfg c"
  shows "wp (FirstCertificate cfg c) (\<lambda>p. p = unat (SecDirOffset c) \<and> wf_cert cfg c p)"
proof -
  have sec: "unat (SecDirOffset c) + unat (SecDirSize c) \<le> length (FileBytes c)" "8 dvd unat (SecDirOffset c)" "8 dvd unat (SecDirSize c)"
    using wf_contextD(1,6) [OF assms] by (simp_all add: wf_security_dir_def wf_headers_def)
  have "8 \<le> unat (SecDirSize c)" if "SecDirSize c \<noteq> 0"
    using that dvd_imp_le [OF sec(3)] by (simp add: unat_gt_0)
  then show ?thesis
    using sec
    by (auto simp: FirstCertificate_def wf_cert_def cert_length_def word_less_nat_alt not_less IS_ALIGNED_numeral)
qed

lemma PeCoffGetNextCertificate_wp:
  assumes "wf_context cfg c" "wf_cert cfg c p"
  shows "wp (PeCoffGetNextCertificate cfg c p) (\<lambda>q. wf_cert cfg c q \<and> q = p + align_up (cert_length c p) 8)"
proof -
  have sec: "unat (SecDirOffset c) + unat (SecDirSize c) \<le> length (FileBytes c)" "8 dvd unat (SecDirOffset c)"
    "8 dvd unat (SecDirSize c)" "length (FileBytes c) = unat (FileSize c)"
    using wf_contextD(1,6) [OF assms(1)] by (simp_all add: wf_security_dir_def wf_headers_def)
  let ?L = "get_word 4 (FileBytes c) p :: u32"
  define o' where "o' = p - unat (SecDirOffset c)"
  have p: "p = unat (SecDirOffset c) + o'" "8 dvd o'" "o' + unat ?L \<le> unat (SecDirSize c)" "8 \<le> unat ?L"
    using assms(2) sec(2) by (auto simp: wf_cert_def o'_def cert_length_def)
  define Size where "Size = (if strict_certificates cfg then ?L else ALIGN_VALUE ?L 8)"
  have up: "align_up (unat ?L) 8 \<le> unat (SecDirSize c) - o'"
    using p sec(3) by (intro align_up_least) (auto intro: dvd_diff_nat)
  have size: "unat Size = align_up (unat ?L) 8"
  proof (cases "strict_certificates cfg")
    case True
    then show ?thesis
      using assms(2) align_up_id_iff [of 8 "unat ?L"] by (simp add: Size_def wf_cert_def cert_length_def)
  next
    case False
    have "unat (ALIGN_VALUE ?L 8) = align_up (unat ?L) 8 mod 2 ^ 32"
      using unat_ALIGN_VALUE [of 8 ?L] by (simp add: IS_POW2_def)
    then show ?thesis
      using False up u32_less [of "SecDirSize c"] by (simp add: Size_def)
  qed
  have "word_of_nat p - SecDirOffset c = (word_of_nat o' :: u32)"
    by (simp add: p(1))
  then have offset: "unat (word_of_nat p - SecDirOffset c + Size) = o' + align_up (unat ?L) 8"
    using size up p(3) u32_less [of "SecDirSize c"] by (simp add: unat_add_u32 unat_of_nat)
  define C where "C = word_of_nat p - SecDirOffset c + Size"
  have C: "unat C = o' + align_up (unat ?L) 8" "unat C \<le> unat (SecDirSize c)" "8 dvd unat C"
    using offset up p(2,3) by (simp_all add: C_def)
  have "p + 4 \<le> length (FileBytes c)"
    using p sec(1) by simp
  moreover have "unat (SecDirOffset c) + unat C + 4 \<le> length (FileBytes c)" "unat C + 8 \<le> unat (SecDirSize c)"
    if "\<not> SecDirSize c - C < 8"
    using that C(2) sec(1) by (simp_all add: word_less_nat_alt unat_sub word_le_nat_alt)
  moreover have next_cert: "unat (SecDirOffset c) + unat C = p + align_up (unat ?L) 8"
    using C(1) p(1) by simp
  moreover have "unat (SecDirOffset c) \<le> unat (SecDirOffset c) + unat C" "8 dvd unat (SecDirOffset c) + unat C"
    using C(3) sec(2) by simp_all
  ultimately show ?thesis
    using C(2) sec(3)
    by (auto simp: PeCoffGetNextCertificate_def Let_def IS_ALIGNED_numeral wf_cert_def cert_length_def AddU32_eq
        word_less_nat_alt [where 'a = 32] word_le_nat_alt [where 'a = 32] not_less not_le unat_add_u32
        simp flip: Size_def C_def)
qed

end
