(* ===== verification/PeCoffDebug.thy ===== *)
theory PeCoffDebug
  imports PeDirectories
begin

text \<open>
  The path of the debug symbols (\<^verbatim>\<open>PeCoffDebug.c\<close>): the first CodeView entry of the debug directory of
  the loaded image names a range of the file, which ends with the path.
\<close>

abbreviation (input) sizeof_DEBUG_DIRECTORY_ENTRY :: nat where "sizeof_DEBUG_DIRECTORY_ENTRY \<equiv> 28"
abbreviation (input) EFI_IMAGE_DEBUG_TYPE_CODEVIEW :: u32 where "EFI_IMAGE_DEBUG_TYPE_CODEVIEW \<equiv> 2"
abbreviation (input) CODEVIEW_SIGNATURE_NB10 :: u32 where "CODEVIEW_SIGNATURE_NB10 \<equiv> 0x3031424E"
abbreviation (input) CODEVIEW_SIGNATURE_RSDS :: u32 where "CODEVIEW_SIGNATURE_RSDS \<equiv> 0x53445352"
abbreviation (input) CODEVIEW_SIGNATURE_MTOC :: u32 where "CODEVIEW_SIGNATURE_MTOC \<equiv> 0x434F544D"

fun FindCodeView :: "u8 list \<Rightarrow> nat \<Rightarrow> nat \<Rightarrow> nat result" where
  "FindCodeView b Entry 0 = fail RETURN_NOT_FOUND"
| "FindCodeView b Entry (Suc n) =
     bindR (ReadUnaligned32 b (Entry + 12)) (\<lambda>Type.
     if Type = EFI_IMAGE_DEBUG_TYPE_CODEVIEW then Inr Entry
     else FindCodeView b (Entry + sizeof_DEBUG_DIRECTORY_ENTRY) n)"

text \<open>Size of the CodeView header that the signature announces.\<close>

definition CodeViewPdbOffset :: "u32 \<Rightarrow> u32 result" where
  "CodeViewPdbOffset Signature =
     (if Signature = CODEVIEW_SIGNATURE_NB10 then Inr 16
      else if Signature = CODEVIEW_SIGNATURE_RSDS then Inr 24
      else if Signature = CODEVIEW_SIGNATURE_MTOC then Inr 20
      else fail RETURN_UNSUPPORTED)"

text \<open>The part that starts with the CodeView entry; it yields the file offset of the path and its sz.\<close>

definition CodeViewPath :: "pe_context \<Rightarrow> nat \<Rightarrow> (nat \<times> u32) result" where
  "CodeViewPath Context CodeViewEntry =
     (let b = ImageBytes Context; f = FileBytes Context in
      bindR (ReadUnaligned32 b (CodeViewEntry + 16)) (\<lambda>SizeOfData.
      if SizeOfData < 4 then fail RETURN_VOLUME_CORRUPTED
      else
        bindR (ReadUnaligned32 b (CodeViewEntry + 24)) (\<lambda>DebugEntryFileOffset.
        let (Overflow, DebugEntryFileOffsetTop) = BaseOverflowAddU32 DebugEntryFileOffset SizeOfData
        in if Overflow \<or> DebugEntryFileOffsetTop > FileSize Context \<or> \<not> IS_ALIGNED DebugEntryFileOffset 4
           then fail RETURN_VOLUME_CORRUPTED
           else
             bindR (ReadUnaligned32 f (unat DebugEntryFileOffset)) (\<lambda>Signature.
             bindR (CodeViewPdbOffset Signature) (\<lambda>PdbOffset.
             let (Overflow, PdbNameSize) = BaseOverflowSubU32 SizeOfData PdbOffset
             in if Overflow \<or> PdbNameSize = 0 then fail RETURN_VOLUME_CORRUPTED
                else
                  let PdbName = unat DebugEntryFileOffset + unat PdbOffset in
                  bindR (readU8 f (PdbName + unat (PdbNameSize - 1))) (\<lambda>Terminator.
                  if Terminator \<noteq> 0 then fail RETURN_VOLUME_CORRUPTED
                  else Inr (PdbName, PdbNameSize)))))))"

definition PeCoffGetPdbPath :: "loader_cfg \<Rightarrow> pe_context \<Rightarrow> (nat \<times> u32) result" where
  "PeCoffGetPdbPath cfg Context =
     (if \<not> PcdImageLoaderDebugSupport cfg then fail RETURN_NOT_FOUND
      else
        bindR (GetDataDirectory Context 6) (\<lambda>(DebugDirRva, DebugDirSize).
        if DebugDirSize = 0 then fail RETURN_NOT_FOUND
        else if unat DebugDirSize mod sizeof_DEBUG_DIRECTORY_ENTRY \<noteq> 0 then fail RETURN_VOLUME_CORRUPTED
        else
          let (Overflow, DebugDirTop) = BaseOverflowAddU32 DebugDirRva DebugDirSize
          in if Overflow \<or> DebugDirTop > SizeOfImage Context then fail RETURN_VOLUME_CORRUPTED
             else if \<not> IS_ALIGNED DebugDirRva 4 then fail RETURN_VOLUME_CORRUPTED
             else
               bindR (FindCodeView (ImageBytes Context) (unat DebugDirRva)
                        (unat DebugDirSize div sizeof_DEBUG_DIRECTORY_ENTRY)) (\<lambda>CodeViewEntry.
               CodeViewPath Context CodeViewEntry)))"

section \<open>Laws\<close>

lemma FindCodeView_wp:
  "e + sizeof_DEBUG_DIRECTORY_ENTRY * n \<le> length b \<Longrightarrow>
     wp (FindCodeView b e n) (\<lambda>r. \<exists>i < n. r = e + sizeof_DEBUG_DIRECTORY_ENTRY * i \<and>
       get_word 4 b (r + 12) = EFI_IMAGE_DEBUG_TYPE_CODEVIEW \<and>
       (\<forall>j < i. get_word 4 b (e + sizeof_DEBUG_DIRECTORY_ENTRY * j + 12) \<noteq> EFI_IMAGE_DEBUG_TYPE_CODEVIEW))"
proof (induction n arbitrary: e)
  case (Suc n)
  have later: "\<exists>i < Suc n. r = e + sizeof_DEBUG_DIRECTORY_ENTRY * i \<and>
       get_word 4 b (r + 12) = EFI_IMAGE_DEBUG_TYPE_CODEVIEW \<and>
       (\<forall>j < i. get_word 4 b (e + sizeof_DEBUG_DIRECTORY_ENTRY * j + 12) \<noteq> EFI_IMAGE_DEBUG_TYPE_CODEVIEW)"
    if type: "get_word 4 b (e + 12) \<noteq> EFI_IMAGE_DEBUG_TYPE_CODEVIEW"
      and found: "\<exists>i < n. r = e + 28 + sizeof_DEBUG_DIRECTORY_ENTRY * i \<and>
        get_word 4 b (r + 12) = EFI_IMAGE_DEBUG_TYPE_CODEVIEW \<and>
        (\<forall>j < i. get_word 4 b (e + 28 + sizeof_DEBUG_DIRECTORY_ENTRY * j + 12) \<noteq> EFI_IMAGE_DEBUG_TYPE_CODEVIEW)" for r
  proof -
    obtain i where i: "i < n" "r = e + 28 + 28 * i" "get_word 4 b (r + 12) = EFI_IMAGE_DEBUG_TYPE_CODEVIEW"
      "\<forall>j < i. get_word 4 b (e + 28 + 28 * j + 12) \<noteq> EFI_IMAGE_DEBUG_TYPE_CODEVIEW"
      using found by blast
    have "get_word 4 b (e + 28 * j + 12) \<noteq> EFI_IMAGE_DEBUG_TYPE_CODEVIEW" if "j < Suc i" for j
      using that type i(4) by (cases j) (simp_all add: add.assoc)
    then show ?thesis
      using i(1-3) by (intro exI [of _ "Suc i"]) simp
  qed
  show ?case
    using Suc.prems by (auto intro!: wp_mono [OF Suc.IH [of "e + 28"]] later)
qed simp

lemma get_byte: "i < length b \<Longrightarrow> get_word 1 b i = b ! i"
  by (simp add: get_word_def take_Suc_conv_app_nth [of 0] Cons_nth_drop_Suc [symmetric])

lemma CodeViewName_wp:
  assumes "unat off + unat sz \<le> length f"
  shows "wp (let (Overflow, PdbNameSize) = BaseOverflowSubU32 sz pdb
     in if Overflow \<or> PdbNameSize = 0 then fail RETURN_VOLUME_CORRUPTED
        else
          let PdbName = unat off + unat pdb in
          bindR (readU8 f (PdbName + unat (PdbNameSize - 1))) (\<lambda>Terminator.
          if Terminator \<noteq> 0 then fail RETURN_VOLUME_CORRUPTED
          else Inr (PdbName, PdbNameSize)))
    (\<lambda>(p, n). 0 < unat n \<and> f ! (p + unat n - 1) = 0 \<and> p + unat n = unat off + unat sz)"
proof (cases "unat sz \<le> unat pdb")
  case False
  then have size: "unat (sz - pdb) = unat sz - unat pdb"
    by (simp add: unat_sub word_le_nat_alt)
  with False have "unat (sz - pdb - 1) = unat sz - unat pdb - 1" "sz - pdb \<noteq> 0"
    by (simp_all add: unat_minus_one flip: unat_eq_0)
  then show ?thesis
    using assms False size
    by (auto simp: SubU32_eq readU8_def get_byte simp del: One_nat_def)
qed (auto simp: SubU32_eq word_le_nat_alt not_less simp flip: word_unat_eq_iff)

lemma CodeViewPath_wp:
  assumes "entry + sizeof_DEBUG_DIRECTORY_ENTRY \<le> length (ImageBytes c)" "length (FileBytes c) = unat (FileSize c)"
  shows "wp (CodeViewPath c entry) (\<lambda>(off, n). 0 < unat n \<and> FileBytes c ! (off + unat n - 1) = 0 \<and>
    off + unat n = unat (get_word 4 (ImageBytes c) (entry + 24) :: u32) + unat (get_word 4 (ImageBytes c) (entry + 16) :: u32) \<and>
    off + unat n \<le> length (FileBytes c))"
proof -
  let ?off = "get_word 4 (ImageBytes c) (entry + 24) :: u32" and ?size = "get_word 4 (ImageBytes c) (entry + 16) :: u32"
  have "wp (bindR (CodeViewPdbOffset sig) (\<lambda>pdb.
      let (Overflow, PdbNameSize) = BaseOverflowSubU32 ?size pdb
      in if Overflow \<or> PdbNameSize = 0 then fail RETURN_VOLUME_CORRUPTED
         else
           let PdbName = unat ?off + unat pdb in
           bindR (readU8 (FileBytes c) (PdbName + unat (PdbNameSize - 1))) (\<lambda>Terminator.
           if Terminator \<noteq> 0 then fail RETURN_VOLUME_CORRUPTED
           else Inr (PdbName, PdbNameSize))))
    (\<lambda>(p, n). 0 < unat n \<and> FileBytes c ! (p + unat n - 1) = 0 \<and> p + unat n = unat ?off + unat ?size \<and>
       p + unat n \<le> length (FileBytes c))"
    if "unat ?off + unat ?size \<le> length (FileBytes c)" for sig
    by (rule wp_bindI [where P = "\<lambda>_. True"], simp add: CodeViewPdbOffset_def,
        rule wp_mono [OF CodeViewName_wp [OF that]]) (use that in auto)
  then show ?thesis
    using assms
    by (auto simp: CodeViewPath_def Let_def AddU32_eq word_less_nat_alt [where 'a = 32] not_less not_le unat_add_u32)
qed

text \<open>What the CodeView entry of the debug directory at \<open>rva\<close> says about a path.\<close>

definition first_code_view :: "u8 list \<Rightarrow> nat \<Rightarrow> nat \<Rightarrow> nat \<Rightarrow> bool" where
  "first_code_view b rva n entry \<longleftrightarrow>
     (\<exists>i < n. entry = rva + sizeof_DEBUG_DIRECTORY_ENTRY * i \<and>
        get_word 4 b (entry + 12) = EFI_IMAGE_DEBUG_TYPE_CODEVIEW \<and>
        (\<forall>j < i. get_word 4 b (rva + sizeof_DEBUG_DIRECTORY_ENTRY * j + 12) \<noteq> EFI_IMAGE_DEBUG_TYPE_CODEVIEW))"

definition pdb_path_ok :: "pe_context \<Rightarrow> nat \<times> u32 \<Rightarrow> bool" where
  "pdb_path_ok c = (\<lambda>(off, n).
     0 < unat n \<and> off + unat n \<le> length (FileBytes c) \<and> FileBytes c ! (off + unat n - 1) = 0 \<and>
     (\<exists>rva dsize entry. GetDataDirectory c 6 = Inr (rva, dsize) \<and>
        first_code_view (ImageBytes c) (unat rva) (unat dsize div sizeof_DEBUG_DIRECTORY_ENTRY) entry \<and>
        off + unat n = unat (get_word 4 (ImageBytes c) (entry + 24) :: u32) + unat (get_word 4 (ImageBytes c) (entry + 16) :: u32)))"

lemma PeCoffGetPdbPath_wp:
  assumes "wf_context cfg c" "unat (SizeOfImage c) \<le> length (ImageBytes c)"
  shows "wp (PeCoffGetPdbPath cfg c) (pdb_path_ok c)"
proof -
  have len: "length (FileBytes c) = unat (FileSize c)"
    using wf_contextD(1) [OF assms(1)] by (simp add: wf_headers_def)
  have path: "wp (bindR (FindCodeView (ImageBytes c) (unat rva) (unat dsize div 28)) (CodeViewPath c)) (pdb_path_ok c)"
    if dir: "GetDataDirectory c 6 = Inr (rva, dsize)" "unat rva + unat dsize \<le> unat (SizeOfImage c)" for rva dsize
  proof (rule wp_bindI [OF FindCodeView_wp])
    have n: "28 * (unat dsize div 28) \<le> unat dsize"
      by simp
    then show "unat rva + 28 * (unat dsize div 28) \<le> length (ImageBytes c)"
      using dir(2) assms(2) by simp
    fix entry
    assume "\<exists>i < unat dsize div 28. entry = unat rva + 28 * i \<and> get_word 4 (ImageBytes c) (entry + 12) = EFI_IMAGE_DEBUG_TYPE_CODEVIEW \<and>
      (\<forall>j < i. get_word 4 (ImageBytes c) (unat rva + 28 * j + 12) \<noteq> EFI_IMAGE_DEBUG_TYPE_CODEVIEW)"
    then have first: "first_code_view (ImageBytes c) (unat rva) (unat dsize div 28) entry"
      by (simp add: first_code_view_def)
    then have "entry + 28 \<le> unat rva + 28 * (unat dsize div 28)"
      by (auto simp: first_code_view_def)
    then have "entry + 28 \<le> length (ImageBytes c)"
      using n dir(2) assms(2) by simp
    then show "wp (CodeViewPath c entry) (pdb_path_ok c)"
      by (rule wp_mono [OF CodeViewPath_wp [OF _ len]]) (use first dir(1) in \<open>auto simp: pdb_path_ok_def\<close>)
  qed
  show ?thesis
    unfolding PeCoffGetPdbPath_def
  proof (rule wp_if [THEN iffD2], intro conjI impI)
    show "wp (bindR (GetDataDirectory c 6) (\<lambda>(rva, dsize).
        if dsize = 0 then fail RETURN_NOT_FOUND
        else if unat dsize mod 28 \<noteq> 0 then fail RETURN_VOLUME_CORRUPTED
        else let (Overflow, DebugDirTop) = BaseOverflowAddU32 rva dsize
          in if Overflow \<or> DebugDirTop > SizeOfImage c then fail RETURN_VOLUME_CORRUPTED
             else if \<not> IS_ALIGNED rva 4 then fail RETURN_VOLUME_CORRUPTED
             else bindR (FindCodeView (ImageBytes c) (unat rva) (unat dsize div 28)) (CodeViewPath c))) (pdb_path_ok c)"
    proof (rule wp_bindI [where P = "\<lambda>d. GetDataDirectory c 6 = Inr d"])
      show "wp (GetDataDirectory c 6) (\<lambda>d. GetDataDirectory c 6 = Inr d)"
        using GetDataDirectory_safe [OF assms(1)] by (simp add: wp_iff)
    qed (auto simp: AddU32_eq word_less_nat_alt not_less not_le unat_add_u32 simp del: wp_bind intro!: path)
  qed simp
qed

end
