(* ===== verification/PeCoffHii.thy ===== *)
theory PeCoffHii
  imports PeDirectories
begin

text \<open>
  The HII data of an image (\<^verbatim>\<open>PeCoffHii.c\<close>): the resource of type "HII" in the resource directory of
  the loaded image, reached through at most two directory levels.
\<close>

abbreviation (input) sizeof_RESOURCE_DIRECTORY :: u32 where "sizeof_RESOURCE_DIRECTORY \<equiv> 16"
abbreviation (input) sizeof_RESOURCE_DIRECTORY_ENTRY :: u32 where "sizeof_RESOURCE_DIRECTORY_ENTRY \<equiv> 8"
abbreviation (input) sizeof_RESOURCE_DIRECTORY_STRING :: u32 where "sizeof_RESOURCE_DIRECTORY_STRING \<equiv> 2"
abbreviation (input) sizeof_RESOURCE_DATA_ENTRY :: u32 where "sizeof_RESOURCE_DATA_ENTRY \<equiv> 16"

text \<open>The bit fields of a resource directory entry: 31 bits of offset and a flag.\<close>

abbreviation (input) offset_bits :: "u32 \<Rightarrow> u32" where "offset_bits w \<equiv> w AND 0x7FFFFFFF"
abbreviation (input) flag_bit :: "u32 \<Rightarrow> bool" where "flag_bit w \<equiv> w AND 0x80000000 \<noteq> 0"

text \<open>Whether the string at the offset, of the given length, is "HII".\<close>

definition IsHiiString :: "u8 list \<Rightarrow> nat \<Rightarrow> u16 \<Rightarrow> bool result" where
  "IsHiiString b Offset Len =
     (if Len \<noteq> 3 then Inr False
      else
        bindR (readU16 b (Offset + 2)) (\<lambda>c0. if c0 \<noteq> 0x48 then Inr False
        else bindR (readU16 b (Offset + 4)) (\<lambda>c1. if c1 \<noteq> 0x49 then Inr False
        else bindR (readU16 b (Offset + 6)) (\<lambda>c2. Inr (c2 = 0x49)))))"

text \<open>The loop over the named entries; it yields the address of the entry it stops at.\<close>

fun FindHiiEntry :: "u8 list \<Rightarrow> u32 \<Rightarrow> u32 \<Rightarrow> nat \<Rightarrow> nat \<Rightarrow> nat result" where
  "FindHiiEntry b Rva DirSize Entry 0 = fail RETURN_NOT_FOUND"
| "FindHiiEntry b Rva DirSize Entry (Suc n) =
     bindR (ReadUnaligned32 b Entry) (\<lambda>Name.
     if \<not> flag_bit Name then FindHiiEntry b Rva DirSize (Entry + 8) n
     else
       let (Overflow, TopOffset) = BaseOverflowAddU32 (offset_bits Name) sizeof_RESOURCE_DIRECTORY_STRING
       in if Overflow \<or> TopOffset > DirSize then fail RETURN_VOLUME_CORRUPTED
          else
            let Offset = Rva + offset_bits Name in
            if \<not> IS_ALIGNED Offset 2 then fail RETURN_VOLUME_CORRUPTED
            else
              bindR (readU16 b (unat Offset)) (\<lambda>Len.
              let (Overflow, TopOffset) = BaseOverflowAddU32 TopOffset (ucast Len * 2)
              in if Overflow \<or> TopOffset > DirSize then fail RETURN_VOLUME_CORRUPTED
                 else
                   bindR (IsHiiString b (unat Offset) Len) (\<lambda>Found.
                   if Found then Inr Entry else FindHiiEntry b Rva DirSize (Entry + 8) n)))"

text \<open>The conventional Name and Language levels; the loop takes the first entry of each directory.\<close>

fun WalkResourceLevels :: "u8 list \<Rightarrow> u32 \<Rightarrow> u32 \<Rightarrow> nat \<Rightarrow> nat \<Rightarrow> nat result" where
  "WalkResourceLevels b Rva DirSize Entry 0 = Inr Entry"
| "WalkResourceLevels b Rva DirSize Entry (Suc n) =
     bindR (ReadUnaligned32 b (Entry + 4)) (\<lambda>Data.
     if \<not> flag_bit Data then Inr Entry
     else if offset_bits Data > DirSize - sizeof_RESOURCE_DIRECTORY + sizeof_RESOURCE_DIRECTORY_ENTRY
     then fail RETURN_VOLUME_CORRUPTED
     else
       let Offset = Rva + offset_bits Data in
       if \<not> IS_ALIGNED Offset 4 then fail RETURN_VOLUME_CORRUPTED
       else
         bindR (readU16 b (unat Offset + 14)) (\<lambda>NumberOfIdEntries.
         bindR (readU16 b (unat Offset + 12)) (\<lambda>NumberOfNamedEntries.
         if (ucast NumberOfIdEntries :: u32) + ucast NumberOfNamedEntries = 0 then fail RETURN_VOLUME_CORRUPTED
         else WalkResourceLevels b Rva DirSize (unat Offset + 16) n)))"

text \<open>The data entry that a resource directory entry denotes, as RVA and size.\<close>

definition ResourceData :: "u8 list \<Rightarrow> u32 \<Rightarrow> u32 \<Rightarrow> u32 \<Rightarrow> nat \<Rightarrow> (u32 \<times> u32) result" where
  "ResourceData b ImageSize Rva DirSize Entry =
     bindR (ReadUnaligned32 b (Entry + 4)) (\<lambda>Data.
     if flag_bit Data then fail RETURN_VOLUME_CORRUPTED
     else if Data > DirSize - sizeof_RESOURCE_DATA_ENTRY then fail RETURN_VOLUME_CORRUPTED
     else
       let Offset = Rva + Data in
       if \<not> IS_ALIGNED Offset 4 then fail RETURN_VOLUME_CORRUPTED
       else
         bindR (ReadUnaligned32 b (unat Offset)) (\<lambda>HiiRva.
         bindR (ReadUnaligned32 b (unat Offset + 4)) (\<lambda>HiiSize.
         let (Overflow, HiiRvaEnd) = BaseOverflowAddU32 HiiRva HiiSize
         in if Overflow \<or> HiiRvaEnd > ImageSize then fail RETURN_VOLUME_CORRUPTED
            else Inr (HiiRva, HiiSize))))"

definition PeCoffGetHiiDataRva :: "pe_context \<Rightarrow> (u32 \<times> u32) result" where
  "PeCoffGetHiiDataRva Context =
     bindR (GetDataDirectory Context 2) (\<lambda>(Rva, DirSize).
     let b = ImageBytes Context in
     if DirSize < sizeof_RESOURCE_DIRECTORY + sizeof_RESOURCE_DIRECTORY_ENTRY then fail RETURN_NOT_FOUND
     else if \<not> IS_ALIGNED Rva 4 then fail RETURN_VOLUME_CORRUPTED
     else
       let (Overflow, TopOffset) = BaseOverflowAddU32 Rva DirSize
       in if Overflow \<or> TopOffset > SizeOfImage Context then fail RETURN_VOLUME_CORRUPTED
          else
            bindR (readU16 b (unat Rva + 12)) (\<lambda>NumberOfNamedEntries.
            bindR (readU16 b (unat Rva + 14)) (\<lambda>NumberOfIdEntries.
            if sizeof_RESOURCE_DIRECTORY + sizeof_RESOURCE_DIRECTORY_ENTRY * (ucast NumberOfNamedEntries + ucast NumberOfIdEntries) > DirSize
            then fail RETURN_VOLUME_CORRUPTED
            else
              bindR (FindHiiEntry b Rva DirSize (unat Rva + 16) (unat NumberOfNamedEntries)) (\<lambda>Entry.
              bindR (WalkResourceLevels b Rva DirSize Entry 2) (\<lambda>Entry.
              ResourceData b (SizeOfImage Context) Rva DirSize Entry)))))"

section \<open>Laws\<close>

text \<open>
  The bound on the offset of a subdirectory allows it to start eight bytes before the end of the
  resource directory, so a subdirectory and its first entry may reach sixteen bytes beyond it.
\<close>

lemma IsHiiString_wp: "off + 8 \<le> length b \<or> len \<noteq> 3 \<Longrightarrow> safe (IsHiiString b off len)"
  by (auto simp: IsHiiString_def)

lemma unat_add_bounded:
  "unat rva + unat n < 2 ^ 32 \<Longrightarrow> unat off \<le> unat n \<Longrightarrow> unat (rva + off :: u32) = unat rva + unat off"
  by (simp add: unat_add_u32)

lemma unat_string_bytes: "unat (ucast (l :: u16) * 2 :: u32) = 2 * unat l"
proof -
  have "unat (ucast l :: u32) = unat l"
    by (simp only: unat_eq_nat_uint uint_ucast_up)
  then show ?thesis
    using u16_less [of l] by (simp add: unat_word_ariths(2))
qed

lemma FindHiiEntry_wp:
  assumes "unat rva + unat n < 2 ^ 32" "unat rva + unat n \<le> length b"
  shows "e + 8 * k \<le> length b \<Longrightarrow> wp (FindHiiEntry b rva n e k) (\<lambda>e'. e' + 8 \<le> length b)"
proof (induction k arbitrary: e)
  case (Suc k)
  then have IH: "wp (FindHiiEntry b rva n (e + 8) k) (\<lambda>e'. e' + 8 \<le> length b)"
    by simp
  define N where "N = offset_bits (get_word 4 b e)"
  have N: "unat (rva + N) = unat rva + unat N" "unat (N + 2) = unat N + 2" if "unat N + 2 \<le> unat n"
    using that assms(1) by (simp_all add: unat_add_u32)
  have "wp (bindR (IsHiiString b (unat (rva + N)) len) (\<lambda>Found. if Found then Inr e else FindHiiEntry b rva n (e + 8) k))
      (\<lambda>e'. e' + 8 \<le> length b)" if "unat N + 2 + 2 * unat len \<le> unat n" for len :: u16
  proof (rule wp_bindI [OF IsHiiString_wp])
    show "unat (rva + N) + 8 \<le> length b \<or> len \<noteq> 3"
      using that assms(2) N(1) by auto
  qed (use IH Suc.prems in simp)
  then show ?case
    using Suc.prems IH assms N
    by (auto simp: N_def [symmetric] Let_def AddU32_eq unat_string_bytes word_less_nat_alt [where 'a = 32] not_less not_le
        unat_add_u32 simp del: wp_bind simp add: wp_bind [of "ReadUnaligned32 _ _"] wp_bind [of "readU16 _ _"])
qed simp

lemma WalkResourceLevels_wp:
  assumes "unat rva + unat n < 2 ^ 32" "unat rva + unat n + 16 \<le> length b" "24 \<le> unat n"
  shows "e + 8 \<le> length b \<Longrightarrow> wp (WalkResourceLevels b rva n e k) (\<lambda>e'. e' + 8 \<le> length b)"
proof (induction k arbitrary: e)
  case (Suc k)
  define D where "D = offset_bits (get_word 4 b (e + 4))"
  have "unat (n - 16) = unat n - 16"
    using assms(3) by (simp add: unat_sub word_le_nat_alt)
  then have size: "unat (n - 16 + 8) = unat n - 8" "unat (n - 8) = unat n - 8"
    using assms(3) u32_less [of n] by (simp_all add: unat_add_u32 unat_sub word_le_nat_alt)
  have D: "unat (rva + D) = unat rva + unat D" if "unat D \<le> unat n - 8"
    using that assms(1) by (simp add: unat_add_u32)
  have "wp (WalkResourceLevels b rva n (unat (rva + D) + 16) k) (\<lambda>e'. e' + 8 \<le> length b)" if "unat D \<le> unat n - 8"
    using that D assms(2,3) by (intro Suc.IH) simp
  then show ?case
    using Suc.prems assms size D
    by (auto simp: D_def [symmetric] Let_def word_less_nat_alt [where 'a = 32] not_less)
qed simp

lemma ResourceData_wp:
  assumes "unat rva + unat n < 2 ^ 32" "unat rva + unat n \<le> length b" "24 \<le> unat n" "e + 8 \<le> length b"
  shows "wp (ResourceData b sz rva n e) (\<lambda>(r, m). unat r + unat m \<le> unat sz)"
proof -
  define D where "D = (get_word 4 b (e + 4) :: u32)"
  have size: "unat (n - 16) = unat n - 16"
    using assms(3) by (simp add: unat_sub word_le_nat_alt)
  have D: "unat (rva + D) = unat rva + unat D" if "unat D \<le> unat n - 16"
    using that assms(1) by (simp add: unat_add_u32)
  show ?thesis
    using assms size D
    by (auto simp: ResourceData_def D_def [symmetric] Let_def AddU32_eq word_less_nat_alt [where 'a = 32] not_less not_le
        unat_add_u32)
qed

lemma unat_entries:
  "unat (16 + (8 * ucast (a :: u16) + 8 * ucast (b :: u16)) :: u32) = 16 + 8 * (unat a + unat b)"
proof -
  have "unat (ucast x :: u32) = unat x" for x :: u16
    by (simp only: unat_eq_nat_uint uint_ucast_up)
  then have "unat (8 * ucast x :: u32) = 8 * unat x" for x :: u16
    using u16_less [of x] by (simp add: unat_word_ariths(2))
  moreover from this have "unat (8 * ucast a + 8 * ucast b :: u32) = 8 * (unat a + unat b)"
    using u16_less [of a] u16_less [of b] by (simp add: unat_add_u32)
  ultimately show ?thesis
    using u16_less [of a] u16_less [of b] by (simp add: unat_add_u32)
qed

lemma PeCoffGetHiiDataRva_wp:
  assumes "wf_context cfg c" "unat (SizeOfImage c) + 16 \<le> length (ImageBytes c)"
  shows "wp (PeCoffGetHiiDataRva c) (\<lambda>(r, m). unat r + unat m \<le> unat (SizeOfImage c))"
proof -
  let ?b = "ImageBytes c"
  have search: "wp (bindR (FindHiiEntry ?b rva n (unat rva + 16) k) (\<lambda>e. bindR (WalkResourceLevels ?b rva n e 2)
      (ResourceData ?b (SizeOfImage c) rva n))) (\<lambda>(r, m). unat r + unat m \<le> unat (SizeOfImage c))"
    if "24 \<le> unat n" "unat rva + unat n \<le> unat (SizeOfImage c)" "16 + 8 * k \<le> unat n" for rva n :: u32 and k
  proof -
    have bound: "unat rva + unat n < 2 ^ 32" "unat rva + unat n + 16 \<le> length ?b" "unat rva + unat n \<le> length ?b"
      using that(2) assms(2) u32_less [of "SizeOfImage c"] by simp_all
    show ?thesis
      by (rule wp_bindI [OF FindHiiEntry_wp [OF bound(1,3)]], use that bound in simp)
        (rule wp_bindI [OF WalkResourceLevels_wp [OF bound(1,2) that(1)]], assumption, rule ResourceData_wp [OF bound(1,3) that(1)])
  qed
  show ?thesis
    unfolding PeCoffGetHiiDataRva_def
  proof (rule wp_bindI [OF GetDataDirectory_safe [OF assms(1)]])
    fix d :: "u32 \<times> u32"
    obtain rva n where d: "d = (rva, n)"
      by (cases d)
    show "wp (case d of (rva, n) \<Rightarrow> let b = ?b in
        if n < 16 + 8 then fail RETURN_NOT_FOUND
        else if \<not> IS_ALIGNED rva 4 then fail RETURN_VOLUME_CORRUPTED
        else let (Overflow, TopOffset) = BaseOverflowAddU32 rva n
          in if Overflow \<or> TopOffset > SizeOfImage c then fail RETURN_VOLUME_CORRUPTED
             else bindR (readU16 b (unat rva + 12)) (\<lambda>named. bindR (readU16 b (unat rva + 14)) (\<lambda>ids.
               if 16 + 8 * (ucast named + ucast ids) > n then fail RETURN_VOLUME_CORRUPTED
               else bindR (FindHiiEntry b rva n (unat rva + 16) (unat named)) (\<lambda>e.
                 bindR (WalkResourceLevels b rva n e 2) (ResourceData b (SizeOfImage c) rva n)))))
      (\<lambda>(r, m). unat r + unat m \<le> unat (SizeOfImage c))"
      using assms(2) search [of n rva]
      by (auto simp: d Let_def AddU32_eq unat_entries word_less_nat_alt [where 'a = 32] not_less not_le unat_add_u32)
  qed
qed

end
