(* ===== verification/PeTablesSample.thy ===== *)
theory PeTablesSample
  imports PeSample
begin

text \<open>
  A PE32 image with a debug directory, a resource directory, which ends with the image, and a
  security directory with two certificates: the concrete input for the properties of hashing, debug
  information and HII data.
\<close>

definition tables_headers :: "u8 list" where
  "tables_headers =
   [0x50, 0x45, 0, 0, 0x4C, 1, 1, 0, 0, 0, 0, 0, 0, 0, 0, 0,
    0, 0, 0, 0, 0x98, 0, 2, 1, 0x0B, 1, 0, 0, 0, 0, 0, 0,
    0, 0, 0, 0, 0, 0, 0, 0, 0xD8, 0, 0, 0, 0, 0, 0, 0,
    0, 0, 0, 0, 0, 0, 0x40, 0, 8, 0, 0, 0, 0, 0, 0, 0,
    0, 0, 0, 0, 0, 0, 0, 0, 0, 0, 0, 0, 0, 0, 0, 0,
    0, 0, 0, 0, 0xD8, 0, 0, 0, 0, 0, 0, 0, 0x0B, 0, 0, 0,
    0, 0, 0, 0, 0, 0, 0, 0, 0, 0, 0, 0, 0, 0, 0, 0,
    0, 0, 0, 0, 7, 0, 0, 0, 0, 0, 0, 0, 0, 0, 0, 0,
    0, 0, 0, 0, 0, 0, 0, 0, 0x10, 1, 0, 0, 0x20, 0, 0, 0,
    0, 0, 0, 0, 0, 0, 0, 0, 0x30, 1, 0, 0, 0x18, 0, 0, 0,
    0, 0, 0, 0, 0, 0, 0, 0, 0xD8, 0, 0, 0, 0x1C, 0, 0, 0,
    0x2E, 0x64, 0x61, 0x74, 0x61, 0, 0, 0, 0x58, 0, 0, 0, 0xD8, 0, 0, 0,
    0x58, 0, 0, 0, 0xD8, 0, 0, 0, 0, 0, 0, 0, 0, 0, 0, 0,
    0, 0, 0, 0, 0x40, 0, 0, 0xC0]"

definition tables_data :: "u8 list" where
  "tables_data =
   [0, 0, 0, 0, 0, 0, 0, 0, 0, 0, 0, 0, 2, 0, 0, 0,
    0x1C, 0, 0, 0, 0xF4, 0, 0, 0, 0xF4, 0, 0, 0, 0x52, 0x53, 0x44, 0x53,
    1, 2, 3, 4, 5, 6, 7, 8, 9, 0x0A, 0x0B, 0x0C, 0x0D, 0x0E, 0x0F, 0x10,
    1, 0, 0, 0, 0x61, 0x2E, 0x70, 0, 0, 0, 0, 0, 0, 0, 0, 0,
    0, 0, 0, 0, 1, 0, 0, 0, 0x18, 0, 0, 0x80, 0x18, 0, 0, 0x80,
    3, 0, 0x48, 0, 0x49, 0, 0x49, 0]"

definition tables_certificates :: "u8 list" where
  "tables_certificates =
   [0x0C, 0, 0, 0, 0, 2, 2, 0, 1, 2, 3, 4, 0, 0, 0, 0,
    8, 0, 0, 0, 0, 2, 2, 0]"

definition tables_file :: buffer where
  "tables_file = \<lparr>Address = 0x10000, Bytes = tables_headers @ tables_data @ tables_certificates\<rparr>"

definition data_header :: EFI_IMAGE_SECTION_HEADER where
  "data_header = \<lparr>SectionName = [0x2E, 0x64, 0x61, 0x74, 0x61, 0, 0, 0], VirtualSize = 88, VirtualAddress = 216,
     SizeOfRawData = 88, PointerToRawData = 216, PointerToRelocations = 0, PointerToLinenumbers = 0,
     NumberOfRelocations = 0, NumberOfLinenumbers = 0, Characteristics = 0xC0000040\<rparr>"

definition tables_context :: pe_context where
  "tables_context =
     \<lparr> ImageBase = 0x400000, FileBuffer = tables_file, FileSize = 328, ImageBuffer = NotLoaded,
       SectionsOffset = 176, NumberOfSections = 1, SizeOfImage = 304, SectionAlignment = 8,
       ExeHdrOffset = 0, SizeOfHeaders = 216, AddressOfEntryPoint = 216, RelocsStripped = False,
       ImageType = PeCoffLoaderTypePe32, Subsystem = 11, Machine = 0x14C, RelocDirRva = 0,
       RelocDirSize = 0, SecDirOffset = 304, SecDirSize = 24 \<rparr>"

lemmas tables_defs = tables_file_def tables_headers_def tables_data_def tables_certificates_def

lemma tables_length: "length (Bytes tables_file) = 328"
  by (simp add: tables_defs)

lemma tables_address: "Address tables_file = 0x10000"
  by (simp add: tables_file_def)

lemma tables_header_fields:
  "get_word 2 (Bytes tables_file) 0 = (0x4550 :: u16)"
  "get_word 4 (Bytes tables_file) 0 = (0x4550 :: u32)"
  "get_word 2 (Bytes tables_file) 24 = (0x10b :: u16)"
  "get_word 2 (Bytes tables_file) 92 = (0xb :: u16)"
  "get_word 4 (Bytes tables_file) 84 = (0xd8 :: u32)"
  "get_word 4 (Bytes tables_file) 52 = (0x400000 :: u32)"
  "get_word 4 (Bytes tables_file) 40 = (0xd8 :: u32)"
  "get_word 4 (Bytes tables_file) 56 = (8 :: u32)"
  "get_word 4 (Bytes tables_file) 116 = (7 :: u32)"
  "get_word 2 (Bytes tables_file) 20 = (0x98 :: u16)"
  "get_word 2 (Bytes tables_file) 6 = (1 :: u16)"
  "get_word 2 (Bytes tables_file) 4 = (0x14c :: u16)"
  "get_word 2 (Bytes tables_file) 22 = (0x102 :: u16)"
  "get_word 4 (Bytes tables_file) 160 = (0 :: u32)"
  "get_word 4 (Bytes tables_file) 164 = (0 :: u32)"
  "get_word 4 (Bytes tables_file) 152 = (0x130 :: u32)"
  "get_word 4 (Bytes tables_file) 156 = (0x18 :: u32)"
  "get_word 4 (Bytes tables_file) 136 = (0x110 :: u32)"
  "get_word 4 (Bytes tables_file) 140 = (0x20 :: u32)"
  "get_word 4 (Bytes tables_file) 168 = (0xd8 :: u32)"
  "get_word 4 (Bytes tables_file) 172 = (0x1c :: u32)"
  by (simp_all add: tables_defs get_word_def)

lemma tables_section_fields:
  "get_word 4 (Bytes tables_file) 184 = (0x58 :: u32)"
  "get_word 4 (Bytes tables_file) 188 = (0xd8 :: u32)"
  "get_word 4 (Bytes tables_file) 192 = (0x58 :: u32)"
  "get_word 4 (Bytes tables_file) 196 = (0xd8 :: u32)"
  "get_word 4 (Bytes tables_file) 200 = (0 :: u32)"
  "get_word 4 (Bytes tables_file) 204 = (0 :: u32)"
  "get_word 2 (Bytes tables_file) 208 = (0 :: u16)"
  "get_word 2 (Bytes tables_file) 210 = (0 :: u16)"
  "get_word 4 (Bytes tables_file) 212 = (0xc0000040 :: u32)"
  by (simp_all add: tables_defs get_word_def)

lemma tables_table_fields:
  "get_word 4 (Bytes tables_file) 228 = (2 :: u32)"
  "get_word 4 (Bytes tables_file) 232 = (0x1c :: u32)"
  "get_word 4 (Bytes tables_file) 240 = (0xf4 :: u32)"
  "get_word 4 (Bytes tables_file) 244 = (0x53445352 :: u32)"
  "get_word 2 (Bytes tables_file) 284 = (1 :: u16)"
  "get_word 2 (Bytes tables_file) 286 = (0 :: u16)"
  "get_word 4 (Bytes tables_file) 288 = (0x80000018 :: u32)"
  "get_word 4 (Bytes tables_file) 292 = (0x80000018 :: u32)"
  "get_word 2 (Bytes tables_file) 296 = (3 :: u16)"
  "get_word 2 (Bytes tables_file) 298 = (0x48 :: u16)"
  "get_word 2 (Bytes tables_file) 300 = (0x49 :: u16)"
  "get_word 2 (Bytes tables_file) 302 = (0x49 :: u16)"
  "get_word 4 (Bytes tables_file) 304 = (0xc :: u32)"
  "get_word 4 (Bytes tables_file) 320 = (8 :: u32)"
  by (simp_all add: tables_defs get_word_def)

lemma tables_section_name: "take 8 (drop 176 (Bytes tables_file)) = [0x2E, 0x64, 0x61, 0x74, 0x61, 0, 0, 0]"
  by (simp add: tables_defs)

lemma tables_table: "section_table (Bytes tables_file) 176 (Suc 0) = [data_header]"
  by (simp add: section_table_def section_header_def tables_section_fields tables_section_name data_header_def)

lemma tables_init: "PeCoffInitializeContext sample_cfg tables_file 328 UefiImageOriginFv = Inr tables_context"
  by (simp add: sample_init_rules tables_length tables_address tables_header_fields tables_table data_header_def
      tables_context_def)

lemma tables_Sections: "Sections tables_context = [data_header]"
  by (simp add: Sections_def tables_context_def tables_table)

text \<open>The image loaded into a buffer with \<open>n\<close> bytes to spare.\<close>

definition tables_loaded :: "nat \<Rightarrow> pe_context" where
  "tables_loaded n = tables_context\<lparr>ImageBuffer :=
     Destination \<lparr>Address = 0x20000, Bytes = take 304 (Bytes tables_file) @ replicate n 0\<rparr>\<rparr>"

end
