(* ===== verification/PeTablesSpec.thy ===== *)
theory PeTablesSpec
  imports PeCoffSpec PeCoffHash PeCoffDebug PeCoffHii PeTablesSample
begin

text \<open>
  The properties of hashing, certificates, debug information and HII data of an accepted image.
\<close>

section \<open>The sample image\<close>

lemma tables_wf: "wf_context sample_cfg tables_context"
  using wp_Inr [OF PeCoffInitializeContext_wp [OF sample_wf_cfg, of tables_file 328] tables_init]
  by (simp add: tables_length tables_address)

lemma tables_loaded_wf: "wf_context sample_cfg (tables_loaded n)"
  by (simp add: tables_loaded_def tables_wf)

lemma tables_directory: "DataDirectoryOffset tables_context = 120" "RvaAndSizes tables_context = 7"
  by (simp_all add: DataDirectoryOffset_def RvaAndSizes_def tables_context_def tables_header_fields)

lemma tables_sorted: "sorted_sections tables_context = [data_header]"
  by (simp add: sorted_sections_def tables_Sections)

lemma tables_hashable: "hashable sample_cfg tables_context"
  by (simp add: hashable_def tables_sorted tables_Sections) (simp add: data_header_def tables_context_def)

section \<open>The Authenticode hash\<close>

text \<open>C15: the Authenticode hash of an accepted image is the hash of the header ranges without checksum
  and certificate table entry, of the sections in the order of their file offsets, and of the data
  behind them; it reads only inside of the file, stops where the algorithm fails, and fails where
  sections overlap against the policy or the sizes overflow.\<close>
theorem PeCoffHashImageAuthenticode_refines:
  assumes "wf_context cfg c" "length pool = unat (NumberOfSections c)"
  shows "if hashable cfg c
    then PeCoffHashImageAuthenticode cfg c (Some pool) hu h = Inr (hash_ranges hu (FileBytes c) h (authenticode_ranges c))
    else \<exists>h'. PeCoffHashImageAuthenticode cfg c (Some pool) hu h = Inr (False, h')"
  by (rule PeCoffHashImageAuthenticode_exact [OF assms])

theorem PeCoffHashImageAuthenticode_refines_witness:
  "PeCoffHashImageAuthenticode sample_cfg tables_context (Some [text_header]) (\<lambda>n d. (True, n + length d)) 0 =
     Inr (hash_ranges (\<lambda>n d. (True, n + length d)) (Bytes tables_file) 0 [(0, 88), (92, 60), (160, 56), (216, 88)])"
proof -
  have "authenticode_ranges tables_context = [(0, 88), (92, 60), (160, 56), (216, 88)]"
    by (simp add: authenticode_ranges_def header_ranges_def trailing_ranges_def tables_directory tables_sorted tables_Sections)
      (simp add: tables_context_def data_header_def raw_range_def)
  moreover have "FileBytes tables_context = Bytes tables_file" "unat (NumberOfSections tables_context) = 1"
    by (simp_all add: tables_context_def)
  ultimately show ?thesis
    using PeCoffHashImageAuthenticode_refines [OF tables_wf, of "[text_header]" "\<lambda>n d. (True, n + length d)" 0]
    by (simp add: tables_hashable)
qed



section \<open>Certificates\<close>

fun certificate_walk :: "nat \<Rightarrow> loader_cfg \<Rightarrow> pe_context \<Rightarrow> nat \<Rightarrow> nat list \<times> stop" where
  "certificate_walk 0 cfg c p = ([], OutOfFuel)"
| "certificate_walk (Suc n) cfg c p =
     (case PeCoffGetNextCertificate cfg c p of
        Inl e \<Rightarrow> ([p], e)
      | Inr q \<Rightarrow> (p # fst (certificate_walk n cfg c q), snd (certificate_walk n cfg c q)))"

lemma certificate_walk_spec:
  assumes "wf_context cfg c"
  shows "wf_cert cfg c p \<Longrightarrow> unat (SecDirOffset c) + unat (SecDirSize c) \<le> p + 8 * n \<Longrightarrow>
    (\<exists>s. snd (certificate_walk n cfg c p) = Status s) \<and>
    (\<forall>q \<in> set (fst (certificate_walk n cfg c p)). p \<le> q \<and> wf_cert cfg c q) \<and>
    sorted_wrt (\<lambda>q r. q + cert_length c q \<le> r) (fst (certificate_walk n cfg c p))"
proof (induction n arbitrary: p)
  case (Suc n)
  note next_wp = PeCoffGetNextCertificate_wp [OF assms Suc.prems(1)]
  show ?case
  proof (cases "PeCoffGetNextCertificate cfg c p")
    case (Inl e)
    then show ?thesis
      using next_wp Suc.prems(1) by (cases e) simp_all
  next
    case (Inr q)
    then have q: "wf_cert cfg c q" "q = p + align_up (cert_length c p) 8"
      using next_wp by auto
    have len: "8 \<le> cert_length c p" "p + cert_length c p \<le> q"
      using Suc.prems(1) q(2) align_up_ge [of "cert_length c p" 8] by (simp_all add: wf_cert_def)
    then have "unat (SecDirOffset c) + unat (SecDirSize c) \<le> q + 8 * n"
      using Suc.prems(2) by simp
    from Suc.IH [OF q(1) this] show ?thesis
      using Inr Suc.prems(1) len by fastforce
  qed
qed (auto simp: wf_cert_def)

text \<open>C17: iterating over the certificates of an accepted image from the first one on terminates with a
  status; every certificate reached lies inside of the security directory, and no two overlap.\<close>
theorem certificate_walk_terminates:
  assumes "wf_context cfg c" "FirstCertificate cfg c = Inr p" "unat (SecDirSize c) \<le> 8 * n"
  shows "(\<exists>s. snd (certificate_walk n cfg c p) = Status s) \<and>
    (\<forall>q \<in> set (fst (certificate_walk n cfg c p)). unat (SecDirOffset c) \<le> q \<and>
       sizeof_WIN_CERTIFICATE \<le> cert_length c q \<and> q + cert_length c q \<le> unat (SecDirOffset c) + unat (SecDirSize c)) \<and>
    sorted_wrt (\<lambda>q r. q + cert_length c q \<le> r) (fst (certificate_walk n cfg c p))"
proof -
  have "p = unat (SecDirOffset c)" "wf_cert cfg c p"
    using wp_Inr [OF FirstCertificate_wp [OF assms(1)] assms(2)] by auto
  then show ?thesis
    using certificate_walk_spec [OF assms(1), of p n] assms(3) by (auto simp: wf_cert_def)
qed

theorem certificate_walk_terminates_witness:
  "FirstCertificate sample_cfg tables_context = Inr 304 \<and>
   (\<exists>s. snd (certificate_walk 3 sample_cfg tables_context 304) = Status s)"
proof -
  have "FirstCertificate sample_cfg tables_context = Inr 304"
    by (simp add: FirstCertificate_def tables_context_def ReadUnaligned32_def read_word_def tables_length tables_table_fields
        strict_certificates_def sample_cfg_def)
  with certificate_walk_terminates [OF tables_wf this, of 3] show ?thesis
    by (simp add: tables_context_def)
qed

text \<open>C38: with assertions enabled the first certificate of an accepted image is never returned: the
  ASSERT on the offset of the security directory demands that it is misaligned.\<close>
theorem PeCoffGetFirstCertificate_asserts:
  assumes "wf_context cfg c"
  shows "PeCoffGetFirstCertificate cfg c = Inl AssertFailed"
proof -
  have "8 dvd unat (SecDirOffset c)"
    using wf_contextD(6) [OF assms] by (simp add: wf_security_dir_def)
  then have "4 dvd unat (SecDirOffset c)"
    by (rule dvd_trans [rotated]) simp
  then have "SecDirOffset c mod 4 = 0"
    by (simp add: word_unat_eq_iff unat_mod_distrib dvd_eq_mod_eq_0)
  then show ?thesis
    by (simp add: PeCoffGetFirstCertificate_def)
qed

theorem PeCoffGetFirstCertificate_asserts_witness:
  "PeCoffGetFirstCertificate sample_cfg tables_context = Inl AssertFailed"
  using PeCoffGetFirstCertificate_asserts [OF tables_wf] .

section \<open>Debug information\<close>

lemma tables_image_bytes: "ImageBytes (tables_loaded n) = take 304 (Bytes tables_file) @ replicate n 0"
  by (simp add: tables_loaded_def ImageBytes_def)

lemma tables_image:
  "length (ImageBytes (tables_loaded n)) = 304 + n" "SizeOfImage (tables_loaded n) = 304"
  "FileBytes (tables_loaded n) = Bytes tables_file" "FileSize (tables_loaded n) = 328"
  by (simp_all add: tables_loaded_def ImageBytes_def tables_context_def tables_length)

lemma tables_loaded_directory: "GetDataDirectory (tables_loaded n) i = GetDataDirectory tables_context i"
  by (simp add: GetDataDirectory_def tables_loaded_def)

lemma tables_word: "off + k \<le> 304 \<Longrightarrow> get_word k (ImageBytes (tables_loaded n)) off = get_word k (Bytes tables_file) off"
  unfolding tables_image_bytes by (rule get_word_cong) (simp add: tables_length drop_take)

text \<open>C18: looking up the path of the debug symbols of a loaded image accesses only image and file; a
  path that is returned lies inside of the file, is not empty, ends with a zero byte, and is the end of
  the data of the first CodeView entry of the debug directory.\<close>
theorem PeCoffGetPdbPath_correct:
  assumes "wf_context cfg c" "unat (SizeOfImage c) \<le> length (ImageBytes c)"
  shows "PeCoffGetPdbPath cfg c \<notin> {Inl OutOfBounds, Inl AssertFailed, Inl OutOfFuel} \<and>
    (\<forall>off n. PeCoffGetPdbPath cfg c = Inr (off, n) \<longrightarrow>
       0 < unat n \<and> off + unat n \<le> length (FileBytes c) \<and> FileBytes c ! (off + unat n - 1) = 0 \<and>
       (\<exists>rva dsize entry. GetDataDirectory c 6 = Inr (rva, dsize) \<and>
          first_code_view (ImageBytes c) (unat rva) (unat dsize div sizeof_DEBUG_DIRECTORY_ENTRY) entry \<and>
          off + unat n = unat (get_word 4 (ImageBytes c) (entry + 24) :: u32) + unat (get_word 4 (ImageBytes c) (entry + 16) :: u32)))"
  using PeCoffGetPdbPath_wp [OF assms] unfolding wp_iff pdb_path_ok_def by auto

theorem PeCoffGetPdbPath_correct_witness:
  "PeCoffGetPdbPath sample_cfg (tables_loaded 0) = Inr (268, 4) \<and> Bytes tables_file ! 271 = 0"
proof -
  have dir: "GetDataDirectory (tables_loaded 0) 6 = Inr (216, 28)"
    unfolding tables_loaded_directory
    by (simp add: GetDataDirectory_exact [OF tables_wf] tables_directory) (simp add: tables_context_def tables_header_fields)
  have "get_word 1 (Bytes tables_file) 271 = (0 :: u8)"
    by (simp add: tables_defs get_word_def)
  then have "PeCoffGetPdbPath sample_cfg (tables_loaded 0) = Inr (268, 4)"
    by (simp add: PeCoffGetPdbPath_def dir sample_cfg_def AddU32_eq SubU32_eq tables_image IS_ALIGNED_numeral numeral_eq_Suc [of num.One]
        CodeViewPath_def Let_def ReadUnaligned32_def read_word_def readU8_def tables_word tables_length tables_table_fields
        CodeViewPdbOffset_def)
  then show ?thesis
    using PeCoffGetPdbPath_correct [OF tables_loaded_wf, of 0] by (simp add: tables_image)
qed

section \<open>HII data\<close>

text \<open>C19: where the buffer of a loaded image has sixteen bytes to spare, looking up the HII data stays
  inside of the buffer, and data that is returned lies inside of the image.\<close>
theorem PeCoffGetHiiDataRva_bounded:
  assumes "wf_context cfg c" "unat (SizeOfImage c) + 16 \<le> length (ImageBytes c)"
  shows "PeCoffGetHiiDataRva c \<notin> {Inl OutOfBounds, Inl AssertFailed, Inl OutOfFuel} \<and>
    (\<forall>rva n. PeCoffGetHiiDataRva c = Inr (rva, n) \<longrightarrow> unat rva + unat n \<le> unat (SizeOfImage c))"
  using PeCoffGetHiiDataRva_wp [OF assms] unfolding wp_iff by auto

theorem PeCoffGetHiiDataRva_bounded_witness:
  "PeCoffGetHiiDataRva (tables_loaded 16) \<notin> {Inl OutOfBounds, Inl AssertFailed, Inl OutOfFuel}"
  using PeCoffGetHiiDataRva_bounded [OF tables_loaded_wf, of 16] by (simp add: tables_image)

text \<open>Without bytes to spare it does not: a subdirectory may start eight bytes before the end of the
  resource directory, and its header is then read beyond the end of the image.\<close>
theorem PeCoffGetHiiDataRva_out_of_bounds:
  "PeCoffInitializeContext sample_cfg tables_file 328 UefiImageOriginFv = Inr tables_context \<and>
   wf_context sample_cfg (tables_loaded 0) \<and> length (ImageBytes (tables_loaded 0)) = unat (SizeOfImage (tables_loaded 0)) \<and>
   PeCoffGetHiiDataRva (tables_loaded 0) = Inl OutOfBounds"
proof -
  have dir: "GetDataDirectory (tables_loaded 0) 2 = Inr (272, 32)"
    unfolding tables_loaded_directory
    by (simp add: GetDataDirectory_exact [OF tables_wf] tables_directory) (simp add: tables_context_def tables_header_fields)
  have "FindHiiEntry (ImageBytes (tables_loaded 0)) 272 32 288 (Suc 0) = Inr 288"
    by (simp add: AddU32_eq Let_def IS_ALIGNED_def ALIGN_VALUE_SUBTRAHEND_def ReadUnaligned32_def readU16_def read_word_def
        IsHiiString_def tables_image tables_word tables_table_fields)
  moreover have "WalkResourceLevels (ImageBytes (tables_loaded 0)) 272 32 288 (Suc (Suc 0)) = Inl OutOfBounds"
    by (simp add: Let_def IS_ALIGNED_def ALIGN_VALUE_SUBTRAHEND_def ReadUnaligned32_def readU16_def read_word_def
        tables_image tables_word tables_table_fields)
  ultimately have "PeCoffGetHiiDataRva (tables_loaded 0) = Inl OutOfBounds"
    by (fold numeral_2_eq_2) (simp add: PeCoffGetHiiDataRva_def dir Let_def AddU32_eq IS_ALIGNED_numeral readU16_def read_word_def
        tables_image tables_word tables_table_fields)
  then show ?thesis
    using tables_init by (simp add: tables_loaded_wf tables_image)
qed

end
