(* ===== verification/UeImage.thy ===== *)
theory UeImage
  imports PeImage
begin

text \<open>
  UE images (\<^verbatim>\<open>IndustryStandard/UeImage.h\<close>, \<^verbatim>\<open>Library/UeImageLib.h\<close>): the accessors of the
  packed fields, the segment and load tables of a file, the image context, and its getters.
\<close>

section \<open>Packed fields\<close>

definition UE_SEGMENT_PERMISSIONS :: "u32 \<Rightarrow> u8" where
  "UE_SEGMENT_PERMISSIONS ImageInfo = ucast (drop_bit 20 ImageInfo AND 0x03)"

definition UE_SEGMENT_SIZE :: "u32 \<Rightarrow> u32" where
  "UE_SEGMENT_SIZE ImageInfo = push_bit 12 ImageInfo"

definition UE_LOAD_TABLE_ID :: "u32 \<Rightarrow> u8" where
  "UE_LOAD_TABLE_ID FileInfo = ucast (drop_bit 29 FileInfo)"

definition UE_LOAD_TABLE_SIZE :: "u32 \<Rightarrow> u32" where
  "UE_LOAD_TABLE_SIZE FileInfo = push_bit 3 FileInfo"

abbreviation (input) UeLoadTableIdReloc :: u8 where "UeLoadTableIdReloc \<equiv> 0x00"
abbreviation (input) UeLoadTableIdDebug :: u8 where "UeLoadTableIdDebug \<equiv> 0x01"
abbreviation (input) UE_LOAD_TABLE_ALIGNMENT :: u32 where "UE_LOAD_TABLE_ALIGNMENT \<equiv> 8"
abbreviation (input) UE_HEADER_MAGIC :: u16 where "UE_HEADER_MAGIC \<equiv> 0x4555"
abbreviation (input) UE_HEADER_IMAGE_INFO_XIP :: u64 where "UE_HEADER_IMAGE_INFO_XIP \<equiv> 0x0100000000000000"
abbreviation (input) UE_HEADER_IMAGE_INFO_FIXED_ADDRESS :: u64 where
  "UE_HEADER_IMAGE_INFO_FIXED_ADDRESS \<equiv> 0x0200000000000000"
abbreviation (input) UE_HEADER_IMAGE_INFO_RELOCATION_FIXUPS_STRIPPED :: u64 where
  "UE_HEADER_IMAGE_INFO_RELOCATION_FIXUPS_STRIPPED \<equiv> 0x0400000000000000"
abbreviation (input) UE_HEADER_IMAGE_INFO_CHAINED_FIXUPS :: u64 where
  "UE_HEADER_IMAGE_INFO_CHAINED_FIXUPS \<equiv> 0x0800000000000000"

definition UE_HEADER_BASE_ADDRESS :: "u64 \<Rightarrow> u64" where
  "UE_HEADER_BASE_ADDRESS ImageInfo = LShiftU64 ImageInfo 12"

definition UE_HEADER_SEGMENT_ALIGNMENT :: "u64 \<Rightarrow> u32" where
  "UE_HEADER_SEGMENT_ALIGNMENT ImageInfo = push_bit (unat (RShiftU64 ImageInfo 60) + 12) 1"

definition UE_HEADER_SUBSYSTEM :: "u8 \<Rightarrow> u8" where
  "UE_HEADER_SUBSYSTEM Type = Type AND 0x07"

definition UE_HEADER_ARCH :: "u8 \<Rightarrow> u8" where
  "UE_HEADER_ARCH Type = drop_bit 3 Type"

definition UE_HEADER_NUM_LOAD_TABLES :: "u8 \<Rightarrow> u8" where
  "UE_HEADER_NUM_LOAD_TABLES TableCounts = TableCounts AND 0x07"

definition UE_HEADER_LAST_SEGMENT_INDEX :: "u8 \<Rightarrow> u8" where
  "UE_HEADER_LAST_SEGMENT_INDEX TableCounts = drop_bit 3 TableCounts"

abbreviation (input) sizeof_UE_SEGMENT :: nat where "sizeof_UE_SEGMENT \<equiv> 8"
abbreviation (input) sizeof_UE_LOAD_TABLE :: nat where "sizeof_UE_LOAD_TABLE \<equiv> 4"
abbreviation (input) MIN_SIZE_OF_UE_HEADER :: u32 where "MIN_SIZE_OF_UE_HEADER \<equiv> 24"
abbreviation (input) MAX_SIZE_OF_UE_HEADER :: u32 where "MAX_SIZE_OF_UE_HEADER \<equiv> 24 + 32 * 8 + 7 * 4"

section \<open>Segments, load tables and the context\<close>

record UE_SEGMENT =
  SegImageInfo :: u32
  SegFileSize :: u32

definition ue_segment :: "u8 list \<Rightarrow> nat \<Rightarrow> UE_SEGMENT" where
  "ue_segment b off = \<lparr> SegImageInfo = get_word 4 b off, SegFileSize = get_word 4 b (off + 4) \<rparr>"

definition segment_table :: "u8 list \<Rightarrow> nat \<Rightarrow> nat \<Rightarrow> UE_SEGMENT list" where
  "segment_table b off n = map (\<lambda>i. ue_segment b (off + sizeof_UE_SEGMENT * i)) [0..<n]"

definition load_table :: "u8 list \<Rightarrow> nat \<Rightarrow> nat \<Rightarrow> u32 list" where
  "load_table b off n = map (\<lambda>i. get_word 4 b (off + sizeof_UE_LOAD_TABLE * i)) [0..<n]"

text \<open>The pointers Segments and LoadTables are offsets into the file.\<close>

record UE_LOADER_IMAGE_CONTEXT =
  UeFileBuffer :: buffer
  UnsignedFileSize :: u32
  UeSubsystem :: u8
  UeMachine :: u8
  FixedAddress :: bool
  XIP :: bool
  LastSegmentIndex :: u8
  SegmentsFileOffset :: u32
  SegmentAlignment :: u32
  UeSegments :: nat
  SegmentImageInfoIterSize :: u8
  UeRelocsStripped :: bool
  NumLoadTables :: u8
  LoadTablesFileOffset :: u32
  RelocTableSize :: u32
  LoadTables :: nat
  UeImageBuffer :: image_buffer
  ImageSize :: u32
  EntryPointAddress :: u32
  BaseAddress :: u64

type_synonym ue_context = UE_LOADER_IMAGE_CONTEXT

abbreviation UeFileBytes :: "ue_context \<Rightarrow> u8 list" where
  "UeFileBytes Context \<equiv> Bytes (UeFileBuffer Context)"

definition zero_ue_context :: "buffer \<Rightarrow> u32 \<Rightarrow> ue_context" where
  "zero_ue_context Buffer Size =
     \<lparr> UeFileBuffer = Buffer, UnsignedFileSize = Size, UeSubsystem = 0, UeMachine = 0,
       FixedAddress = False, XIP = False, LastSegmentIndex = 0, SegmentsFileOffset = 0,
       SegmentAlignment = 0, UeSegments = 0, SegmentImageInfoIterSize = 0, UeRelocsStripped = False,
       NumLoadTables = 0, LoadTablesFileOffset = 0, RelocTableSize = 0, LoadTables = 0,
       UeImageBuffer = NotLoaded, ImageSize = 0, EntryPointAddress = 0, BaseAddress = 0 \<rparr>"

text \<open>The tables that the pointers of the context denote, and reading them with bounds.\<close>

definition ue_segments :: "ue_context \<Rightarrow> UE_SEGMENT list" where
  "ue_segments Context =
     segment_table (UeFileBytes Context) (UeSegments Context) (unat (LastSegmentIndex Context) + 1)"

definition read_segments :: "ue_context \<Rightarrow> UE_SEGMENT list result" where
  "read_segments Context =
     (if UeSegments Context + sizeof_UE_SEGMENT * (unat (LastSegmentIndex Context) + 1) \<le> length (UeFileBytes Context)
      then Inr (ue_segments Context) else Inl OutOfBounds)"

definition ue_load_tables :: "ue_context \<Rightarrow> u32 list" where
  "ue_load_tables Context = load_table (UeFileBytes Context) (LoadTables Context) (unat (NumLoadTables Context))"

definition read_load_tables :: "ue_context \<Rightarrow> u32 list result" where
  "read_load_tables Context =
     (if LoadTables Context + sizeof_UE_LOAD_TABLE * unat (NumLoadTables Context) \<le> length (UeFileBytes Context)
      then Inr (ue_load_tables Context) else Inl OutOfBounds)"

section \<open>Getters\<close>

definition UeGetEntryPointAddress :: "ue_context \<Rightarrow> u32" where
  "UeGetEntryPointAddress Context = EntryPointAddress Context"
definition UeGetMachine :: "ue_context \<Rightarrow> u16" where
  "UeGetMachine Context = ucast (UeMachine Context)"
definition UeGetSubsystem :: "ue_context \<Rightarrow> u16" where
  "UeGetSubsystem Context = ucast (UeSubsystem Context)"
definition UeGetSegmentAlignment :: "ue_context \<Rightarrow> u32" where
  "UeGetSegmentAlignment Context = SegmentAlignment Context"
definition UeGetImageSize :: "ue_context \<Rightarrow> u32" where
  "UeGetImageSize Context = ImageSize Context"
definition UeGetBaseAddress :: "ue_context \<Rightarrow> u64" where
  "UeGetBaseAddress Context = BaseAddress Context"
definition UeGetRelocsStripped :: "ue_context \<Rightarrow> bool" where
  "UeGetRelocsStripped Context = UeRelocsStripped Context"
definition UeGetFixedAddress :: "ue_context \<Rightarrow> bool" where
  "UeGetFixedAddress Context = FixedAddress Context"

text \<open>ImageBuffer as an address; NULL before the image is loaded.\<close>

definition UeLoaderGetImageAddress :: "ue_context \<Rightarrow> u64" where
  "UeLoaderGetImageAddress Context =
     (case UeImageBuffer Context of
        NotLoaded \<Rightarrow> 0
      | Destination d \<Rightarrow> Address d
      | Inplace \<Rightarrow> Address (UeFileBuffer Context))"

text \<open>The segment table is read through the pointer that is returned, so reading it may fault.\<close>

definition UeGetSegments :: "ue_context \<Rightarrow> UE_SEGMENT list result" where
  "UeGetSegments Context = read_segments Context"

definition UeGetSegmentImageInfos :: "ue_context \<Rightarrow> u32 list result" where
  "UeGetSegmentImageInfos Context =
     assertR (IS_ALIGNED (SegmentImageInfoIterSize Context) 4)
       (bindR (read_segments Context) (\<lambda>Segs. Inr (map SegImageInfo Segs)))"

definition UeLoaderGetRuntimeContextSize :: "ue_context \<Rightarrow> u32" where
  "UeLoaderGetRuntimeContextSize Context = 40"

end
