(* ===== verification/UeInit.thy ===== *)
theory UeInit
  imports UeImage
begin

text \<open>
  Validation of UE images (\<^verbatim>\<open>UeInitializeContextPreHash\<close>, \<^verbatim>\<open>UeInitializeContextPostHash\<close> and the
  functions they call in \<^verbatim>\<open>BaseUeImageLib/UeImageLib.c\<close>), the invariant of a validated context, and
  the proof that validation establishes it.
\<close>

section \<open>Validation\<close>

fun VerifySegmentsLoop :: "u32 \<Rightarrow> UE_SEGMENT list \<Rightarrow> u32 \<Rightarrow> u32 \<Rightarrow> (u32 \<times> u32) result" where
  "VerifySegmentsLoop Alignment [] SegmentEndFileOffset SegmentEndImageAddress =
     Inr (SegmentEndFileOffset, SegmentEndImageAddress)"
| "VerifySegmentsLoop Alignment (s # ss) SegmentEndFileOffset SegmentEndImageAddress =
     (let SegmentImageSize = UE_SEGMENT_SIZE (SegImageInfo s) in
      if SegFileSize s > SegmentImageSize then fail RETURN_UNSUPPORTED
      else if \<not> IS_ALIGNED SegmentImageSize Alignment then fail RETURN_UNSUPPORTED
      else
        let (Overflow, SegmentEndImageAddress) = BaseOverflowAddU32 SegmentEndImageAddress SegmentImageSize
        in if Overflow then fail RETURN_UNSUPPORTED
           else VerifySegmentsLoop Alignment ss (SegmentEndFileOffset + SegFileSize s) SegmentEndImageAddress)"

definition InternalVerifySegments :: "ue_context \<Rightarrow> ue_context result" where
  "InternalVerifySegments Context =
     bindR (read_segments Context) (\<lambda>Segs.
     bindR (VerifySegmentsLoop (SegmentAlignment Context) Segs (SegmentsFileOffset Context) 0)
       (\<lambda>(SegmentEndFileOffset, SegmentEndImageAddress).
     let SegmentEndFileOffset = ALIGN_VALUE SegmentEndFileOffset UE_LOAD_TABLE_ALIGNMENT in
     assertR (SegmentsFileOffset Context \<le> SegmentEndFileOffset)
     (if SegmentEndFileOffset > UnsignedFileSize Context then fail RETURN_UNSUPPORTED
      else
        Inr (Context\<lparr>LoadTablesFileOffset := SegmentEndFileOffset,
                     ImageSize := (if XIP Context then SegmentEndImageAddress + SegmentsFileOffset Context
                                   else SegmentEndImageAddress)\<rparr>))))"

text \<open>PrevLoadTableId is an INT16 that starts with -1.\<close>

fun VerifyLoadTablesLoop :: "u32 list \<Rightarrow> int \<Rightarrow> u32 \<Rightarrow> u32 result" where
  "VerifyLoadTablesLoop [] PrevLoadTableId LoadTableEndFileOffset = Inr LoadTableEndFileOffset"
| "VerifyLoadTablesLoop (FileInfo # Infos) PrevLoadTableId LoadTableEndFileOffset =
     (let LoadTableId = uint (UE_LOAD_TABLE_ID FileInfo) in
      if PrevLoadTableId \<ge> LoadTableId then fail RETURN_UNSUPPORTED
      else
        let (Overflow, LoadTableEndFileOffset) =
              BaseOverflowAddU32 LoadTableEndFileOffset (UE_LOAD_TABLE_SIZE FileInfo)
        in if Overflow then fail RETURN_UNSUPPORTED
           else VerifyLoadTablesLoop Infos LoadTableId LoadTableEndFileOffset)"

definition InternalVerifyLoadTables :: "ue_context \<Rightarrow> ue_context result" where
  "InternalVerifyLoadTables Context =
     (let Context = Context\<lparr>RelocTableSize := 0\<rparr> in
      bindR (read_load_tables Context) (\<lambda>Infos.
      bindR (VerifyLoadTablesLoop Infos (- 1) (LoadTablesFileOffset Context)) (\<lambda>LoadTableEndFileOffset.
      bindR
        (if Infos \<noteq> [] \<and> UE_LOAD_TABLE_ID (hd Infos) = UeLoadTableIdReloc then
           if UeRelocsStripped Context then fail RETURN_UNSUPPORTED
           else Inr (Context\<lparr>RelocTableSize := UE_LOAD_TABLE_SIZE (hd Infos)\<rparr>)
         else Inr Context) (\<lambda>Context.
      if LoadTableEndFileOffset \<noteq> UnsignedFileSize Context then fail RETURN_UNSUPPORTED
      else Inr Context))))"

definition UeInitializeContextPreHash :: "buffer \<Rightarrow> u32 \<Rightarrow> ue_context result" where
  "UeInitializeContextPreHash Buffer Size =
     assertR (Address Buffer \<noteq> 0 \<or> Size = 0)
     (if MIN_SIZE_OF_UE_HEADER > Size then fail RETURN_UNSUPPORTED
      else
        bindR (readU16 (Bytes Buffer) 0) (\<lambda>Magic.
        if Magic \<noteq> UE_HEADER_MAGIC then fail RETURN_UNSUPPORTED
        else Inr (zero_ue_context Buffer Size)))"

definition UeHashImageDefault :: "ue_context \<Rightarrow> ('h \<Rightarrow> u8 list \<Rightarrow> bool \<times> 'h) \<Rightarrow> 'h \<Rightarrow> (bool \<times> 'h) result" where
  "UeHashImageDefault Context HashUpdate HashContext =
     bindR (read_bytes (UeFileBytes Context) 0 (unat (UnsignedFileSize Context))) (\<lambda>data.
     Inr (HashUpdate HashContext data))"

definition InternalInitializeContextLate :: "ue_context \<Rightarrow> ue_context result" where
  "InternalInitializeContextLate Context =
     (if EntryPointAddress Context > ImageSize Context then fail RETURN_UNSUPPORTED
      else InternalVerifyLoadTables Context)"

text \<open>The part of UeInitializeContextPostHash up to the verification of the segments.\<close>

definition UeInitializeHeader :: "ue_context \<Rightarrow> u64 \<Rightarrow> u8 \<Rightarrow> ue_context result" where
  "UeInitializeHeader Context ImageInfo TableCounts =
     (let Context = Context\<lparr>
            FixedAddress := (ImageInfo AND UE_HEADER_IMAGE_INFO_FIXED_ADDRESS \<noteq> 0),
            UeRelocsStripped := (ImageInfo AND UE_HEADER_IMAGE_INFO_RELOCATION_FIXUPS_STRIPPED \<noteq> 0),
            XIP := (ImageInfo AND UE_HEADER_IMAGE_INFO_XIP \<noteq> 0),
            UeSegments := 16,
            SegmentImageInfoIterSize := 8,
            SegmentAlignment := UE_HEADER_SEGMENT_ALIGNMENT ImageInfo\<rparr>;
          LastIndex = UE_HEADER_LAST_SEGMENT_INDEX TableCounts;
          NumTables = UE_HEADER_NUM_LOAD_TABLES TableCounts;
          LoadTablesOffset = MIN_SIZE_OF_UE_HEADER + ucast LastIndex * word_of_nat sizeof_UE_SEGMENT;
          HeaderSize = LoadTablesOffset + ucast NumTables * word_of_nat sizeof_UE_LOAD_TABLE
      in assertR (HeaderSize \<le> MAX_SIZE_OF_UE_HEADER)
         (let HeaderSize = (if XIP Context then ALIGN_VALUE HeaderSize (SegmentAlignment Context) else HeaderSize)
          in if HeaderSize > UnsignedFileSize Context then fail RETURN_UNSUPPORTED
             else
               assertR (IS_ALIGNED LoadTablesOffset 4)
               (Inr (Context\<lparr>LoadTables := unat LoadTablesOffset, SegmentsFileOffset := HeaderSize,
                             LastSegmentIndex := LastIndex, NumLoadTables := NumTables\<rparr>))))"

definition UeInitializeContextPostHash :: "ue_context \<Rightarrow> ue_context result" where
  "UeInitializeContextPostHash Context =
     (let b = UeFileBytes Context in
      bindR (ReadUnaligned64 b 8) (\<lambda>ImageInfo.
      bindR (readU8 b 3) (\<lambda>TableCounts.
      bindR (UeInitializeHeader Context ImageInfo TableCounts) (\<lambda>Context.
      let Base = UE_HEADER_BASE_ADDRESS ImageInfo in
      if \<not> IS_ALIGNED Base (ucast (SegmentAlignment Context)) then fail RETURN_UNSUPPORTED
      else
        bindR (InternalVerifySegments Context) (\<lambda>Context.
        bindR (ReadUnaligned32 b 4) (\<lambda>EntryPoint.
        bindR (readU8 b 2) (\<lambda>Type.
        InternalInitializeContextLate
          (Context\<lparr>BaseAddress := Base, EntryPointAddress := EntryPoint,
                   UeSubsystem := UE_HEADER_SUBSYSTEM Type, UeMachine := UE_HEADER_ARCH Type\<rparr>))))))))"

section \<open>Well-formed contexts\<close>

text \<open>Sizes of segments and load tables as natural numbers, and their totals.\<close>

abbreviation seg_size :: "UE_SEGMENT \<Rightarrow> nat" where
  "seg_size s \<equiv> unat (UE_SEGMENT_SIZE (SegImageInfo s))"

definition image_total :: "UE_SEGMENT list \<Rightarrow> nat" where
  "image_total ss = sum_list (map seg_size ss)"

definition file_total :: "UE_SEGMENT list \<Rightarrow> nat" where
  "file_total ss = sum_list (map (\<lambda>s. unat (SegFileSize s)) ss)"

definition tables_total :: "u32 list \<Rightarrow> nat" where
  "tables_total ts = sum_list (map (\<lambda>t. unat (UE_LOAD_TABLE_SIZE t)) ts)"

lemma total_simps [simp]:
  "image_total [] = 0" "image_total (s # ss) = seg_size s + image_total ss"
  "file_total [] = 0" "file_total (s # ss) = unat (SegFileSize s) + file_total ss"
  "tables_total [] = 0" "tables_total (t # ts) = unat (UE_LOAD_TABLE_SIZE t) + tables_total ts"
  by (simp_all add: image_total_def file_total_def tables_total_def)

definition wf_segments :: "u32 \<Rightarrow> UE_SEGMENT list \<Rightarrow> bool" where
  "wf_segments a ss \<longleftrightarrow>
     image_total ss < 2 ^ 32 \<and>
     (\<forall>s \<in> set ss. unat (SegFileSize s) \<le> seg_size s \<and> unat a dvd seg_size s)"

lemma wf_segments_Cons:
  "wf_segments a (s # ss) \<longleftrightarrow>
     unat (SegFileSize s) \<le> seg_size s \<and> unat a dvd seg_size s \<and> seg_size s + image_total ss < 2 ^ 32 \<and>
     wf_segments a ss"
  by (auto simp: wf_segments_def)

lemma wf_segments_Nil [simp]: "wf_segments a []"
  by (simp add: wf_segments_def)

lemma file_total_le: "wf_segments a ss \<Longrightarrow> file_total ss \<le> image_total ss"
  by (induction ss) (auto simp: wf_segments_Cons)

lemma image_total_dvd: "wf_segments a ss \<Longrightarrow> unat a dvd image_total ss"
  by (induction ss) (auto simp: wf_segments_Cons)

lemma file_total_bound:
  assumes "wf_segments a ss" "4096 dvd unat a"
  shows "file_total ss \<le> 4294963200" "image_total ss \<le> 4294963200"
proof -
  have "4096 dvd image_total ss" "image_total ss < 4294967296"
    using assms image_total_dvd [OF assms(1)] by (auto simp: wf_segments_def intro: dvd_trans)
  then show "image_total ss \<le> 4294963200"
    by (auto elim!: dvdE)
  then show "file_total ss \<le> 4294963200"
    using file_total_le [OF assms(1)] by simp
qed

definition wf_load_tables :: "ue_context \<Rightarrow> bool" where
  "wf_load_tables c \<longleftrightarrow>
     unat (LoadTablesFileOffset c) + tables_total (ue_load_tables c) = unat (UnsignedFileSize c) \<and>
     sorted_wrt (<) (map UE_LOAD_TABLE_ID (ue_load_tables c)) \<and>
     RelocTableSize c =
       (if ue_load_tables c \<noteq> [] \<and> UE_LOAD_TABLE_ID (hd (ue_load_tables c)) = UeLoadTableIdReloc
        then UE_LOAD_TABLE_SIZE (hd (ue_load_tables c)) else 0) \<and>
     (UeRelocsStripped c \<longrightarrow> RelocTableSize c = 0)"

definition wf_ue_header :: "ue_context \<Rightarrow> bool" where
  "wf_ue_header c \<longleftrightarrow>
     length (UeFileBytes c) = unat (UnsignedFileSize c) \<and>
     UeSegments c = 16 \<and> SegmentImageInfoIterSize c = 8 \<and> LoadTables c = 24 + 8 * unat (LastSegmentIndex c) \<and>
     LoadTables c + 4 * unat (NumLoadTables c) \<le> unat (SegmentsFileOffset c) \<and>
     unat (SegmentsFileOffset c) \<le> unat (UnsignedFileSize c) \<and>
     IS_POW2 (SegmentAlignment c) \<and> 4096 dvd unat (SegmentAlignment c) \<and>
     (XIP c \<longrightarrow> unat (SegmentAlignment c) dvd unat (SegmentsFileOffset c)) \<and>
     (\<not> XIP c \<longrightarrow> unat (SegmentsFileOffset c) \<le> 4088) \<and>
     unat (SegmentsFileOffset c) \<le> 2 ^ 27"

definition wf_ue_image :: "ue_context \<Rightarrow> bool" where
  "wf_ue_image c \<longleftrightarrow>
     wf_segments (SegmentAlignment c) (ue_segments c) \<and>
     unat (LoadTablesFileOffset c) = align_up (unat (SegmentsFileOffset c) + file_total (ue_segments c)) 8 \<and>
     unat (LoadTablesFileOffset c) \<le> unat (UnsignedFileSize c) \<and>
     ImageSize c = word_of_nat (image_total (ue_segments c)) + (if XIP c then SegmentsFileOffset c else 0)"

definition wf_ue :: "ue_context \<Rightarrow> bool" where
  "wf_ue c \<longleftrightarrow>
     wf_ue_header c \<and> wf_ue_image c \<and> wf_load_tables c \<and>
     unat (EntryPointAddress c) \<le> unat (ImageSize c) \<and>
     unat (SegmentAlignment c) dvd unat (BaseAddress c)"

section \<open>Validation establishes well-formedness\<close>

lemma unat_segment_alignment:
  "unat (UE_HEADER_SEGMENT_ALIGNMENT i) = 2 ^ (unat (RShiftU64 i 60) + 12)" "unat (RShiftU64 i 60) \<le> 15"
proof -
  show le: "unat (RShiftU64 i 60) \<le> 15"
    using u64_less [of i] by (simp add: unat_RShiftU64)
  have "(2::nat) ^ (unat (RShiftU64 i 60) + 12) < 2 ^ 32"
    by (rule power_strict_increasing) (use le in auto)
  then have "unat (word_of_nat (2 ^ (unat (RShiftU64 i 60) + 12)) :: u32) = 2 ^ (unat (RShiftU64 i 60) + 12)"
    by (simp only: unat_of_nat) simp
  then show "unat (UE_HEADER_SEGMENT_ALIGNMENT i) = 2 ^ (unat (RShiftU64 i 60) + 12)"
    by (simp add: UE_HEADER_SEGMENT_ALIGNMENT_def)
qed

lemma segment_alignment_pow2: "IS_POW2 (UE_HEADER_SEGMENT_ALIGNMENT i)"
  using unat_segment_alignment(2) [of i]
  by (auto simp: IS_POW2_iff unat_segment_alignment(1) intro!: exI [of _ "unat (RShiftU64 i 60) + 12"])

lemma segment_alignment_bounds:
  "4096 dvd unat (UE_HEADER_SEGMENT_ALIGNMENT i)" "unat (UE_HEADER_SEGMENT_ALIGNMENT i) \<le> 2 ^ 27"
proof -
  show "4096 dvd unat (UE_HEADER_SEGMENT_ALIGNMENT i)"
    by (simp add: unat_segment_alignment(1) power_add)
  have "(2::nat) ^ (unat (RShiftU64 i 60) + 12) \<le> 2 ^ 27"
    by (rule power_increasing) (use unat_segment_alignment(2) [of i] in auto)
  then show "unat (UE_HEADER_SEGMENT_ALIGNMENT i) \<le> 2 ^ 27"
    by (simp add: unat_segment_alignment(1))
qed

lemma unat_sum_bound: "unat (b :: u32) = k + m + n \<Longrightarrow> m + n < 4294967296"
  using u32_less [of b] by linarith

lemma VerifySegmentsLoop_wp:
  assumes "IS_POW2 a"
  shows "wp (VerifySegmentsLoop a ss f e) (\<lambda>(f', e'). wf_segments a ss \<and>
     f' = f + word_of_nat (file_total ss) \<and> unat e' = unat e + image_total ss)"
proof (induction ss arbitrary: f e)
  case (Cons s ss)
  show ?case
    using Cons [of "f + SegFileSize s" "e + UE_SEGMENT_SIZE (SegImageInfo s)"]
    by (auto simp: Let_def AddU32_eq IS_ALIGNED_iff_dvd [OF assms] not_less not_le word_less_nat_alt unat_add_u32
        wf_segments_Cons intro: unat_sum_bound elim!: wp_mono)
qed simp

lemma VerifyLoadTablesLoop_wp:
  "wp (VerifyLoadTablesLoop ts p e) (\<lambda>e'. unat e' = unat e + tables_total ts \<and>
     sorted_wrt (<) (map UE_LOAD_TABLE_ID ts) \<and> (\<forall>t \<in> set ts. p < uint (UE_LOAD_TABLE_ID t)))"
proof (induction ts arbitrary: p e)
  case (Cons t ts)
  show ?case
    using Cons [of "uint (UE_LOAD_TABLE_ID t)" "e + UE_LOAD_TABLE_SIZE t"]
    by (auto simp: Let_def AddU32_eq not_le unat_add_u32 word_less_def elim!: wp_mono)
qed simp


text \<open>
  An XIP image can make an ASSERT of the validation fail. \<open>wpx x r Q\<close> is \<open>wp r Q\<close>, except that
  a failed ASSERT is accepted where \<open>x\<close> holds.
\<close>

definition wpx :: "bool \<Rightarrow> 'a result \<Rightarrow> ('a \<Rightarrow> bool) \<Rightarrow> bool" where
  "wpx x r Q \<longleftrightarrow> wp r Q \<or> x \<and> r = Inl AssertFailed"

lemma wpx_simps [simp]:
  "wpx x (fail s) Q" "\<not> wpx x (Inl OutOfBounds) Q" "wpx x (Inl AssertFailed) Q = x"
  "\<not> wpx x (Inl OutOfFuel) Q" "wpx x (Inr v) Q = Q v"
  by (simp_all add: wpx_def)

lemma wpx_bind [simp]: "wpx x (bindR m f) Q = wpx x m (\<lambda>v. wpx x (f v) Q)"
proof (cases m)
  case (Inl e)
  then show ?thesis
    by (cases e) (simp_all add: wpx_def)
qed simp

lemma wpx_if [simp]:
  "wpx x (if b then r else r') Q \<longleftrightarrow> (b \<longrightarrow> wpx x r Q) \<and> (\<not> b \<longrightarrow> wpx x r' Q)"
  by simp

lemma wp_wpx: "wp r Q \<Longrightarrow> wpx x r Q"
  by (simp add: wpx_def)

lemma wpx_mono: "wpx x r P \<Longrightarrow> (\<And>v. r = Inr v \<Longrightarrow> P v \<Longrightarrow> Q v) \<Longrightarrow> wpx x r Q"
  by (auto simp: wpx_def intro: wp_mono [of r P Q])

lemma wpx_read [simp]:
  "wpx x (readU8 b off) Q8 \<longleftrightarrow> off + 1 \<le> length b \<and> Q8 (get_word 1 b off)"
  "wpx x (readU16 b off) Q16 \<longleftrightarrow> off + 2 \<le> length b \<and> Q16 (get_word 2 b off)"
  "wpx x (ReadUnaligned32 b off) Q32 \<longleftrightarrow> off + 4 \<le> length b \<and> Q32 (get_word 4 b off)"
  "wpx x (ReadUnaligned64 b off) Q64 \<longleftrightarrow> off + 8 \<le> length b \<and> Q64 (get_word 8 b off)"
  by (auto simp: wpx_def readU8_def readU16_def ReadUnaligned32_def ReadUnaligned64_def read_word_def)

lemma length_ue_segments [simp]: "length (ue_segments c) = unat (LastSegmentIndex c) + 1"
  by (simp add: ue_segments_def segment_table_def)

lemma length_ue_load_tables [simp]: "length (ue_load_tables c) = unat (NumLoadTables c)"
  by (simp add: ue_load_tables_def load_table_def)

text \<open>The tables depend only on the file and on their position and length.\<close>

lemma ue_segments_update [simp]:
  "ue_segments (c\<lparr>LoadTablesFileOffset := t\<rparr>) = ue_segments c"
  "ue_segments (c\<lparr>ImageSize := n\<rparr>) = ue_segments c"
  "ue_segments (c\<lparr>RelocTableSize := n\<rparr>) = ue_segments c"
  "ue_segments (c\<lparr>BaseAddress := ba\<rparr>) = ue_segments c"
  "ue_segments (c\<lparr>EntryPointAddress := n\<rparr>) = ue_segments c"
  "ue_segments (c\<lparr>UeSubsystem := su\<rparr>) = ue_segments c"
  "ue_segments (c\<lparr>UeMachine := su\<rparr>) = ue_segments c"
  "ue_segments (c\<lparr>UeImageBuffer := ib\<rparr>) = ue_segments c"
  by (simp_all add: ue_segments_def)

lemma ue_load_tables_update [simp]:
  "ue_load_tables (c\<lparr>LoadTablesFileOffset := t\<rparr>) = ue_load_tables c"
  "ue_load_tables (c\<lparr>ImageSize := n\<rparr>) = ue_load_tables c"
  "ue_load_tables (c\<lparr>RelocTableSize := n\<rparr>) = ue_load_tables c"
  "ue_load_tables (c\<lparr>BaseAddress := ba\<rparr>) = ue_load_tables c"
  "ue_load_tables (c\<lparr>EntryPointAddress := n\<rparr>) = ue_load_tables c"
  "ue_load_tables (c\<lparr>UeSubsystem := su\<rparr>) = ue_load_tables c"
  "ue_load_tables (c\<lparr>UeMachine := su\<rparr>) = ue_load_tables c"
  "ue_load_tables (c\<lparr>UeImageBuffer := ib\<rparr>) = ue_load_tables c"
  by (simp_all add: ue_load_tables_def)

lemma wf_ue_header_reads:
  assumes "wf_ue_header c"
  shows "read_segments c = Inr (ue_segments c)" "read_load_tables c = Inr (ue_load_tables c)"
  using assms by (auto simp: wf_ue_header_def read_segments_def read_load_tables_def)

lemma IS_POW2_8: "IS_POW2 (8 :: u32)"
  by (simp add: IS_POW2_def)

lemma unat_align_8:
  "unat v \<le> 4294967288 \<Longrightarrow> unat (ALIGN_VALUE v (8 :: u32)) = align_up (unat v) 8"
  using align_up_least [of 8 4294967288 "unat v"]
  by (subst unat_ALIGN_VALUE [OF IS_POW2_8]) simp

text \<open>
  Where the file offset of the load tables wraps around, the ASSERT that follows detects it: the
  sum of the file sizes is below the aligned image size.
\<close>

lemma wrapped_offset:
  assumes "wf_segments a ss" "4096 dvd unat a" "4294967288 < unat b + file_total ss" "unat b \<le> 2 ^ 27"
  shows "\<not> b \<le> ALIGN_VALUE (b + word_of_nat (file_total ss)) (8 :: u32)"
proof -
  note le = file_total_bound(1) [OF assms(1,2)]
  let ?v = "b + word_of_nat (file_total ss)"
  have v: "unat ?v = (unat b + file_total ss) mod 4294967296"
    by (simp add: unat_word_ariths(1) unat_of_nat take_bit_eq_mod mod_simps)
  show ?thesis
  proof (cases "unat b + file_total ss < 4294967296")
    case True
    obtain k where k: "align_up (unat ?v) 8 = 8 * k"
      by (rule dvdE [OF align_up_dvd [of 8 "unat ?v"]]) simp
    have "4294967288 < unat ?v" "unat ?v < 4294967296"
      using True v assms(3) by simp_all
    then have "align_up (unat ?v) 8 = 4294967296"
      using align_up_ge [of "unat ?v" 8] align_up_less [of 8 "unat ?v"] unfolding k by simp
    then have "unat (ALIGN_VALUE ?v 8) = 0"
      by (subst unat_ALIGN_VALUE [OF IS_POW2_8]) simp
    then show ?thesis
      using assms(3) le by (simp add: word_le_nat_alt)
  next
    case False
    then have "unat ?v + 4294967296 = unat b + file_total ss"
      using v assms(4) le by (simp add: le_mod_geq)
    then have "unat ?v + 4096 \<le> unat b"
      using le by simp
    then have "unat (ALIGN_VALUE ?v 8) < unat b"
      using assms(4) align_up_less [of 8 "unat ?v"] by (subst unat_align_8) simp_all
    then show ?thesis
      by (simp add: word_le_nat_alt)
  qed
qed

lemma InternalVerifySegments_wpx:
  assumes "wf_ue_header c"
  shows "wpx (XIP c) (InternalVerifySegments c) (\<lambda>c'. \<exists>t n. c' = c\<lparr>LoadTablesFileOffset := t, ImageSize := n\<rparr> \<and>
     wf_ue_image c')"
proof -
  let ?ss = "ue_segments c"
  have pow2: "IS_POW2 (SegmentAlignment c)" and al: "4096 dvd unat (SegmentAlignment c)"
    and off: "unat (SegmentsFileOffset c) \<le> 2 ^ 27" "\<not> XIP c \<Longrightarrow> unat (SegmentsFileOffset c) \<le> 4088"
    using assms by (simp_all add: wf_ue_header_def)
  show ?thesis
  proof (cases "VerifySegmentsLoop (SegmentAlignment c) ?ss (SegmentsFileOffset c) 0")
    case (Inl e)
    then show ?thesis
      using VerifySegmentsLoop_wp [OF pow2, of ?ss "SegmentsFileOffset c" 0]
      by (cases e) (simp_all add: InternalVerifySegments_def wf_ue_header_reads [OF assms])
  next
    case (Inr p)
    obtain f e where p: "p = (f, e)" by force
    have wf: "wf_segments (SegmentAlignment c) ?ss" and f: "f = SegmentsFileOffset c + word_of_nat (file_total ?ss)"
      and e: "unat e = image_total ?ss"
      using VerifySegmentsLoop_wp [OF pow2, of ?ss "SegmentsFileOffset c" 0] Inr p by simp_all
    have e': "e = word_of_nat (image_total ?ss)"
      using e by (metis of_nat_unat ucast_id)
    show ?thesis
    proof (cases "unat (SegmentsFileOffset c) + file_total ?ss \<le> 4294967288")
      case True
      then have "unat f = unat (SegmentsFileOffset c) + file_total ?ss"
        by (simp add: f unat_word_ariths(1) unat_of_nat take_bit_eq_mod)
      then have "unat (ALIGN_VALUE f 8) = align_up (unat (SegmentsFileOffset c) + file_total ?ss) 8"
        using True by (simp add: unat_align_8)
      moreover from this have "SegmentsFileOffset c \<le> ALIGN_VALUE f 8"
        by (simp add: word_le_nat_alt order_trans [OF le_add1 align_up_ge])
      ultimately show ?thesis
        using wf by (auto simp: InternalVerifySegments_def Let_def wf_ue_header_reads [OF assms] Inr p wf_ue_image_def
            not_less word_le_nat_alt e' intro!: exI)
    next
      case False
      have "file_total ?ss \<le> 4294963200"
        by (rule file_total_bound(1) [OF wf al])
      then have "XIP c"
        using False off by auto
      moreover have "\<not> SegmentsFileOffset c \<le> ALIGN_VALUE f 8"
        unfolding f by (rule wrapped_offset [OF wf al]) (use False off in auto)
      ultimately show ?thesis
        by (simp add: InternalVerifySegments_def wf_ue_header_reads [OF assms] Inr p)
    qed
  qed
qed

lemma InternalVerifyLoadTables_wp:
  assumes "wf_ue_header c"
  shows "wp (InternalVerifyLoadTables c) (\<lambda>c'. \<exists>n. c' = c\<lparr>RelocTableSize := n\<rparr> \<and> wf_load_tables c')"
proof -
  let ?c = "c\<lparr>RelocTableSize := 0\<rparr>"
  have "wf_ue_header ?c"
    using assms by (simp add: wf_ue_header_def)
  from wf_ue_header_reads(2) [OF this] show ?thesis
    using VerifyLoadTablesLoop_wp [of "ue_load_tables c" "- 1" "LoadTablesFileOffset c"]
    by (auto simp: InternalVerifyLoadTables_def Let_def wf_load_tables_def elim!: wp_mono)
qed

lemma unat_drop_bit_u8: "unat (drop_bit k (w :: u8)) = unat w div 2 ^ k"
  by (simp only: unat_drop_bit_eq) (simp only: drop_bit_eq_div)

lemma unat_and_le: "unat (w AND m :: 'w::len word) \<le> unat m"
  using word_and_le1 [of w m] by (simp add: word_le_nat_alt)

lemma UeInitializeHeader_wp:
  assumes "length (UeFileBytes c) = unat (UnsignedFileSize c)"
  shows "wp (UeInitializeHeader c ImageInfo TableCounts) (\<lambda>c'. wf_ue_header c' \<and>
     XIP c' = (ImageInfo AND UE_HEADER_IMAGE_INFO_XIP \<noteq> 0) \<and> UeFileBuffer c' = UeFileBuffer c)"
proof -
  define l where "l = UE_HEADER_LAST_SEGMENT_INDEX TableCounts"
  define n where "n = UE_HEADER_NUM_LOAD_TABLES TableCounts"
  define a where "a = UE_HEADER_SEGMENT_ALIGNMENT ImageInfo"
  define t where "t = MIN_SIZE_OF_UE_HEADER + ucast l * word_of_nat sizeof_UE_SEGMENT"
  define h where "h = t + ucast n * word_of_nat sizeof_UE_LOAD_TABLE"
  have l: "unat l \<le> 31"
    using u8_less [of TableCounts]
    by (simp add: l_def UE_HEADER_LAST_SEGMENT_INDEX_def unat_drop_bit_u8)
  have n: "unat n \<le> 7"
    using unat_and_le [of TableCounts 7] by (simp add: n_def UE_HEADER_NUM_LOAD_TABLES_def)
  have ext: "unat (ucast w :: u32) = unat (w :: u8)" for w
    by (simp add: unsigned_ucast_eq take_bit_nat_eq_self_iff less_trans [OF u8_less])
  have t: "unat t = 24 + 8 * unat l"
    using l by (simp add: t_def unat_word_ariths ext)
  have h: "unat h = 24 + 8 * unat l + 4 * unat n"
    using l n t by (simp add: h_def unat_word_ariths ext)
  have h': "unat (ALIGN_VALUE h a) = align_up (unat h) (unat a)" "align_up (unat h) (unat a) \<le> 2 ^ 27"
  proof -
    have "unat a dvd 2 ^ 27"
      unfolding a_def unat_segment_alignment(1) by (rule le_imp_power_dvd) (use unat_segment_alignment(2) in simp)
    then show "align_up (unat h) (unat a) \<le> 2 ^ 27"
      by (rule align_up_least) (use h l n in simp)
    then show "unat (ALIGN_VALUE h a) = align_up (unat h) (unat a)"
      by (simp add: unat_ALIGN_VALUE [OF segment_alignment_pow2] a_def)
  qed
  have asserts: "(h \<le> MAX_SIZE_OF_UE_HEADER) = True" "IS_ALIGNED t 4 = True"
    using l n t h by (simp_all add: IS_ALIGNED_iff_dvd [of 4] IS_POW2_def word_le_nat_alt)
  have "UeInitializeHeader c ImageInfo TableCounts =
     (let c = c\<lparr>FixedAddress := (ImageInfo AND UE_HEADER_IMAGE_INFO_FIXED_ADDRESS \<noteq> 0),
            UeRelocsStripped := (ImageInfo AND UE_HEADER_IMAGE_INFO_RELOCATION_FIXUPS_STRIPPED \<noteq> 0),
            XIP := (ImageInfo AND UE_HEADER_IMAGE_INFO_XIP \<noteq> 0), UeSegments := 16,
            SegmentImageInfoIterSize := 8, SegmentAlignment := a\<rparr>;
          h' = (if XIP c then ALIGN_VALUE h a else h) in
      if h' > UnsignedFileSize c then fail RETURN_UNSUPPORTED
      else Inr (c\<lparr>LoadTables := unat t, SegmentsFileOffset := h', LastSegmentIndex := l, NumLoadTables := n\<rparr>))"
    unfolding UeInitializeHeader_def Let_def l_def [symmetric] n_def [symmetric] a_def [symmetric]
      t_def [symmetric] h_def [symmetric]
    by (simp only: asserts assertR_simps UE_LOADER_IMAGE_CONTEXT.simps UE_LOADER_IMAGE_CONTEXT.update_convs
        UE_LOADER_IMAGE_CONTEXT.select_convs) simp
  then show ?thesis
    using assms h h' l n t segment_alignment_pow2 [of ImageInfo] segment_alignment_bounds [of ImageInfo]
    by (auto simp: Let_def wf_ue_header_def not_less word_le_nat_alt IS_POW2_pos simp flip: a_def)
qed

lemma wf_ue_header_update [simp]:
  "wf_ue_header (c\<lparr>LoadTablesFileOffset := t\<rparr>) = wf_ue_header c"
  "wf_ue_header (c\<lparr>ImageSize := n\<rparr>) = wf_ue_header c"
  "wf_ue_header (c\<lparr>RelocTableSize := n\<rparr>) = wf_ue_header c"
  "wf_ue_header (c\<lparr>BaseAddress := ba\<rparr>) = wf_ue_header c"
  "wf_ue_header (c\<lparr>EntryPointAddress := n\<rparr>) = wf_ue_header c"
  "wf_ue_header (c\<lparr>UeSubsystem := su\<rparr>) = wf_ue_header c"
  "wf_ue_header (c\<lparr>UeMachine := su\<rparr>) = wf_ue_header c"
  "wf_ue_header (c\<lparr>UeImageBuffer := ib\<rparr>) = wf_ue_header c"
  by (simp_all add: wf_ue_header_def)

lemma wf_ue_image_update [simp]:
  "wf_ue_image (c\<lparr>RelocTableSize := n\<rparr>) = wf_ue_image c"
  "wf_ue_image (c\<lparr>BaseAddress := ba\<rparr>) = wf_ue_image c"
  "wf_ue_image (c\<lparr>EntryPointAddress := n\<rparr>) = wf_ue_image c"
  "wf_ue_image (c\<lparr>UeSubsystem := su\<rparr>) = wf_ue_image c"
  "wf_ue_image (c\<lparr>UeMachine := su\<rparr>) = wf_ue_image c"
  "wf_ue_image (c\<lparr>UeImageBuffer := ib\<rparr>) = wf_ue_image c"
  by (simp_all add: wf_ue_image_def)

lemma InternalInitializeContextLate_wp:
  assumes "wf_ue_header c" "wf_ue_image c" "unat (SegmentAlignment c) dvd unat (BaseAddress c)"
  shows "wp (InternalInitializeContextLate c) (\<lambda>c'. wf_ue c' \<and> UeFileBuffer c' = UeFileBuffer c)"
  using assms InternalVerifyLoadTables_wp [OF assms(1)]
  by (auto simp: InternalInitializeContextLate_def wf_ue_def not_less word_le_nat_alt elim!: wp_mono)

lemma UeInitializeContextPostHash_wpx:
  assumes "length (UeFileBytes c) = unat (UnsignedFileSize c)" "24 \<le> unat (UnsignedFileSize c)"
  shows "wpx ((get_word 8 (UeFileBytes c) 8 :: u64) AND UE_HEADER_IMAGE_INFO_XIP \<noteq> 0)
    (UeInitializeContextPostHash c) (\<lambda>c'. wf_ue c' \<and> UeFileBuffer c' = UeFileBuffer c)"
    (is "wpx ?x _ ?Q")
proof -
  let ?i = "get_word 8 (UeFileBytes c) 8 :: u64" and ?b = "UeFileBytes c"
  have late: "wpx ?x (InternalInitializeContextLate (v\<lparr>BaseAddress := UE_HEADER_BASE_ADDRESS ?i,
      EntryPointAddress := e, UeSubsystem := s, UeMachine := m\<rparr>)) ?Q"
    if "wf_ue_header v" "wf_ue_image v" "UeFileBuffer v = UeFileBuffer c"
      "IS_ALIGNED (UE_HEADER_BASE_ADDRESS ?i) (ucast (SegmentAlignment v))" for v e s m
  proof (rule wp_wpx, rule wp_mono [OF InternalInitializeContextLate_wp])
    show "unat (SegmentAlignment (v\<lparr>BaseAddress := UE_HEADER_BASE_ADDRESS ?i, EntryPointAddress := e,
        UeSubsystem := s, UeMachine := m\<rparr>)) dvd
      unat (BaseAddress (v\<lparr>BaseAddress := UE_HEADER_BASE_ADDRESS ?i, EntryPointAddress := e,
        UeSubsystem := s, UeMachine := m\<rparr>))"
      using that by (simp add: IS_ALIGNED_iff_dvd IS_POW2_ucast_32_64 unat_ucast_32_64 wf_ue_header_def)
  qed (use that in simp_all)
  have segs: "wpx ?x (InternalVerifySegments v) (\<lambda>v'. wf_ue_header v' \<and> wf_ue_image v' \<and>
      SegmentAlignment v' = SegmentAlignment v \<and> UeFileBuffer v' = UeFileBuffer v)"
    if "wf_ue_header v" "XIP v = ?x" for v
    by (rule wpx_mono [OF InternalVerifySegments_wpx [OF that(1), unfolded that(2)]]) (use that in auto)
  have "wpx ?x (UeInitializeHeader c ?i (get_word 1 ?b 3)) (\<lambda>v.
      IS_ALIGNED (UE_HEADER_BASE_ADDRESS ?i) (ucast (SegmentAlignment v)) \<longrightarrow>
      wpx ?x (InternalVerifySegments v) (\<lambda>v. wpx ?x (InternalInitializeContextLate
        (v\<lparr>BaseAddress := UE_HEADER_BASE_ADDRESS ?i, EntryPointAddress := get_word 4 ?b 4,
           UeSubsystem := UE_HEADER_SUBSYSTEM (get_word 1 ?b 2), UeMachine := UE_HEADER_ARCH (get_word 1 ?b 2)\<rparr>)) ?Q))"
    by (rule wp_wpx [OF UeInitializeHeader_wp [OF assms(1)], THEN wpx_mono])
      (auto intro!: late wpx_mono [OF segs])
  then show ?thesis
    using assms by (simp add: UeInitializeContextPostHash_def Let_def)
qed

end
