(* ===== verification/UeLoad.thy ===== *)
theory UeLoad
  imports UeInit
begin

text \<open>
  Loading of UE images (\<^verbatim>\<open>UeLoadImage\<close> of \<^verbatim>\<open>BaseUeImageLib/UeImageLib.c\<close>): the exact contents of
  the destination buffer.
\<close>

section \<open>Loading\<close>

fun UeLoadSegments ::
  "u8 list \<Rightarrow> UE_SEGMENT list \<Rightarrow> u32 \<Rightarrow> u32 \<Rightarrow> u32 \<Rightarrow> u8 list \<Rightarrow> (u32 \<times> u8 list) result" where
  "UeLoadSegments File [] SegmentFileOffset SegmentImageAddress PrevSegmentDataEnd Img = Inr (PrevSegmentDataEnd, Img)"
| "UeLoadSegments File (s # ss) SegmentFileOffset SegmentImageAddress PrevSegmentDataEnd Img =
     bindR (ZeroMem Img (unat PrevSegmentDataEnd) (unat (SegmentImageAddress - PrevSegmentDataEnd))) (\<lambda>Img.
     assertR (SegFileSize s \<le> UE_SEGMENT_SIZE (SegImageInfo s))
     (bindR (CopyMem Img (unat SegmentImageAddress) File (unat SegmentFileOffset) (unat (SegFileSize s))) (\<lambda>Img.
      UeLoadSegments File ss (SegmentFileOffset + SegFileSize s)
        (SegmentImageAddress + UE_SEGMENT_SIZE (SegImageInfo s)) (SegmentImageAddress + SegFileSize s) Img)))"

definition UeLoadImage :: "ue_context \<Rightarrow> buffer \<Rightarrow> u32 \<Rightarrow> ue_context result" where
  "UeLoadImage Context Dest DestinationSize =
     assertR (Address Dest \<noteq> 0)
    (assertR (IS_ALIGNED (Address Dest) (ucast (SegmentAlignment Context)))
    (bindR (read_segments Context) (\<lambda>Segs.
     bindR (UeLoadSegments (UeFileBytes Context) Segs (SegmentsFileOffset Context) 0 0 (Bytes Dest))
       (\<lambda>(PrevSegmentDataEnd, Img).
     bindR (ZeroMem Img (unat PrevSegmentDataEnd) (unat (DestinationSize - PrevSegmentDataEnd))) (\<lambda>Img.
     Inr (Context\<lparr>UeImageBuffer := Destination (Dest\<lparr>Bytes := Img\<rparr>)\<rparr>))))))"

section \<open>Loading a well-formed image\<close>

fun segment_bytes :: "u8 list \<Rightarrow> nat \<Rightarrow> UE_SEGMENT list \<Rightarrow> u8 list" where
  "segment_bytes File f [] = []"
| "segment_bytes File f (s # ss) =
     take (unat (SegFileSize s)) (drop f File) @ replicate (seg_size s - unat (SegFileSize s)) 0 @
     segment_bytes File (f + unat (SegFileSize s)) ss"

definition ue_loaded_image :: "ue_context \<Rightarrow> nat \<Rightarrow> u8 list" where
  "ue_loaded_image c n =
     segment_bytes (UeFileBytes c) (unat (SegmentsFileOffset c)) (ue_segments c) @
     replicate (n - image_total (ue_segments c)) 0"

lemma length_segment_bytes:
  "wf_segments a ss \<Longrightarrow> f + file_total ss \<le> length File \<Longrightarrow> length (segment_bytes File f ss) = image_total ss"
  by (induction ss arbitrary: f) (auto simp: wf_segments_Cons)

lemma UeLoadSegments_exact:
  assumes "wf_segments al ss" "unat f + file_total ss \<le> length File" "length File < 2 ^ 32"
    "unat p \<le> unat a" "unat a + image_total ss \<le> unat n" "unat n \<le> length Img"
  shows "bindR (UeLoadSegments File ss f a p Img) (\<lambda>(p', Img'). ZeroMem Img' (unat p') (unat (n - p'))) =
    Inr (take (unat p) Img @ replicate (unat a - unat p) 0 @ segment_bytes File (unat f) ss @
         replicate (unat n - (unat a + image_total ss)) 0 @ drop (unat n) Img)"
  using assms
proof (induction ss arbitrary: f a p Img)
  case Nil
  then have "unat (n - p) = unat n - unat p"
    by (simp add: unat_sub word_le_nat_alt)
  with Nil show ?case
    by (simp add: ZeroMem_append flip: replicate_add)
next
  case (Cons s ss)
  define m where "m = unat (SegFileSize s)"
  define z where "z = seg_size s"
  have wf: "m \<le> z" "wf_segments al ss" and bounds: "unat a + z + image_total ss \<le> unat n"
    "unat f + m + file_total ss \<le> length File"
    using Cons.prems by (simp_all add: wf_segments_Cons m_def z_def)
  have nn: "unat n < 4294967296"
    by (rule u32_less)
  have words: "unat (a - p) = unat a - unat p" "unat (a + UE_SEGMENT_SIZE (SegImageInfo s)) = unat a + z"
    "unat (a + SegFileSize s) = unat a + m" "unat (f + SegFileSize s) = unat f + m"
    using Cons.prems(3,4) wf(1) bounds nn
    by (simp_all add: unat_sub word_le_nat_alt unat_add_u32 m_def z_def)
  let ?Z = "take (unat p) Img @ replicate (unat a - unat p) 0 @ drop (unat a) Img"
  let ?C = "take (unat a) ?Z @ take m (drop (unat f) File) @ drop (unat a + m) ?Z"
  have fit: "unat a + m \<le> length Img" "unat p \<le> unat a" "unat a \<le> length Img"
    using Cons.prems(4,6) bounds wf(1) by linarith+
  have lens: "length ?Z = length Img" "length ?C = length Img"
    using fit bounds by simp_all
  have zero: "ZeroMem Img (unat p) (unat (a - p)) = Inr ?Z"
    using fit by (simp add: ZeroMem_append words)
  have copy: "CopyMem ?Z (unat a) File (unat f) (unat (SegFileSize s)) = Inr ?C"
    using fit bounds lens(1) by (subst CopyMem_append) (simp_all flip: m_def)
  have "bindR (UeLoadSegments File (s # ss) f a p Img) (\<lambda>(p', Img'). ZeroMem Img' (unat p') (unat (n - p'))) =
     bindR (UeLoadSegments File ss (f + SegFileSize s) (a + UE_SEGMENT_SIZE (SegImageInfo s)) (a + SegFileSize s) ?C)
       (\<lambda>(p', Img'). ZeroMem Img' (unat p') (unat (n - p')))"
    using wf(1) by (simp add: zero copy word_le_nat_alt m_def z_def)
  also have "\<dots> = Inr (take (unat a + m) ?C @ replicate (z - m) 0 @ segment_bytes File (unat f + m) ss @
      replicate (unat n - (unat a + z + image_total ss)) 0 @ drop (unat n) ?C)"
    using Cons.IH [of "f + SegFileSize s" "a + SegFileSize s" "a + UE_SEGMENT_SIZE (SegImageInfo s)" ?C,
        unfolded words lens(2)] wf bounds Cons.prems(3,6) by simp
  also have "take (unat a + m) ?C = take (unat p) Img @ replicate (unat a - unat p) 0 @ take m (drop (unat f) File)"
    using fit bounds by simp
  also have "drop (unat n) ?C = drop (unat n) Img"
    using fit bounds wf(1) by simp
  finally show ?case
    by (simp add: m_def z_def add.assoc)
qed

lemma wf_ue_data:
  assumes "wf_ue c"
  shows "wf_segments (SegmentAlignment c) (ue_segments c)"
    "unat (SegmentsFileOffset c) + file_total (ue_segments c) \<le> length (UeFileBytes c)"
    "length (UeFileBytes c) < 2 ^ 32"
proof -
  have "unat (SegmentsFileOffset c) + file_total (ue_segments c) \<le> unat (LoadTablesFileOffset c)"
    "unat (LoadTablesFileOffset c) \<le> length (UeFileBytes c)"
    using assms by (simp_all add: wf_ue_def wf_ue_image_def wf_ue_header_def)
  then show "unat (SegmentsFileOffset c) + file_total (ue_segments c) \<le> length (UeFileBytes c)"
    by (rule order_trans)
qed (use assms u32_less in \<open>simp_all add: wf_ue_def wf_ue_image_def wf_ue_header_def\<close>)

lemma UeLoadImage_exact:
  assumes "wf_ue c" "Address d \<noteq> 0" "unat (SegmentAlignment c) dvd unat (Address d)"
    "image_total (ue_segments c) \<le> unat n" "unat n \<le> length (Bytes d)"
  shows "UeLoadImage c d n = Inr (c\<lparr>UeImageBuffer := Destination
     (d\<lparr>Bytes := ue_loaded_image c (unat n) @ drop (unat n) (Bytes d)\<rparr>)\<rparr>)"
proof -
  have al: "IS_ALIGNED (Address d) (ucast (SegmentAlignment c))"
    using assms(1,3) by (simp add: IS_ALIGNED_iff_dvd IS_POW2_ucast_32_64 unat_ucast_32_64 wf_ue_def wf_ue_header_def)
  have rd: "read_segments c = Inr (ue_segments c)"
    using assms(1) by (simp add: wf_ue_def wf_ue_header_reads)
  have "bindR (UeLoadSegments (UeFileBytes c) (ue_segments c) (SegmentsFileOffset c) 0 0 (Bytes d))
      (\<lambda>(p, Img). ZeroMem Img (unat p) (unat (n - p))) =
    Inr (ue_loaded_image c (unat n) @ drop (unat n) (Bytes d))"
    using UeLoadSegments_exact [OF wf_ue_data [OF assms(1)], of 0 0 n "Bytes d"] assms(4,5)
    by (simp add: ue_loaded_image_def)
  then show ?thesis
    using assms(2) al rd by (cases "UeLoadSegments (UeFileBytes c) (ue_segments c) (SegmentsFileOffset c) 0 0 (Bytes d)")
      (auto simp: UeLoadImage_def split: prod.splits)
qed

text \<open>Which byte of the loaded image comes from where: \<open>i\<close> bytes into the segment after \<open>pre\<close>.\<close>

lemma segment_bytes_append:
  "segment_bytes File f (ss @ ts) = segment_bytes File f ss @ segment_bytes File (f + file_total ss) ts"
  by (induction ss arbitrary: f) (auto simp: add.assoc)

lemma image_total_append [simp]: "image_total (ss @ ts) = image_total ss + image_total ts"
  by (simp add: image_total_def)

lemma file_total_append [simp]: "file_total (ss @ ts) = file_total ss + file_total ts"
  by (simp add: file_total_def)

lemma ue_loaded_image_nth:
  assumes "wf_ue c" "ue_segments c = pre @ s # post" "i < seg_size s"
  shows "ue_loaded_image c n ! (image_total pre + i) =
    (if i < unat (SegFileSize s) then UeFileBytes c ! (unat (SegmentsFileOffset c) + file_total pre + i) else 0)"
proof -
  note d = wf_ue_data [OF assms(1), unfolded assms(2)]
  have "wf_segments (SegmentAlignment c) pre" "wf_segments (SegmentAlignment c) (s # post)"
    using d(1) by (auto simp: wf_segments_def)
  then have "length (segment_bytes (UeFileBytes c) (unat (SegmentsFileOffset c)) pre) = image_total pre"
    using d(2) by (intro length_segment_bytes) auto
  with d(2) assms(3) show ?thesis
    by (auto simp: ue_loaded_image_def assms(2) segment_bytes_append nth_append add.assoc)
qed

end
