(* ===== verification/UeRelocate.thy ===== *)
theory UeRelocate
  imports UeLoad
begin

text \<open>
  Relocation of UE images (\<^verbatim>\<open>InternalApplyRelocation\<close>, \<^verbatim>\<open>UnchainReloc\<close>,
  \<^verbatim>\<open>InternalProcessRelocChain\<close>, \<^verbatim>\<open>InternaRelocateImage\<close>, \<^verbatim>\<open>UeRelocateImage\<close> and
  \<^verbatim>\<open>UeRelocateImageForRuntime\<close> of \<^verbatim>\<open>BaseUeImageLib/UeImageLib.c\<close>): the fixup table, the chains of
  fixups inside the image, and the runtime context that records the fixups in unchained form.
\<close>

section \<open>Fixups\<close>

abbreviation (input) UeReloc32 :: u16 where "UeReloc32 \<equiv> 0"
abbreviation (input) UeReloc64 :: u16 where "UeReloc64 \<equiv> 1"
abbreviation (input) UeReloc32NoMeta :: u16 where "UeReloc32NoMeta \<equiv> 2"
abbreviation (input) UeRelocGenericMax :: u16 where "UeRelocGenericMax \<equiv> 3"
abbreviation (input) sizeof_UE_FIXUP_ROOT :: u32 where "sizeof_UE_FIXUP_ROOT \<equiv> 4"
abbreviation (input) MIN_SIZE_OF_UE_FIXUP_ROOT :: u32 where "MIN_SIZE_OF_UE_FIXUP_ROOT \<equiv> 6"
abbreviation (input) UE_HEAD_FIXUP_OFFSET_END :: u16 where "UE_HEAD_FIXUP_OFFSET_END \<equiv> 0x0FFF"
abbreviation (input) UE_CHAINED_RELOC_FIXUP_OFFSET_END :: u16 where "UE_CHAINED_RELOC_FIXUP_OFFSET_END \<equiv> 0x0FFF"

definition UE_RELOC_FIXUP_OFFSET :: "u16 \<Rightarrow> u16" where
  "UE_RELOC_FIXUP_OFFSET FixupInfo = drop_bit 4 FixupInfo"

definition UE_RELOC_FIXUP_TYPE :: "u16 \<Rightarrow> u16" where
  "UE_RELOC_FIXUP_TYPE FixupInfo = FixupInfo AND 0x000F"

definition UE_CHAINED_RELOC_FIXUP_NEXT_OFFSET :: "u32 \<Rightarrow> u16" where
  "UE_CHAINED_RELOC_FIXUP_NEXT_OFFSET FixupInfo = drop_bit 4 (ucast FixupInfo :: u16) AND 0x0FFF"

definition UE_CHAINED_RELOC_FIXUP_NEXT_TYPE :: "u32 \<Rightarrow> u16" where
  "UE_CHAINED_RELOC_FIXUP_NEXT_TYPE FixupInfo = ucast (ucast ((ucast FixupInfo :: u16) AND 0x0F) :: u8)"

definition UE_CHAINED_RELOC_FIXUP_VALUE :: "u64 \<Rightarrow> u64" where
  "UE_CHAINED_RELOC_FIXUP_VALUE FixupInfo = RShiftU64 FixupInfo 16"

definition UE_CHAINED_RELOC_FIXUP_VALUE_32 :: "u32 \<Rightarrow> u32" where
  "UE_CHAINED_RELOC_FIXUP_VALUE_32 FixupInfo = drop_bit 12 FixupInfo"

section \<open>The runtime context\<close>

text \<open>
  The pointers FixupData and UnchainedRelocs are the bytes of the pool buffers they denote; NULL
  is the empty buffer. \<open>AllocOk n\<close> tells whether the pool can serve a request for \<open>n\<close> bytes.
\<close>

record UE_LOADER_RUNTIME_CONTEXT =
  RtMachine :: u8
  FixupSize :: u32
  FixupData :: "u8 list"
  UnchainedRelocsSize :: u32
  UnchainedRelocs :: "u8 list"

type_synonym ue_runtime = UE_LOADER_RUNTIME_CONTEXT

definition ReallocateRuntimePool :: "(nat \<Rightarrow> bool) \<Rightarrow> nat \<Rightarrow> nat \<Rightarrow> u8 list \<Rightarrow> u8 list result" where
  "ReallocateRuntimePool AllocOk OldSize NewSize OldBuffer =
     (if \<not> AllocOk NewSize then fail RETURN_OUT_OF_RESOURCES
      else if OldBuffer = [] then Inr (replicate NewSize 0)
      else CopyMem (replicate NewSize 0) 0 OldBuffer 0 (min OldSize NewSize))"

text \<open>UnchainReloc without MetaSource: complete the last recorded header, and pad a finished root.\<close>

definition CloseUnchained :: "(nat \<Rightarrow> bool) \<Rightarrow> u16 \<Rightarrow> ue_runtime \<Rightarrow> ue_runtime result" where
  "CloseUnchained AllocOk RelocOffset Rt =
     (let FixupIndex = UnchainedRelocsSize Rt - 2 in
      bindR (readU16 (UnchainedRelocs Rt) (unat FixupIndex)) (\<lambda>FixupHdr.
      bindR (writeU16 (UnchainedRelocs Rt) (unat FixupIndex)
               (push_bit 4 RelocOffset OR UE_RELOC_FIXUP_TYPE FixupHdr)) (\<lambda>Relocs.
      let Addend = ucast (ALIGN_VALUE_ADDEND (UnchainedRelocsSize Rt) 4) :: u8 in
      if RelocOffset = UE_HEAD_FIXUP_OFFSET_END \<and> Addend \<noteq> 0 then
        bindR (ReallocateRuntimePool AllocOk (unat (UnchainedRelocsSize Rt))
                 (unat (UnchainedRelocsSize Rt + ucast Addend)) Relocs) (\<lambda>Relocs.
        bindR (ZeroMem Relocs (unat (UnchainedRelocsSize Rt)) (unat Addend)) (\<lambda>Relocs.
        Inr (Rt\<lparr>UnchainedRelocs := Relocs,
                UnchainedRelocsSize := UnchainedRelocsSize Rt + ucast Addend\<rparr>)))
      else Inr (Rt\<lparr>UnchainedRelocs := Relocs\<rparr>))))"

text \<open>UnchainReloc with MetaSource: append it, and the fixup data if there is any.\<close>

definition AppendUnchained :: "(nat \<Rightarrow> bool) \<Rightarrow> u8 list \<Rightarrow> u64 option \<Rightarrow> ue_runtime \<Rightarrow> ue_runtime result" where
  "AppendUnchained AllocOk Meta Data Rt =
     (let MetaSize = word_of_nat (length Meta) :: u32 in
      bindR (ReallocateRuntimePool AllocOk (unat (UnchainedRelocsSize Rt))
               (unat (UnchainedRelocsSize Rt + MetaSize)) (UnchainedRelocs Rt)) (\<lambda>Relocs.
      bindR (CopyMem Relocs (unat (UnchainedRelocsSize Rt)) Meta 0 (length Meta)) (\<lambda>Relocs.
      let Rt = Rt\<lparr>UnchainedRelocs := Relocs, UnchainedRelocsSize := UnchainedRelocsSize Rt + MetaSize\<rparr> in
      case Data of
        None \<Rightarrow> Inr Rt
      | Some v \<Rightarrow>
          bindR (ReallocateRuntimePool AllocOk (unat (FixupSize Rt)) (unat (FixupSize Rt) + 8) (FixupData Rt)) (\<lambda>Buf.
          bindR (CopyMem Buf (unat (FixupSize Rt)) (le_to_bytes 8 (unat v)) 0 8) (\<lambda>Buf.
          Inr (Rt\<lparr>FixupData := Buf, FixupSize := FixupSize Rt + 8\<rparr>))))))"

definition UnchainReloc ::
  "(nat \<Rightarrow> bool) \<Rightarrow> ue_runtime option \<Rightarrow> u8 list option \<Rightarrow> bool \<Rightarrow> u16 \<Rightarrow> u64 option \<Rightarrow> ue_runtime option result" where
  "UnchainReloc AllocOk RuntimeContext MetaSource IsRuntime RelocOffset Data =
     (case RuntimeContext of
        None \<Rightarrow> Inr None
      | Some Rt \<Rightarrow>
          if IsRuntime then Inr (Some Rt)
          else
            bindR (case MetaSource of
                     None \<Rightarrow> CloseUnchained AllocOk RelocOffset Rt
                   | Some Meta \<Rightarrow> AppendUnchained AllocOk Meta Data Rt)
              (\<lambda>Rt. Inr (Some Rt)))"

section \<open>Applying one fixup\<close>

text \<open>
  FixupRead is the value behind the pointer FixupData, where it is read. The result is the image,
  the new relocation target and the value written through FixupData, if any.
\<close>

definition ApplyReloc32 ::
  "loader_cfg \<Rightarrow> u8 list \<Rightarrow> u32 \<Rightarrow> u64 \<Rightarrow> u64 result \<Rightarrow> bool \<Rightarrow> (u8 list \<times> u32 \<times> u32 option) result" where
  "ApplyReloc32 cfg Img FixupTarget Adjust FixupRead IsRuntime =
     bindR (ReadUnaligned32 Img (unat FixupTarget)) (\<lambda>FixupValue.
     bindR (if IsRuntime then bindR FixupRead (\<lambda>v. Inr (FixupValue \<noteq> ucast v)) else Inr False) (\<lambda>Mismatch.
     if Mismatch then
       if PcdImageLoaderRtRelocAllowTargetMismatch cfg then Inr (Img, FixupTarget, None)
       else fail RETURN_VOLUME_CORRUPTED
     else
       bindR (WriteUnaligned32 Img (unat FixupTarget) (FixupValue + ucast Adjust)) (\<lambda>Img.
       Inr (Img, FixupTarget + 4, Some (FixupValue + ucast Adjust)))))"

definition ApplyReloc64 ::
  "loader_cfg \<Rightarrow> u8 list \<Rightarrow> u32 \<Rightarrow> u64 \<Rightarrow> u64 result \<Rightarrow> bool \<Rightarrow> (u8 list \<times> u32) result" where
  "ApplyReloc64 cfg Img FixupTarget Adjust FixupRead IsRuntime =
     bindR (ReadUnaligned64 Img (unat FixupTarget)) (\<lambda>FixupValue.
     bindR (if IsRuntime then bindR FixupRead (\<lambda>v. Inr (FixupValue \<noteq> v)) else Inr False) (\<lambda>Mismatch.
     if Mismatch then
       if PcdImageLoaderRtRelocAllowTargetMismatch cfg then Inr (Img, FixupTarget)
       else fail RETURN_VOLUME_CORRUPTED
     else
       bindR (WriteUnaligned64 Img (unat FixupTarget) (FixupValue + Adjust)) (\<lambda>Img.
       Inr (Img, FixupTarget + 8))))"

definition InternalApplyRelocationUe ::
  "loader_cfg \<Rightarrow> u8 list \<Rightarrow> u32 \<Rightarrow> u16 \<Rightarrow> u32 \<Rightarrow> u64 \<Rightarrow> u64 result \<Rightarrow> u64 \<Rightarrow> bool \<Rightarrow> (u8 list \<times> u32 \<times> u64) result" where
  "InternalApplyRelocationUe cfg Img ImageSz RelocType FixupTarget Adjust FixupRead Data IsRuntime =
     (let (Overflow, RemFixupTargetSize) = BaseOverflowSubU32 ImageSz FixupTarget in
      if Overflow then fail RETURN_VOLUME_CORRUPTED
      else if RelocType = UeReloc32 then
        if 4 > RemFixupTargetSize then fail RETURN_VOLUME_CORRUPTED
        else bindR (ApplyReloc32 cfg Img FixupTarget Adjust FixupRead IsRuntime)
               (\<lambda>(Img, RelocTarget, _). Inr (Img, RelocTarget, Data))
      else if RelocType = UeReloc64 then
        if 8 > RemFixupTargetSize then fail RETURN_VOLUME_CORRUPTED
        else bindR (ApplyReloc64 cfg Img FixupTarget Adjust FixupRead IsRuntime)
               (\<lambda>(Img, RelocTarget). Inr (Img, RelocTarget, Data))
      else if RelocType = UeReloc32NoMeta then
        if 4 > RemFixupTargetSize then fail RETURN_VOLUME_CORRUPTED
        else bindR (ApplyReloc32 cfg Img FixupTarget Adjust FixupRead IsRuntime)
               (\<lambda>(Img, RelocTarget, Value).
                  Inr (Img, RelocTarget,
                       case Value of None \<Rightarrow> Data | Some v \<Rightarrow> if IsRuntime then Data else ucast v))
      else fail RETURN_UNSUPPORTED)"

section \<open>Chains\<close>

text \<open>
  One fixup of a chain: the image, the size of the fixup, the low 32 bits of the (common) fixup
  header, and the value that was stored.
\<close>

definition ChainFixup :: "u8 list \<Rightarrow> u16 \<Rightarrow> u32 \<Rightarrow> u32 \<Rightarrow> u64 \<Rightarrow> (u8 list \<times> u32 \<times> u32 \<times> u64) result" where
  "ChainFixup Img RelocType RelocTarget RemFixupTargetSize Adjust =
     (if RelocType = UeReloc64 then
        if 8 > RemFixupTargetSize then fail RETURN_VOLUME_CORRUPTED
        else
          bindR (ReadUnaligned64 Img (unat RelocTarget)) (\<lambda>FixupInfo.
          let FixupValue = UE_CHAINED_RELOC_FIXUP_VALUE FixupInfo + Adjust in
          bindR (WriteUnaligned64 Img (unat RelocTarget) FixupValue) (\<lambda>Img.
          Inr (Img, 8, ucast FixupInfo, FixupValue)))
      else if RelocType = UeReloc32 then
        if 4 > RemFixupTargetSize then fail RETURN_VOLUME_CORRUPTED
        else
          bindR (ReadUnaligned32 Img (unat RelocTarget)) (\<lambda>FixupInfo.
          let FixupValue = UE_CHAINED_RELOC_FIXUP_VALUE_32 FixupInfo + ucast Adjust in
          bindR (WriteUnaligned32 Img (unat RelocTarget) FixupValue) (\<lambda>Img.
          Inr (Img, 4, push_bit 4 FixupInfo OR ucast UeReloc32, ucast FixupValue)))
      else fail RETURN_UNSUPPORTED)"

lemma ChainFixup_size:
  "ChainFixup Img t r rem a = Inr (Img', n, info, v) \<Longrightarrow> (n = 4 \<or> n = 8) \<and> n \<le> rem"
  by (auto simp: ChainFixup_def bindR_Inr_iff Let_def not_less split: if_splits)

text \<open>The ASSERT after adding the offset excludes wrap-around, so that a chain moves forward.\<close>

lemma no_wrap_offset:
  assumes "(b :: u32) \<le> a + b"
  shows "unat (a + b) = unat a + unat b"
proof (rule ccontr)
  assume "unat (a + b) \<noteq> unat a + unat b"
  then have "4294967296 \<le> unat a + unat b"
    using unat_add_u32 [of a b] by linarith
  then have "unat (a + b) = unat a + unat b - 4294967296"
    using u32_less [of a] u32_less [of b] by (simp add: unat_word_ariths(1) le_mod_geq)
  then show False
    using assms u32_less [of a] \<open>4294967296 \<le> unat a + unat b\<close> by (simp add: word_le_nat_alt)
qed

lemma chain_progress:
  assumes "\<not> unat sz < unat r" "ChainFixup Img t r (sz - r) a = Inr (Img', n, info, v)"
  shows "unat (r + n) = unat r + unat n" "unat r < unat (r + n)" "unat (r + n) \<le> unat sz"
proof -
  have n: "n = 4 \<or> n = 8" "unat n \<le> unat (sz - r)"
    using ChainFixup_size [OF assms(2)] by (simp_all add: word_le_nat_alt)
  moreover have "unat (sz - r) = unat sz - unat r"
    using assms(1) by (simp add: unat_sub word_le_nat_alt)
  ultimately show "unat (r + n) = unat r + unat n" "unat (r + n) \<le> unat sz"
    using assms(1) u32_less [of sz] by (auto simp: unat_add_u32)
  then show "unat r < unat (r + n)"
    using n(1) by auto
qed

lemma chain_decreases:
  assumes "\<not> unat sz < unat r" "ChainFixup Img t r (sz - r) a = Inr (Img', n, info, v)" "b \<le> r + n + b"
  shows "4294967296 - unat (r + n + b) < 4294967296 - unat r"
  using chain_progress [OF assms(1,2)] no_wrap_offset [OF assms(3)] u32_less [of r] by simp

function InternalProcessRelocChain ::
  "(nat \<Rightarrow> bool) \<Rightarrow> u32 \<Rightarrow> u64 \<Rightarrow> u8 list \<Rightarrow> u16 \<Rightarrow> u32 \<Rightarrow> ue_runtime option \<Rightarrow>
     (u8 list \<times> u32 \<times> ue_runtime option) result" where
  "InternalProcessRelocChain AllocOk ImageSz Adjust Img RelocType RelocTarget RuntimeContext =
     (let (Overflow, RemFixupTargetSize) = BaseOverflowSubU32 ImageSz RelocTarget in
      if Overflow then fail RETURN_VOLUME_CORRUPTED
      else
        bindR (ChainFixup Img RelocType RelocTarget RemFixupTargetSize Adjust)
          (\<lambda>(Img, Size, FixupInfo, Data).
        let RelocTarget' = RelocTarget + Size;
            RelocOffset = UE_CHAINED_RELOC_FIXUP_NEXT_OFFSET FixupInfo;
            FixupHdr = push_bit 4 RelocOffset OR RelocType in
        bindR (UnchainReloc AllocOk RuntimeContext (Some (le_to_bytes 2 (unat FixupHdr))) False 0 (Some Data))
          (\<lambda>RuntimeContext.
        if RelocOffset = UE_CHAINED_RELOC_FIXUP_OFFSET_END then Inr (Img, RelocTarget', RuntimeContext)
        else
          let RelocTarget'' = RelocTarget' + ucast RelocOffset in
          assertR (ucast RelocOffset \<le> RelocTarget'')
            (InternalProcessRelocChain AllocOk ImageSz Adjust Img
               (UE_CHAINED_RELOC_FIXUP_NEXT_TYPE FixupInfo) RelocTarget'' RuntimeContext))))"
  by pat_completeness auto
termination
proof (relation "measure (\<lambda>(_, _, _, _, _, RelocTarget, _). 2 ^ 32 - unat RelocTarget)", goal_cases)
  case 2
  then show ?case
    by (auto simp: SubU32_eq intro: chain_decreases)
qed simp

declare InternalProcessRelocChain.simps [simp del]

section \<open>The relocation table\<close>

text \<open>
  The arguments of InternaRelocateImage that its loops do not change. The table is a function of
  the image bytes, because it lies in the image buffer where the image is executed from the file.
\<close>

record reloc_args =
  ArgCfg :: loader_cfg
  ArgAlloc :: "nat \<Rightarrow> bool"
  ArgImageSize :: u32
  ArgTable :: "u8 list \<Rightarrow> u8 list"
  ArgTableSize :: u32
  ArgChaining :: bool
  ArgAdjust :: u64
  ArgIsRuntime :: bool

text \<open>The variables that they do change: FixupPointer is an index into the fixup data.\<close>

record ue_reloc_state =
  RsImage :: "u8 list"
  RsTarget :: u32
  RsRuntime :: "ue_runtime option"
  RsPointer :: nat
  RsData :: u64

definition runtime_data :: "ue_runtime option \<Rightarrow> u8 list" where
  "runtime_data RuntimeContext = (case RuntimeContext of None \<Rightarrow> [] | Some Rt \<Rightarrow> FixupData Rt)"

definition ProcessHead :: "reloc_args \<Rightarrow> u16 \<Rightarrow> ue_reloc_state \<Rightarrow> ue_reloc_state result" where
  "ProcessHead a FixupInfo s =
     (let RelocType = UE_RELOC_FIXUP_TYPE FixupInfo in
      if ArgChaining a \<and> \<not> ArgIsRuntime a \<and> RelocType \<noteq> UeReloc32NoMeta then
        bindR (InternalProcessRelocChain (ArgAlloc a) (ArgImageSize a) (ArgAdjust a)
                 (RsImage s) RelocType (RsTarget s) (RsRuntime s)) (\<lambda>(Img, RelocTarget, Rt).
        Inr (s\<lparr>RsImage := Img, RsTarget := RelocTarget, RsRuntime := Rt\<rparr>))
      else
        bindR (InternalApplyRelocationUe (ArgCfg a) (RsImage s) (ArgImageSize a) RelocType (RsTarget s) (ArgAdjust a)
                 (ReadUnaligned64 (runtime_data (RsRuntime s)) (8 * RsPointer s)) (RsData s) (ArgIsRuntime a))
          (\<lambda>(Img, RelocTarget, Data).
        bindR (UnchainReloc (ArgAlloc a) (RsRuntime s) (Some (le_to_bytes 2 (unat FixupInfo))) (ArgIsRuntime a) 0
                 (Some Data)) (\<lambda>Rt.
        Inr (s\<lparr>RsImage := Img, RsTarget := RelocTarget, RsRuntime := Rt, RsData := Data,
               RsPointer := (if ArgIsRuntime a then RsPointer s + 1 else RsPointer s)\<rparr>))))"

fun ProcessHeads :: "nat \<Rightarrow> reloc_args \<Rightarrow> u32 \<Rightarrow> ue_reloc_state \<Rightarrow> (u32 \<times> ue_reloc_state) result" where
  "ProcessHeads 0 a TableOffset s = Inl OutOfFuel"
| "ProcessHeads (Suc fuel) a TableOffset s =
     bindR (readU16 (ArgTable a (RsImage s)) (unat TableOffset)) (\<lambda>FixupInfo.
     let TableOffset = TableOffset + 2 in
     bindR (ProcessHead a FixupInfo s) (\<lambda>s.
     let RelocOffset = UE_RELOC_FIXUP_OFFSET FixupInfo in
     bindR (UnchainReloc (ArgAlloc a) (RsRuntime s) None (ArgIsRuntime a) RelocOffset None) (\<lambda>Rt.
     let s = s\<lparr>RsRuntime := Rt\<rparr> in
     if RelocOffset = UE_HEAD_FIXUP_OFFSET_END then Inr (TableOffset, s)
     else
       let RelocTarget = RsTarget s + ucast RelocOffset in
       assertR (ucast RelocOffset \<le> RelocTarget)
       (if TableOffset > ArgTableSize a - 2 then fail RETURN_VOLUME_CORRUPTED
        else ProcessHeads fuel a TableOffset (s\<lparr>RsTarget := RelocTarget\<rparr>)))))"

fun ProcessRoots :: "nat \<Rightarrow> reloc_args \<Rightarrow> u32 \<Rightarrow> ue_reloc_state \<Rightarrow> ue_reloc_state result" where
  "ProcessRoots 0 a TableOffset s = Inl OutOfFuel"
| "ProcessRoots (Suc fuel) a TableOffset s =
     (if \<not> TableOffset \<le> ArgTableSize a - MIN_SIZE_OF_UE_FIXUP_ROOT then Inr s
      else
        bindR (ReadUnaligned32 (ArgTable a (RsImage s)) (unat TableOffset)) (\<lambda>FirstOffset.
        let (Overflow, RelocTarget) = BaseOverflowAddU32 (RsTarget s) FirstOffset in
        if Overflow then fail RETURN_VOLUME_CORRUPTED
        else
          bindR (UnchainReloc (ArgAlloc a) (RsRuntime s) (Some (le_to_bytes 4 (unat FirstOffset)))
                   (ArgIsRuntime a) 0 None) (\<lambda>Rt.
          bindR (ProcessHeads (unat (ArgTableSize a)) a (TableOffset + sizeof_UE_FIXUP_ROOT)
                   (s\<lparr>RsRuntime := Rt, RsTarget := RelocTarget\<rparr>)) (\<lambda>(OldTableOffset, s).
          let TableOffset = ALIGN_VALUE OldTableOffset 4 in
          assertR (OldTableOffset \<le> TableOffset) (ProcessRoots fuel a TableOffset s)))))"

text \<open>InitData is the value that the local variable FixupData has before it is first assigned.\<close>

definition InternaRelocateImage ::
  "reloc_args \<Rightarrow> u8 list \<Rightarrow> ue_runtime option \<Rightarrow> u64 \<Rightarrow> (u8 list \<times> ue_runtime option) result" where
  "InternaRelocateImage a Img RuntimeContext InitData =
     (if ArgTableSize a = 0 then Inr (Img, RuntimeContext)
      else if ArgAdjust a = 0 \<and> \<not> ArgChaining a then Inr (Img, RuntimeContext)
      else
        bindR (ProcessRoots (unat (ArgTableSize a)) a 0
                 \<lparr>RsImage = Img, RsTarget = 0, RsRuntime = RuntimeContext, RsPointer = 0, RsData = InitData\<rparr>)
          (\<lambda>s. Inr (RsImage s, RsRuntime s)))"

section \<open>Relocating an image\<close>

definition UeImageBytes :: "ue_context \<Rightarrow> u8 list" where
  "UeImageBytes Context =
     (case UeImageBuffer Context of
        NotLoaded \<Rightarrow> []
      | Destination d \<Rightarrow> Bytes d
      | Inplace \<Rightarrow> UeFileBytes Context)"

definition set_UeImageBytes :: "ue_context \<Rightarrow> u8 list \<Rightarrow> ue_context" where
  "set_UeImageBytes Context b =
     (case UeImageBuffer Context of
        NotLoaded \<Rightarrow> Context
      | Destination d \<Rightarrow> Context\<lparr>UeImageBuffer := Destination (d\<lparr>Bytes := b\<rparr>)\<rparr>
      | Inplace \<Rightarrow> Context\<lparr>UeFileBuffer := (UeFileBuffer Context)\<lparr>Bytes := b\<rparr>\<rparr>)"

definition ue_chaining :: "ue_context \<Rightarrow> bool" where
  "ue_chaining Context \<longleftrightarrow>
     (get_word 8 (UeFileBytes Context) 8 :: u64) AND UE_HEADER_IMAGE_INFO_CHAINED_FIXUPS \<noteq> 0"

definition ue_reloc_args ::
  "loader_cfg \<Rightarrow> (nat \<Rightarrow> bool) \<Rightarrow> ue_context \<Rightarrow> bool \<Rightarrow> u64 \<Rightarrow> reloc_args" where
  "ue_reloc_args cfg AllocOk Context Chaining Base =
     \<lparr>ArgCfg = cfg, ArgAlloc = AllocOk, ArgImageSize = ImageSize Context,
      ArgTable = (\<lambda>Img. drop (unat (LoadTablesFileOffset Context))
                    (if UeImageBuffer Context = Inplace then Img else UeFileBytes Context)),
      ArgTableSize = RelocTableSize Context, ArgChaining = Chaining,
      ArgAdjust = Base - (if XIP Context then BaseAddress Context + ucast (SegmentsFileOffset Context)
                          else BaseAddress Context),
      ArgIsRuntime = False\<rparr>"

text \<open>The fields of the context that the relocation updates besides the image.\<close>

definition UeRelocateImage ::
  "loader_cfg \<Rightarrow> (nat \<Rightarrow> bool) \<Rightarrow> u64 \<Rightarrow> ue_context \<Rightarrow> u64 \<Rightarrow> ue_runtime option \<Rightarrow> u32 \<Rightarrow>
     (ue_context \<times> ue_runtime option) result" where
  "UeRelocateImage cfg AllocOk InitData Context Base RuntimeContext RuntimeContextSize =
     assertR (IS_ALIGNED (LoadTablesFileOffset Context) UE_LOAD_TABLE_ALIGNMENT)
    (assertR (IS_ALIGNED (RelocTableSize Context) UE_LOAD_TABLE_ALIGNMENT)
    (assertR (IS_ALIGNED Base (ucast (SegmentAlignment Context)))
    (assertR (RuntimeContext \<noteq> None \<or> RuntimeContextSize = 0)
    (assertR (RuntimeContextSize = 0 \<or> 40 \<le> RuntimeContextSize)
    (bindR (ReadUnaligned64 (UeFileBytes Context) 8) (\<lambda>ImageInfo.
     let Chaining = (ImageInfo AND UE_HEADER_IMAGE_INFO_CHAINED_FIXUPS \<noteq> 0);
         RuntimeContext = map_option (\<lambda>Rt. Rt\<lparr>RtMachine := UeMachine Context\<rparr>) RuntimeContext;
         Context = (if XIP Context then
                      Context\<lparr>EntryPointAddress := EntryPointAddress Context - SegmentsFileOffset Context\<rparr>
                    else Context) in
     assertR (UeImageBuffer Context \<noteq> NotLoaded)
     (bindR (InternaRelocateImage (ue_reloc_args cfg AllocOk Context Chaining Base) (UeImageBytes Context)
               RuntimeContext InitData) (\<lambda>(Img, Rt).
      Inr (set_UeImageBytes Context Img, Rt)))))))))"

definition UeRelocateImageForRuntime ::
  "loader_cfg \<Rightarrow> (nat \<Rightarrow> bool) \<Rightarrow> u64 \<Rightarrow> buffer \<Rightarrow> u32 \<Rightarrow> ue_runtime \<Rightarrow> u64 \<Rightarrow> buffer result" where
  "UeRelocateImageForRuntime cfg AllocOk InitData Img ImageSz RuntimeContext Base =
     assertR (Address Img \<noteq> 0)
    (assertR (UnchainedRelocs RuntimeContext \<noteq> [] \<or> UnchainedRelocsSize RuntimeContext = 0)
    (bindR (InternaRelocateImage
              \<lparr>ArgCfg = cfg, ArgAlloc = AllocOk, ArgImageSize = ImageSz,
               ArgTable = (\<lambda>_. UnchainedRelocs RuntimeContext),
               ArgTableSize = UnchainedRelocsSize RuntimeContext, ArgChaining = False,
               ArgAdjust = Base - Address Img, ArgIsRuntime = True\<rparr>
              (Bytes Img) (Some RuntimeContext) InitData) (\<lambda>(b, _).
     Inr (Img\<lparr>Bytes := b\<rparr>))))"

end
