(* ===== verification/UeChain.thy ===== *)
theory UeChain
  imports UeRelocate
begin

text \<open>
  The effect of relocating UE fixups: the runtime context records them in unchained form, a chain
  relocates a list of fixups, and the same fixups are relocated with every other adjustment.
\<close>

section \<open>Recorded fixups\<close>

text \<open>
  A head is the type of a fixup with the offset of the next one; the fixups that a list of heads
  denotes are types with target addresses. \<open>heads_next\<close> is the address after the last offset.
\<close>

type_synonym head = "u16 \<times> u16"
type_synonym fixup = "u16 \<times> nat"

definition fix_size :: "u16 \<Rightarrow> nat" where
  "fix_size t = (if t = UeReloc64 then 8 else 4)"

fun fixups :: "nat \<Rightarrow> head list \<Rightarrow> fixup list" where
  "fixups r [] = []"
| "fixups r ((t, n) # hs) = (t, r) # fixups (r + fix_size t + unat n) hs"

fun heads_next :: "nat \<Rightarrow> head list \<Rightarrow> nat" where
  "heads_next r [] = r"
| "heads_next r ((t, n) # hs) = heads_next (r + fix_size t + unat n) hs"

definition enc_head :: "head \<Rightarrow> u8 list" where
  "enc_head h = le_to_bytes 2 (unat (push_bit 4 (snd h) OR fst h))"

definition enc_heads :: "head list \<Rightarrow> u8 list" where
  "enc_heads hs = concat (map enc_head hs)"

definition fix_value :: "u8 list \<Rightarrow> fixup \<Rightarrow> u64" where
  "fix_value Img f = (if fst f = UeReloc64 then get_word 8 Img (snd f) else ucast (get_word 4 Img (snd f) :: u32))"

definition enc_data :: "u8 list \<Rightarrow> fixup list \<Rightarrow> u8 list" where
  "enc_data Img fs = concat (map (\<lambda>f. le_to_bytes 8 (unat (fix_value Img f))) fs)"

text \<open>
  \<open>shifted d p fs A B\<close>: from the address \<open>p\<close> up to the end of the last fixup, the images differ
  only in the fixups, whose values in \<open>B\<close> are those in \<open>A\<close> plus \<open>d\<close>.
\<close>

definition shift_at :: "u64 \<Rightarrow> fixup \<Rightarrow> u8 list \<Rightarrow> u8 list \<Rightarrow> bool" where
  "shift_at d f A B \<longleftrightarrow>
     (if fst f = UeReloc64 then (get_word 8 B (snd f) :: u64) = get_word 8 A (snd f) + d
      else (get_word 4 B (snd f) :: u32) = get_word 4 A (snd f) + ucast d)"

definition same_range :: "nat \<Rightarrow> nat \<Rightarrow> u8 list \<Rightarrow> u8 list \<Rightarrow> bool" where
  "same_range p q A B \<longleftrightarrow> (\<forall>i. p \<le> i \<longrightarrow> i < q \<longrightarrow> i < length A \<longrightarrow> i < length B \<longrightarrow> B ! i = A ! i)"

fun shifted :: "u64 \<Rightarrow> nat \<Rightarrow> fixup list \<Rightarrow> u8 list \<Rightarrow> u8 list \<Rightarrow> bool" where
  "shifted d p [] A B \<longleftrightarrow> True"
| "shifted d p (f # fs) A B \<longleftrightarrow>
     p \<le> snd f \<and> same_range p (snd f) A B \<and> shift_at d f A B \<and>
     shifted d (snd f + fix_size (fst f)) fs A B"

definition fixups_end :: "nat \<Rightarrow> fixup list \<Rightarrow> nat" where
  "fixups_end p fs = (if fs = [] then p else snd (last fs) + fix_size (fst (last fs)))"

lemma fix_size_bounds: "4 \<le> fix_size t" "fix_size t \<le> 8"
  by (simp_all add: fix_size_def)

lemma fixups_append: "fixups r (xs @ ys) = fixups r xs @ fixups (heads_next r xs) ys"
  by (induction r xs rule: fixups.induct) auto

lemma heads_next_append [simp]: "heads_next r (xs @ ys) = heads_next (heads_next r xs) ys"
  by (induction r xs rule: heads_next.induct) auto

lemma length_fixups [simp]: "length (fixups r hs) = length hs"
  by (induction r hs rule: fixups.induct) auto

lemma heads_next_ge: "r + 4 * length hs \<le> heads_next r hs"
proof (induction r hs rule: heads_next.induct)
  case (2 r t n hs)
  then show ?case
    using fix_size_bounds(1) [of t] by simp
qed simp

lemma enc_heads_simps [simp]:
  "enc_heads [] = []" "enc_heads (h # hs) = enc_head h @ enc_heads hs"
  "enc_heads (xs @ ys) = enc_heads xs @ enc_heads ys"
  by (simp_all add: enc_heads_def)

lemma length_enc_head [simp]: "length (enc_head h) = 2"
  by (simp add: enc_head_def)

lemma length_enc_heads [simp]: "length (enc_heads hs) = 2 * length hs"
  by (induction hs) auto

lemma enc_data_simps [simp]:
  "enc_data Img [] = []" "enc_data Img (f # fs) = le_to_bytes 8 (unat (fix_value Img f)) @ enc_data Img fs"
  "enc_data Img (fs @ gs) = enc_data Img fs @ enc_data Img gs"
  by (simp_all add: enc_data_def)

lemma length_enc_data [simp]: "length (enc_data Img fs) = 8 * length fs"
  by (induction fs) auto

lemma shifted_append:
  "shifted d p (fs @ gs) A B \<longleftrightarrow> shifted d p fs A B \<and> shifted d (fixups_end p fs) gs A B"
  by (induction d p fs A B rule: shifted.induct) (auto simp: fixups_end_def)

text \<open>The facts about a fixup depend only on the bytes of the fixup.\<close>

definition below :: "nat \<Rightarrow> u8 list \<Rightarrow> u8 list \<Rightarrow> bool" where
  "below e A A' \<longleftrightarrow> length A' = length A \<and> (\<forall>i < length A. i < e \<longrightarrow> A' ! i = A ! i)"

definition above :: "nat \<Rightarrow> u8 list \<Rightarrow> u8 list \<Rightarrow> bool" where
  "above e A A' \<longleftrightarrow> length A' = length A \<and> (\<forall>i < length A. e \<le> i \<longrightarrow> A' ! i = A ! i)"

lemma take_drop_eqI:
  "length B = length A \<Longrightarrow> (\<And>i. x \<le> i \<Longrightarrow> i < x + n \<Longrightarrow> i < length A \<Longrightarrow> B ! i = A ! i) \<Longrightarrow>
     take n (drop x B) = take n (drop x A)"
  by (rule nth_equalityI) auto

lemma get_word_below: "below e A A' \<Longrightarrow> x + n \<le> e \<Longrightarrow> get_word n A' x = get_word n A x"
  by (rule get_word_cong, rule take_drop_eqI) (auto simp: below_def)

lemma get_word_above: "above e A A' \<Longrightarrow> e \<le> x \<Longrightarrow> get_word n A' x = get_word n A x"
  by (rule get_word_cong, rule take_drop_eqI) (auto simp: above_def)

lemma below_trans: "below e A B \<Longrightarrow> below f B C \<Longrightarrow> e \<le> f \<Longrightarrow> below e A C"
  by (auto simp: below_def)

lemma above_trans: "above e A B \<Longrightarrow> above f B C \<Longrightarrow> e \<le> f \<Longrightarrow> above f A C"
  by (auto simp: above_def)

lemma above_mono: "above e A B \<Longrightarrow> e \<le> f \<Longrightarrow> above f A B"
  by (auto simp: above_def)

lemma below_mono: "below e A B \<Longrightarrow> f \<le> e \<Longrightarrow> below f A B"
  by (auto simp: below_def)

lemma above_sym: "above e A B \<Longrightarrow> above e B A"
  by (auto simp: above_def)

lemma changes_only_below_above:
  assumes "changes_only a n A B"
  shows "below a A B" "above (a + n) A B"
  using assms by (auto simp: below_def above_def changes_only_def)

lemma below_refl [simp]: "below e A A" and above_refl [simp]: "above e A A"
  by (simp_all add: below_def above_def)

lemma shift_at_below:
  "shift_at d f A B \<Longrightarrow> below e A A' \<Longrightarrow> below e B B' \<Longrightarrow> snd f + fix_size (fst f) \<le> e \<Longrightarrow> shift_at d f A' B'"
  by (auto simp: shift_at_def fix_size_def get_word_below split: if_splits)

lemma fix_value_below: "below e A A' \<Longrightarrow> snd f + fix_size (fst f) \<le> e \<Longrightarrow> fix_value A' f = fix_value A f"
  by (auto simp: fix_value_def fix_size_def get_word_below split: if_splits)

lemma same_range_below:
  "same_range p q A B \<Longrightarrow> below e A A' \<Longrightarrow> below e B B' \<Longrightarrow> q \<le> e \<Longrightarrow> same_range p q A' B'"
  by (auto simp: same_range_def below_def)

lemma shifted_end: "shifted d p fs A B \<Longrightarrow> p \<le> fixups_end p fs"
proof (induction d p fs A B rule: shifted.induct)
  case (2 d p f fs A B)
  then show ?case
    by (cases "fs = []") (auto simp: fixups_end_def)
qed (simp add: fixups_end_def)

lemma shifted_below:
  assumes "shifted d p fs A B" "below e A A'" "below e B B'" "fixups_end p fs \<le> e"
  shows "shifted d p fs A' B' \<and> enc_data A' fs = enc_data A fs"
  using assms
proof (induction d p fs A B rule: shifted.induct)
  case (2 d p f fs A B)
  have "fixups_end p (f # fs) = fixups_end (snd f + fix_size (fst f)) fs"
    by (simp add: fixups_end_def)
  then have fs: "shifted d (snd f + fix_size (fst f)) fs A' B'" "enc_data A' fs = enc_data A fs"
    and le: "snd f + fix_size (fst f) \<le> e"
    using 2 shifted_end [of d "snd f + fix_size (fst f)" fs A B] by simp_all
  have "same_range p (snd f) A' B'"
    by (rule same_range_below [of _ _ A B e]) (use 2 le in simp_all)
  moreover have "shift_at d f A' B'"
    by (rule shift_at_below [of _ _ A B e]) (use 2 le in simp_all)
  moreover have "fix_value A' f = fix_value A f"
    by (rule fix_value_below [of e]) (use 2 le in simp_all)
  ultimately show ?case
    using 2 fs by simp
qed simp


section \<open>The runtime context records what is relocated\<close>

definition rt_sizes :: "ue_runtime \<Rightarrow> bool" where
  "rt_sizes R \<longleftrightarrow>
     unat (UnchainedRelocsSize R) = length (UnchainedRelocs R) \<and> unat (FixupSize R) = length (FixupData R)"

text \<open>\<open>unchained_as R bs ds R'\<close>: \<open>R'\<close> is \<open>R\<close> with \<open>bs\<close> and \<open>ds\<close> appended to its buffers.\<close>

definition unchained_as :: "ue_runtime \<Rightarrow> u8 list \<Rightarrow> u8 list \<Rightarrow> ue_runtime \<Rightarrow> bool" where
  "unchained_as R bs ds R' \<longleftrightarrow>
     rt_sizes R' \<and> UnchainedRelocs R' = UnchainedRelocs R @ bs \<and> FixupData R' = FixupData R @ ds \<and>
     RtMachine R' = RtMachine R"

lemma recorded_trans:
  "unchained_as R bs ds R' \<Longrightarrow> unchained_as R' bs' ds' R'' \<Longrightarrow> unchained_as R (bs @ bs') (ds @ ds') R''"
  by (simp add: unchained_as_def)

lemma wp_Reallocate:
  assumes "OldSize = length Old" "OldSize \<le> NewSize"
    and "Q (Old @ replicate (NewSize - OldSize) 0)"
  shows "wp (ReallocateRuntimePool ok OldSize NewSize Old) Q"
  using assms by (auto simp: ReallocateRuntimePool_def CopyMem_append min_def drop_replicate)

lemma AppendUnchained_wp:
  assumes "rt_sizes R" "length (UnchainedRelocs R) + length Meta < 4294967296"
    "Data \<noteq> None \<Longrightarrow> length (FixupData R) + 8 < 4294967296"
  shows "wp (AppendUnchained ok Meta Data R)
    (unchained_as R Meta (case Data of None \<Rightarrow> [] | Some v \<Rightarrow> le_to_bytes 8 (unat v)))"
proof -
  let ?n = "length (UnchainedRelocs R)" and ?m = "length (FixupData R)"
  have sz: "unat (UnchainedRelocsSize R) = ?n" "unat (FixupSize R) = ?m"
    using assms(1) by (simp_all add: rt_sizes_def)
  have new: "unat (UnchainedRelocsSize R + word_of_nat (length Meta)) = ?n + length Meta"
    "Data \<noteq> None \<Longrightarrow> unat (FixupSize R + 8) = ?m + 8"
    using assms(2,3) sz by (simp_all add: unat_word_ariths unat_of_nat take_bit_eq_mod mod_simps)
  show ?thesis
    unfolding AppendUnchained_def Let_def wp_bind
    by (rule wp_Reallocate)
      (auto simp: sz new CopyMem_append unchained_as_def rt_sizes_def drop_replicate split: option.splits
        intro!: wp_Reallocate)
qed

definition pad4 :: "nat \<Rightarrow> u8 list" where
  "pad4 n = replicate (align_up n 4 - n) 0"

lemma length_pad4: "n + length (pad4 n) = align_up n 4"
  by (simp add: pad4_def)

lemma unat_ucast_u8: "unat (e :: u32) < 256 \<Longrightarrow> unat (ucast e :: u8) = unat e"
  by (simp add: unsigned_ucast_eq unsigned_take_bit_eq take_bit_nat_eq_self)

lemma unat_ucast_8_32: "unat (ucast (w :: u8) :: u32) = unat w"
  using u8_less [of w] by (simp add: unsigned_ucast_eq take_bit_nat_eq_self)

lemma unat_ucast_16_32: "unat (ucast (w :: u16) :: u32) = unat w"
  using u16_less [of w] by (simp add: unsigned_ucast_eq take_bit_nat_eq_self)

lemma CloseUnchained_wp:
  assumes "rt_sizes R" "UnchainedRelocs R = p @ le_to_bytes 2 (unat h)" "length (UnchainedRelocs R) + 4 < 4294967296"
  shows "wp (CloseUnchained ok n R) (\<lambda>R'. rt_sizes R' \<and> RtMachine R' = RtMachine R \<and> FixupData R' = FixupData R \<and>
    UnchainedRelocs R' = p @ le_to_bytes 2 (unat (push_bit 4 n OR UE_RELOC_FIXUP_TYPE h)) @
      (if n = UE_HEAD_FIXUP_OFFSET_END then pad4 (length p + 2) else []))"
proof -
  let ?n = "length p + 2"
  define e where "e = ALIGN_VALUE_ADDEND (UnchainedRelocsSize R) 4"
  have sz: "unat (UnchainedRelocsSize R) = ?n" "unat (UnchainedRelocsSize R - 2) = length p"
    using assms(1,2) by (simp_all add: rt_sizes_def unat_sub word_le_nat_alt)
  have e: "unat e = align_up ?n 4 - ?n" "unat e < 4"
    using align_up_less [of 4 ?n]
    by (simp_all add: e_def unat_ALIGN_VALUE_ADDEND IS_POW2_def sz(1) align_up_def)
  have e8: "unat (ucast e :: u8) = unat e" "unat (ucast (ucast e :: u8) :: u32) = unat e"
    using e(2) unat_ucast_u8 [of e] u8_less [of "ucast e"] by (simp_all only: unat_ucast_8_32)
  then have e0: "(ucast e :: u8) = 0 \<longleftrightarrow> unat e = 0"
    using unat_eq_zero [of "ucast e :: u8"] by (simp only: e8)
  have new: "unat (UnchainedRelocsSize R + ucast (ucast e :: u8)) = ?n + unat e"
    using assms(2,3) sz e e8 by (simp add: unat_add_u32)
  have hdr: "get_word 2 (UnchainedRelocs R) (length p) = h"
    using unat_less_size [of h] by (simp add: assms(2) get_word_def)
  let ?v = "push_bit 4 n OR UE_RELOC_FIXUP_TYPE h"
  have wr: "writeU16 (UnchainedRelocs R) (length p) ?v = Inr (p @ le_to_bytes 2 (unat ?v))"
    by (simp add: writeU16_def write_bytes_def assms(2))
  have pad: "pad4 ?n = replicate (unat e) 0"
    by (simp add: pad4_def e(1))
  show ?thesis
    unfolding CloseUnchained_def Let_def wp_bind
    using assms(1,2) sz e8 e0 new hdr wr pad
    by (auto simp: ZeroMem_append rt_sizes_def simp flip: e_def intro!: wp_Reallocate)
qed


lemma unat_ucast_64_32: "unat (ucast (a :: u64) :: u32) = unat a mod 2 ^ 32"
  by (simp add: unsigned_ucast_eq take_bit_eq_mod)

lemma write_fixed_ex:
  assumes "LENGTH('w) = 8 * n" "off + n \<le> length b"
  shows "\<exists>b'. write_bytes b off (le_to_bytes n (unat (v :: 'w::len word))) = Inr b' \<and> changes_only off n b b' \<and>
    get_word n b' off = v"
proof -
  obtain b' where b': "write_bytes b off (le_to_bytes n (unat v)) = Inr b'"
    using assms(2) by (simp add: write_bytes_def)
  with write_bytes_changes_only [OF b'] get_word_write_same [OF b' assms(1)] show ?thesis
    by simp
qed

lemma write64_ex:
  "off + 8 \<le> length b \<Longrightarrow> \<exists>b'. WriteUnaligned64 b off v = Inr b' \<and> changes_only off 8 b b' \<and> get_word 8 b' off = v"
  unfolding WriteUnaligned64_def by (rule write_fixed_ex) simp_all

lemma write32_ex:
  "off + 4 \<le> length b \<Longrightarrow> \<exists>b'. WriteUnaligned32 b off v = Inr b' \<and> changes_only off 4 b b' \<and> get_word 4 b' off = v"
  unfolding WriteUnaligned32_def by (rule write_fixed_ex) simp_all

lemma read_fixed_eq:
  "off + 4 \<le> length b \<Longrightarrow> ReadUnaligned32 b off = Inr (get_word 4 b off)"
  "off + 8 \<le> length b \<Longrightarrow> ReadUnaligned64 b off = Inr (get_word 8 b off)"
  by (simp_all add: ReadUnaligned32_def ReadUnaligned64_def read_word_def)

lemma ChainFixup_64:
  assumes "unat r + 8 \<le> length Img" "8 \<le> rem" "v = UE_CHAINED_RELOC_FIXUP_VALUE (get_word 8 Img (unat r)) + a"
  shows "\<exists>Img'. ChainFixup Img UeReloc64 r rem a = Inr (Img', 8, ucast (get_word 8 Img (unat r) :: u64), v) \<and>
    changes_only (unat r) 8 Img Img' \<and> get_word 8 Img' (unat r) = v"
  using write64_ex [OF assms(1), of v] assms by (auto simp: ChainFixup_def read_fixed_eq Let_def not_less)

lemma ChainFixup_32:
  assumes "unat r + 4 \<le> length Img" "4 \<le> rem" "v = UE_CHAINED_RELOC_FIXUP_VALUE_32 (get_word 4 Img (unat r)) + ucast a"
  shows "\<exists>Img'. ChainFixup Img UeReloc32 r rem a =
      Inr (Img', 4, push_bit 4 (get_word 4 Img (unat r)) OR ucast UeReloc32, ucast v) \<and>
    changes_only (unat r) 4 Img Img' \<and> get_word 4 Img' (unat r) = v"
  using write32_ex [OF assms(1), of v] assms by (auto simp: ChainFixup_def read_fixed_eq Let_def not_less)

text \<open>
  A fixup of a chain, and the same fixup with another adjustment in an image that is equal from
  the fixup on.
\<close>

lemma ChainFixup_cases:
  assumes "unat r + unat rem \<le> length Img"
  shows "(\<exists>s. \<forall>Img2 d. ChainFixup Img2 t r rem (a + d) = fail s) \<or>
    (\<exists>Img' n info. ChainFixup Img t r rem a = Inr (Img', n, info, fix_value Img' (t, unat r)) \<and>
    (t = UeReloc32 \<or> t = UeReloc64) \<and> unat n = fix_size t \<and>
    changes_only (unat r) (fix_size t) Img Img' \<and>
    (\<forall>Img2 d. above (unat r) Img Img2 \<longrightarrow> (\<exists>Img2' v2. ChainFixup Img2 t r rem (a + d) = Inr (Img2', n, info, v2) \<and>
       changes_only (unat r) (fix_size t) Img2 Img2' \<and> shift_at d (t, unat r) Img' Img2')))"
proof -
  consider "t = UeReloc64" "8 \<le> rem" | "t = UeReloc32" "4 \<le> rem" | "\<exists>s. \<forall>Img2 d. ChainFixup Img2 t r rem (a + d) = fail s"
    by (cases "t = 1"; cases "t = 0"; cases "8 \<le> rem"; cases "4 \<le> rem") (auto simp: ChainFixup_def not_less not_le)
  then show ?thesis
  proof cases
    case 1
    then have le: "unat r + 8 \<le> length Img"
      using assms by (simp add: word_le_nat_alt)
    obtain Img' where w: "ChainFixup Img UeReloc64 r rem a =
        Inr (Img', 8, ucast (get_word 8 Img (unat r) :: u64), UE_CHAINED_RELOC_FIXUP_VALUE (get_word 8 Img (unat r)) + a)"
      "changes_only (unat r) 8 Img Img'" "get_word 8 Img' (unat r) = UE_CHAINED_RELOC_FIXUP_VALUE (get_word 8 Img (unat r)) + a"
      using ChainFixup_64 [OF le 1(2) refl, of a] by blast
    have "\<exists>Img2' v2. ChainFixup Img2 t r rem (a + d) = Inr (Img2', 8, ucast (get_word 8 Img (unat r) :: u64), v2) \<and>
       changes_only (unat r) (fix_size t) Img2 Img2' \<and> shift_at d (t, unat r) Img' Img2'" if "above (unat r) Img Img2" for Img2 d
    proof -
      have "unat r + 8 \<le> length Img2"
        using that le by (simp add: above_def)
      from ChainFixup_64 [OF this 1(2) refl, of "a + d"] show ?thesis
        using w(3) by (auto simp: 1(1) fix_size_def shift_at_def get_word_above [OF that] add.assoc)
    qed
    then show ?thesis
      using 1 w by (auto simp: fix_value_def fix_size_def)
  next
    case 2
    then have le: "unat r + 4 \<le> length Img"
      using assms by (simp add: word_le_nat_alt)
    let ?v = "UE_CHAINED_RELOC_FIXUP_VALUE_32 (get_word 4 Img (unat r)) + ucast a"
    obtain Img' where w: "ChainFixup Img UeReloc32 r rem a =
        Inr (Img', 4, push_bit 4 (get_word 4 Img (unat r)) OR ucast UeReloc32, ucast ?v)"
      "changes_only (unat r) 4 Img Img'" "get_word 4 Img' (unat r) = ?v"
      using ChainFixup_32 [OF le 2(2) refl, of a] by blast
    have "\<exists>Img2' v2. ChainFixup Img2 t r rem (a + d) = Inr (Img2', 4, push_bit 4 (get_word 4 Img (unat r)) OR ucast UeReloc32, v2) \<and>
       changes_only (unat r) (fix_size t) Img2 Img2' \<and> shift_at d (t, unat r) Img' Img2'" if "above (unat r) Img Img2" for Img2 d
    proof -
      have "unat r + 4 \<le> length Img2"
        using that le by (simp add: above_def)
      from ChainFixup_32 [OF this 2(2) refl, of "a + d"] show ?thesis
        using w(3) by (auto simp: 2(1) fix_size_def shift_at_def get_word_above [OF that] add.assoc ucast_add_down)
    qed
    then show ?thesis
      using 2 w by (auto simp: fix_value_def fix_size_def)
  qed simp
qed


section \<open>Chains\<close>

definition unchained_opt :: "ue_runtime option \<Rightarrow> u8 list \<Rightarrow> u8 list \<Rightarrow> ue_runtime option \<Rightarrow> bool" where
  "unchained_opt Rt bs ds Rt' \<longleftrightarrow>
     (case Rt of None \<Rightarrow> Rt' = None | Some R \<Rightarrow> \<exists>R'. Rt' = Some R' \<and> unchained_as R bs ds R')"

text \<open>There is room in the runtime context for \<open>m\<close> bytes of fixup table and \<open>n\<close> bytes of data.\<close>

definition rt_room :: "nat \<Rightarrow> nat \<Rightarrow> ue_runtime option \<Rightarrow> bool" where
  "rt_room m n Rt \<longleftrightarrow>
     (\<forall>R. Rt = Some R \<longrightarrow> rt_sizes R \<and> length (UnchainedRelocs R) + m < 4294967296 \<and>
        length (FixupData R) + n < 4294967296)"

lemma unchained_opt_trans:
  "unchained_opt Rt bs ds Rt' \<Longrightarrow> unchained_opt Rt' bs' ds' Rt'' \<Longrightarrow> unchained_opt Rt (bs @ bs') (ds @ ds') Rt''"
  by (auto simp: unchained_opt_def dest: recorded_trans split: option.splits)

lemma rt_room_recorded:
  "rt_room m n Rt \<Longrightarrow> unchained_opt Rt bs ds Rt' \<Longrightarrow> m' + length bs \<le> m \<Longrightarrow> n' + length ds \<le> n \<Longrightarrow> rt_room m' n' Rt'"
  by (auto simp: rt_room_def unchained_opt_def unchained_as_def split: option.splits)

lemma unchained_opt_None [simp]: "unchained_opt None bs ds Rt' \<longleftrightarrow> Rt' = None"
  by (simp add: unchained_opt_def)

lemma UnchainReloc_None [simp]: "UnchainReloc ok None m rt n d = Inr None"
  by (simp add: UnchainReloc_def)

lemma UnchainReloc_append_wp:
  assumes "rt_room (length Meta) (if Data = None then 0 else 8) Rt"
  shows "wp (UnchainReloc ok Rt (Some Meta) False n Data)
    (unchained_opt Rt Meta (case Data of None \<Rightarrow> [] | Some v \<Rightarrow> le_to_bytes 8 (unat v)))"
proof (cases Rt)
  case (Some R)
  have "wp (AppendUnchained ok Meta Data R) (unchained_as R Meta (case Data of None \<Rightarrow> [] | Some v \<Rightarrow> le_to_bytes 8 (unat v)))"
    by (rule AppendUnchained_wp) (use assms Some in \<open>auto simp: rt_room_def split: if_splits\<close>)
  then show ?thesis
    by (auto simp: UnchainReloc_def Some unchained_opt_def elim!: wp_mono)
qed simp

definition good_heads :: "head list \<Rightarrow> bool" where
  "good_heads hs \<longleftrightarrow> list_all (\<lambda>(t, n). unat t \<le> 2 \<and> unat n < 4095) hs"

lemma good_heads_simps [simp]:
  "good_heads []" "good_heads ((t, n) # hs) \<longleftrightarrow> unat t \<le> 2 \<and> unat n < 4095 \<and> good_heads hs"
  "good_heads (xs @ ys) \<longleftrightarrow> good_heads xs \<and> good_heads ys"
  by (simp_all add: good_heads_def)

lemma next_offset_bound:
  "unat (UE_CHAINED_RELOC_FIXUP_NEXT_OFFSET i) \<le> 4095"
  "UE_CHAINED_RELOC_FIXUP_NEXT_OFFSET i \<noteq> UE_CHAINED_RELOC_FIXUP_OFFSET_END \<Longrightarrow>
     unat (UE_CHAINED_RELOC_FIXUP_NEXT_OFFSET i) < 4095"
proof -
  show le: "unat (UE_CHAINED_RELOC_FIXUP_NEXT_OFFSET i) \<le> 4095"
    using unat_and_le [of _ "0x0FFF :: u16"] by (simp add: UE_CHAINED_RELOC_FIXUP_NEXT_OFFSET_def)
  show "unat (UE_CHAINED_RELOC_FIXUP_NEXT_OFFSET i) < 4095" if "UE_CHAINED_RELOC_FIXUP_NEXT_OFFSET i \<noteq> 0x0FFF"
    using le that by (simp add: word_unat_eq_iff)
qed

lemma offset_step:
  assumes "unat r \<le> 4294963200" "unat n \<le> 4095"
  shows "unat (r + ucast (n :: u16) :: u32) = unat r + unat n" "ucast n \<le> r + (ucast n :: u32)"
proof -
  show "unat (r + ucast n) = unat r + unat n"
    using assms by (subst unat_add_u32) (simp_all add: unat_ucast_16_32)
  then show "ucast n \<le> r + (ucast n :: u32)"
    by (simp add: word_le_nat_alt unat_ucast_16_32)
qed

text \<open>
  What a chain does: it relocates the fixups of a list of heads, records them in the runtime
  context, and does the same with another adjustment in an image that is equal from its start on.
\<close>

definition chain_post ::
  "u32 \<Rightarrow> u64 \<Rightarrow> u8 list \<Rightarrow> u16 \<Rightarrow> u32 \<Rightarrow> ue_runtime option \<Rightarrow> u8 list \<times> u32 \<times> ue_runtime option \<Rightarrow> head list \<Rightarrow> u16 \<Rightarrow> bool" where
  "chain_post sz a Img t r Rt res xs t' \<longleftrightarrow>
     (case res of (Img', r', Rt') \<Rightarrow>
        let fs = fixups (unat r) (xs @ [(t', 0x0FFF)]) in
        good_heads xs \<and> (t' = UeReloc32 \<or> t' = UeReloc64) \<and>
        unat r' = heads_next (unat r) xs + fix_size t' \<and> unat r' \<le> unat sz \<and>
        changes_only (unat r) (unat r' - unat r) Img Img' \<and>
        unchained_opt Rt (enc_heads (xs @ [(t', 0x0FFF)])) (enc_data Img' fs) Rt' \<and>
        (\<forall>Img2 d ok. above (unat r) Img Img2 \<longrightarrow>
           (\<exists>Img2'. InternalProcessRelocChain ok sz (a + d) Img2 t r None = Inr (Img2', r', None) \<and>
              changes_only (unat r) (unat r' - unat r) Img2 Img2' \<and> shifted d (unat r) fs Img' Img2')))"

lemma chain_unfold:
  assumes "\<not> unat sz < unat r" "ChainFixup Img t r (sz - r) a = Inr (Img1, n, info, v)"
    "m = UE_CHAINED_RELOC_FIXUP_NEXT_OFFSET info"
  shows "InternalProcessRelocChain ok sz a Img t r Rt =
    bindR (UnchainReloc ok Rt (Some (enc_head (t, m))) False 0 (Some v)) (\<lambda>Rt.
      if m = UE_CHAINED_RELOC_FIXUP_OFFSET_END then Inr (Img1, r + n, Rt)
      else assertR (ucast m \<le> r + n + ucast m)
        (InternalProcessRelocChain ok sz a Img1 (UE_CHAINED_RELOC_FIXUP_NEXT_TYPE info) (r + n + ucast m) Rt))"
  using assms by (subst InternalProcessRelocChain.simps) (simp add: SubU32_eq Let_def enc_head_def cong: if_cong)

text \<open>The first fixup of a chain and its counterpart with another adjustment.\<close>

definition first_fixup :: "u32 \<Rightarrow> u64 \<Rightarrow> u8 list \<Rightarrow> u16 \<Rightarrow> u32 \<Rightarrow> u8 list \<Rightarrow> u32 \<Rightarrow> u32 \<Rightarrow> bool" where
  "first_fixup sz a Img t r Img1 n info \<longleftrightarrow>
     ChainFixup Img t r (sz - r) a = Inr (Img1, n, info, fix_value Img1 (t, unat r)) \<and>
     \<not> unat sz < unat r \<and> (t = UeReloc32 \<or> t = UeReloc64) \<and> unat n = fix_size t \<and>
     unat (r + n) = unat r + fix_size t \<and> unat (r + n) \<le> unat sz \<and>
     changes_only (unat r) (fix_size t) Img Img1 \<and>
     (\<forall>Img2 d. above (unat r) Img Img2 \<longrightarrow>
        (\<exists>Img2' v2. ChainFixup Img2 t r (sz - r) (a + d) = Inr (Img2', n, info, v2) \<and>
           changes_only (unat r) (fix_size t) Img2 Img2' \<and> shift_at d (t, unat r) Img1 Img2'))"

lemma chain_post_end:
  assumes first: "first_fixup sz a Img t r Img1 n info"
    and m: "UE_CHAINED_RELOC_FIXUP_NEXT_OFFSET info = UE_CHAINED_RELOC_FIXUP_OFFSET_END"
    and rec: "unchained_opt Rt (enc_head (t, 0x0FFF)) (le_to_bytes 8 (unat (fix_value Img1 (t, unat r)))) Rt1"
  shows "chain_post sz a Img t r Rt (Img1, r + n, Rt1) [] t"
proof -
  have "\<exists>Img2'. InternalProcessRelocChain ok sz (a + d) Img2 t r None = Inr (Img2', r + n, None) \<and>
      changes_only (unat r) (fix_size t) Img2 Img2' \<and> shift_at d (t, unat r) Img1 Img2'"
    if "above (unat r) Img Img2" for Img2 d ok
  proof -
    obtain Img2' v2 where "ChainFixup Img2 t r (sz - r) (a + d) = Inr (Img2', n, info, v2)"
      "changes_only (unat r) (fix_size t) Img2 Img2'" "shift_at d (t, unat r) Img1 Img2'"
      using first \<open>above (unat r) Img Img2\<close> unfolding first_fixup_def by blast
    then show ?thesis
      using first by (subst chain_unfold [OF _ _ refl]) (auto simp: m first_fixup_def)
  qed
  then show ?thesis
    using first rec by (simp add: chain_post_def first_fixup_def same_range_def)
qed

lemma changes_only_chain:
  "changes_only a n A B \<Longrightarrow> changes_only b m B C \<Longrightarrow> a \<le> b \<Longrightarrow> a + n \<le> b + m \<Longrightarrow> k = b + m - a \<Longrightarrow> changes_only a k A C"
  by (auto simp: changes_only_def)

lemma chain_post_cons:
  assumes first: "first_fixup sz a Img t r Img1 n info"
    and m: "m = UE_CHAINED_RELOC_FIXUP_NEXT_OFFSET info" "m \<noteq> UE_CHAINED_RELOC_FIXUP_OFFSET_END"
    and sz: "unat sz \<le> 4294963200"
    and rec: "unchained_opt Rt (enc_head (t, m)) (le_to_bytes 8 (unat (fix_value Img1 (t, unat r)))) Rt1"
    and rest: "chain_post sz a Img1 (UE_CHAINED_RELOC_FIXUP_NEXT_TYPE info) (r + n + ucast m) Rt1 res xs t'"
  shows "chain_post sz a Img t r Rt res ((t, m) # xs) t'"
proof -
  obtain Img' r' Rt' where res: "res = (Img', r', Rt')"
    by (cases res)
  define r1 where "r1 = unat r + fix_size t"
  define r2 where "r2 = r1 + unat m"
  define fs where "fs = fixups r2 (xs @ [(t', 0x0FFF)])"
  have m': "unat m < 4095"
    using next_offset_bound(2) m by simp
  have rn: "unat (r + n) = r1" "r1 \<le> unat sz"
    using first by (simp_all add: first_fixup_def r1_def)
  have off: "unat (r + n + ucast m) = r2" "ucast m \<le> r + n + (ucast m :: u32)"
    using offset_step [of "r + n" m] rn sz m' by (simp_all add: r2_def)
  have tail: "good_heads xs" "t' = UeReloc32 \<or> t' = UeReloc64" "unat r' = heads_next r2 xs + fix_size t'"
    "unat r' \<le> unat sz" "changes_only r2 (unat r' - r2) Img1 Img'"
    "unchained_opt Rt1 (enc_heads (xs @ [(t', 0x0FFF)])) (enc_data Img' fs) Rt'"
    and other: "\<forall>Img2 d ok. above r2 Img1 Img2 \<longrightarrow> (\<exists>Img2'. InternalProcessRelocChain ok sz (a + d) Img2
        (UE_CHAINED_RELOC_FIXUP_NEXT_TYPE info) (r + n + ucast m) None = Inr (Img2', r', None) \<and>
      changes_only r2 (unat r' - r2) Img2 Img2' \<and> shifted d r2 fs Img' Img2')"
    using rest unfolding chain_post_def res prod.case Let_def off fs_def [symmetric]
    by - (elim conjE, assumption)+
  have r': "r2 \<le> unat r'"
    using tail(3) heads_next_ge [of r2 xs] by simp
  have frame: "below r2 Img1 Img'" "above r1 Img Img1" "below (unat r) Img Img1"
    using tail(5) first by (auto dest: changes_only_below_above simp: first_fixup_def r1_def)
  have val: "fix_value Img' (t, unat r) = fix_value Img1 (t, unat r)"
    by (rule fix_value_below [OF frame(1)]) (simp add: r2_def r1_def)
  have le: "unat r \<le> r1" "r1 \<le> r2"
    by (simp_all add: r1_def r2_def)
  have ch: "changes_only (unat r) (unat r' - unat r) A C"
    if "changes_only (unat r) (fix_size t) A B" "changes_only r2 (unat r' - r2) B C" for A B C
    by (rule changes_only_chain [OF that]) (use le r' in \<open>simp_all add: r1_def\<close>)
  have "\<exists>Img2'. InternalProcessRelocChain ok sz (a + d) Img2 t r None = Inr (Img2', r', None) \<and>
      changes_only (unat r) (unat r' - unat r) Img2 Img2' \<and> shifted d (unat r) ((t, unat r) # fs) Img' Img2'"
    if ab: "above (unat r) Img Img2" for Img2 d ok
  proof -
    obtain Img3 v2 where step: "ChainFixup Img2 t r (sz - r) (a + d) = Inr (Img3, n, info, v2)"
      "changes_only (unat r) (fix_size t) Img2 Img3" "shift_at d (t, unat r) Img1 Img3"
      using first ab unfolding first_fixup_def by blast
    have ab1: "above r1 Img1 Img3"
      using above_mono [OF ab le(1)] frame(2) changes_only_below_above(2) [OF step(2)]
      by (auto simp: above_def r1_def)
    obtain Img2' where run: "InternalProcessRelocChain ok sz (a + d) Img3
        (UE_CHAINED_RELOC_FIXUP_NEXT_TYPE info) (r + n + ucast m) None = Inr (Img2', r', None)"
      "changes_only r2 (unat r' - r2) Img3 Img2'" "shifted d r2 fs Img' Img2'"
      using other [rule_format, OF above_mono [OF ab1 le(2)]] by blast
    have below2: "below r2 Img3 Img2'"
      using run(2) by (rule changes_only_below_above)
    have "shift_at d (t, unat r) Img' Img2'"
      by (rule shift_at_below [OF step(3) frame(1) below2]) (simp add: r2_def r1_def)
    moreover have "same_range r1 r2 Img' Img2'"
      by (rule same_range_below [OF _ frame(1) below2]) (use ab1 in \<open>auto simp: same_range_def above_def\<close>)
    then have "shifted d r1 fs Img' Img2'"
      using run(3) le(2) by (cases "xs @ [(t', 0x0FFF)]") (auto simp: fs_def)
    moreover have "InternalProcessRelocChain ok sz (a + d) Img2 t r None = Inr (Img2', r', None)"
      using first m run(1) off by (subst chain_unfold [OF _ step(1) m(1)]) (auto simp: first_fixup_def)
    ultimately show ?thesis
      using ch [OF step(2) run(2)] by (auto simp: same_range_def r1_def)
  qed
  then show ?thesis
    using unchained_opt_trans [OF rec tail(6)] tail(1-4) ch [OF _ tail(5), of Img] first m'
    by (auto simp: chain_post_def res Let_def fs_def r2_def r1_def val first_fixup_def)
qed

lemma first_fixupE:
  assumes "\<not> unat sz < unat r" "unat sz \<le> length Img"
  obtains s where "ChainFixup Img t r (sz - r) a = fail s"
  | Img1 n info where "first_fixup sz a Img t r Img1 n info"
proof -
  have "unat r + unat (sz - r) \<le> length Img"
    using assms by (simp add: unat_sub word_le_nat_alt)
  from ChainFixup_cases [OF this, of t a] show thesis
  proof (rule disjE)
    assume "\<exists>s. \<forall>Img2 d. ChainFixup Img2 t r (sz - r) (a + d) = fail s"
    then obtain s where "\<forall>Img2 d. ChainFixup Img2 t r (sz - r) (a + d) = fail s" ..
    from this [rule_format, of Img 0] show thesis
      using that(1) by simp
  next
    assume "\<exists>Img' n info. ChainFixup Img t r (sz - r) a = Inr (Img', n, info, fix_value Img' (t, unat r)) \<and>
      (t = UeReloc32 \<or> t = UeReloc64) \<and> unat n = fix_size t \<and> changes_only (unat r) (fix_size t) Img Img' \<and>
      (\<forall>Img2 d. above (unat r) Img Img2 \<longrightarrow>
         (\<exists>Img2' v2. ChainFixup Img2 t r (sz - r) (a + d) = Inr (Img2', n, info, v2) \<and>
            changes_only (unat r) (fix_size t) Img2 Img2' \<and> shift_at d (t, unat r) Img' Img2'))"
    then obtain Img1 n info where f: "ChainFixup Img t r (sz - r) a = Inr (Img1, n, info, fix_value Img1 (t, unat r)) \<and>
      (t = UeReloc32 \<or> t = UeReloc64) \<and> unat n = fix_size t \<and> changes_only (unat r) (fix_size t) Img Img1 \<and>
      (\<forall>Img2 d. above (unat r) Img Img2 \<longrightarrow>
         (\<exists>Img2' v2. ChainFixup Img2 t r (sz - r) (a + d) = Inr (Img2', n, info, v2) \<and>
            changes_only (unat r) (fix_size t) Img2 Img2' \<and> shift_at d (t, unat r) Img1 Img2'))"
      by (elim exE)
    have "first_fixup sz a Img t r Img1 n info"
      unfolding first_fixup_def using f assms(1) chain_progress [OF assms(1) conjunct1 [OF f]] by simp
    then show thesis
      by (rule that(2))
  qed
qed

lemma chain_step_wp:
  assumes first: "first_fixup sz a Img t r Img1 n info" and sz: "unat sz \<le> 4294963200"
    and room: "rt_room (unat sz - unat r) (2 * (unat sz - unat r)) Rt"
    and rest: "\<And>Rt1 t r2. unat r < unat r2 \<Longrightarrow> rt_room (unat sz - unat r2) (2 * (unat sz - unat r2)) Rt1 \<Longrightarrow>
      wp (InternalProcessRelocChain ok sz a Img1 t r2 Rt1) (\<lambda>res. \<exists>xs t'. chain_post sz a Img1 t r2 Rt1 res xs t')"
  shows "wp (InternalProcessRelocChain ok sz a Img t r Rt) (\<lambda>res. \<exists>xs t'. chain_post sz a Img t r Rt res xs t')"
proof -
  define m where "m = UE_CHAINED_RELOC_FIXUP_NEXT_OFFSET info"
  let ?v = "fix_value Img1 (t, unat r)" and ?h = "enc_head (t, m)"
  have f: "ChainFixup Img t r (sz - r) a = Inr (Img1, n, info, ?v)" "unat (r + n) = unat r + fix_size t"
    "unat (r + n) \<le> unat sz" "\<not> unat sz < unat r"
    using first by (simp_all add: first_fixup_def)
  have room1: "rt_room (length ?h) 8 Rt"
    using room f(2,3) fix_size_bounds(1) [of t] by (auto simp: rt_room_def)
  have off: "unat (r + n + ucast m) = unat (r + n) + unat m" "ucast m \<le> r + n + (ucast m :: u32)"
    using offset_step [of "r + n" m] f(3) sz next_offset_bound(1) [of info] by (simp_all add: m_def)
  have step: "wp (if m = UE_CHAINED_RELOC_FIXUP_OFFSET_END then Inr (Img1, r + n, Rt1)
      else assertR (ucast m \<le> r + n + ucast m)
        (InternalProcessRelocChain ok sz a Img1 (UE_CHAINED_RELOC_FIXUP_NEXT_TYPE info) (r + n + ucast m) Rt1))
     (\<lambda>res. \<exists>xs t'. chain_post sz a Img t r Rt res xs t')"
    if rec: "unchained_opt Rt ?h (le_to_bytes 8 (unat ?v)) Rt1" for Rt1
  proof (cases "m = UE_CHAINED_RELOC_FIXUP_OFFSET_END")
    case True
    have "chain_post sz a Img t r Rt (Img1, r + n, Rt1) [] t"
      by (rule chain_post_end [OF first]) (use True rec in \<open>simp_all add: m_def\<close>)
    then show ?thesis
      using True by auto
  next
    case False
    have "rt_room (unat sz - unat (r + n + ucast m)) (2 * (unat sz - unat (r + n + ucast m))) Rt1"
      using fix_size_bounds(1) [of t] f(2,3) off(1)
      by (intro rt_room_recorded [OF room rec]) simp_all
    then have "wp (InternalProcessRelocChain ok sz a Img1 (UE_CHAINED_RELOC_FIXUP_NEXT_TYPE info) (r + n + ucast m) Rt1)
        (\<lambda>res. \<exists>xs t'. chain_post sz a Img1 (UE_CHAINED_RELOC_FIXUP_NEXT_TYPE info) (r + n + ucast m) Rt1 res xs t')"
      using fix_size_bounds(1) [of t] f(2) off(1) by (intro rest) simp_all
    then have "wp (InternalProcessRelocChain ok sz a Img1 (UE_CHAINED_RELOC_FIXUP_NEXT_TYPE info) (r + n + ucast m) Rt1)
        (\<lambda>res. \<exists>xs t'. chain_post sz a Img t r Rt res xs t')"
      by (rule wp_mono) (elim exE, intro exI, rule chain_post_cons [OF first m_def False sz rec])
    then show ?thesis
      using False off(2) by simp
  qed
  have "wp (UnchainReloc ok Rt (Some ?h) False 0 (Some ?v)) (\<lambda>Rt1. unchained_opt Rt ?h (le_to_bytes 8 (unat ?v)) Rt1)"
    using UnchainReloc_append_wp [of ?h "Some ?v" Rt ok 0] room1 by simp
  then show ?thesis
    unfolding chain_unfold [OF f(4) f(1) m_def] by (rule wp_bindI) (rule step)
qed

lemma chain_wp:
  assumes "unat sz \<le> length Img" "unat sz \<le> 4294963200"
    "rt_room (unat sz - unat r) (2 * (unat sz - unat r)) Rt"
  shows "wp (InternalProcessRelocChain ok sz a Img t r Rt) (\<lambda>res. \<exists>xs t'. chain_post sz a Img t r Rt res xs t')"
  using assms
proof (induction "2 ^ 32 - unat r" arbitrary: Img t r Rt rule: less_induct)
  case less
  show ?case
  proof (cases "unat sz < unat r")
    case True
    then show ?thesis
      by (subst InternalProcessRelocChain.simps) (simp add: SubU32_eq Let_def)
  next
    case False
    show ?thesis
    proof (rule first_fixupE [OF False less.prems(1), of t a])
      fix s
      assume "ChainFixup Img t r (sz - r) a = fail s"
      with False show ?thesis
        by (subst InternalProcessRelocChain.simps) (simp add: SubU32_eq Let_def)
    next
      fix Img1 n info
      assume first: "first_fixup sz a Img t r Img1 n info"
      then have "length Img1 = length Img"
        by (auto simp: first_fixup_def dest: changes_only_length)
      then show ?thesis
        using less.prems less.hyps u32_less [of r] by (intro chain_step_wp [OF first]) simp_all
    qed
  qed
qed


section \<open>Fixups outside of chains\<close>

lemma ApplyReloc32_eq:
  assumes "unat r + 4 \<le> length Img" "v = get_word 4 Img (unat r) + ucast a"
  shows "\<exists>Img'. ApplyReloc32 cfg Img r a FR False = Inr (Img', r + 4, Some v) \<and>
    changes_only (unat r) 4 Img Img' \<and> get_word 4 Img' (unat r) = v"
  using write32_ex [OF assms(1), of v] assms by (auto simp: ApplyReloc32_def read_fixed_eq)

lemma ApplyReloc64_eq:
  assumes "unat r + 8 \<le> length Img" "v = get_word 8 Img (unat r) + a"
  shows "\<exists>Img'. ApplyReloc64 cfg Img r a FR False = Inr (Img', r + 8) \<and>
    changes_only (unat r) 8 Img Img' \<and> get_word 8 Img' (unat r) = v"
  using write64_ex [OF assms(1), of v] assms by (auto simp: ApplyReloc64_def read_fixed_eq)

text \<open>A fixup of the table while the image is loaded, with every adjustment.\<close>

definition apply_ok :: "u32 \<Rightarrow> u16 \<Rightarrow> u32 \<Rightarrow> bool" where
  "apply_ok sz t r \<longleftrightarrow> unat t \<le> 2 \<and> unat r + fix_size t \<le> unat sz"

lemma reloc_types: "unat (t :: u16) \<le> 2 \<longleftrightarrow> t = UeReloc32 \<or> t = UeReloc64 \<or> t = UeReloc32NoMeta"
  by (auto simp: word_unat_eq_iff)

lemma apply_okD:
  assumes "apply_ok sz t r"
  shows "t = UeReloc32 \<or> t = UeReloc64 \<or> t = UeReloc32NoMeta" "\<not> unat sz < unat r"
    "fix_size t \<le> unat (sz - r)" "unat (r + word_of_nat (fix_size t)) = unat r + fix_size t"
proof -
  show "t = UeReloc32 \<or> t = UeReloc64 \<or> t = UeReloc32NoMeta" "\<not> unat sz < unat r"
    using assms by (auto simp: apply_ok_def reloc_types)
  have "unat (sz - r) = unat sz - unat r"
    using assms by (simp add: apply_ok_def unat_sub word_le_nat_alt)
  then show "fix_size t \<le> unat (sz - r)"
    using assms unfolding apply_ok_def by linarith
  have "unat (word_of_nat (fix_size t) :: u32) = fix_size t"
    by (simp add: fix_size_def)
  then show "unat (r + word_of_nat (fix_size t)) = unat r + fix_size t"
    using assms u32_less [of sz] by (subst unat_add_u32) (simp_all add: apply_ok_def)
qed

lemma InternalApplyRelocationUe_fail:
  "\<not> apply_ok sz t r \<Longrightarrow> \<exists>s. InternalApplyRelocationUe cfg Img sz t r a FR D rt = fail s"
  by (auto simp: InternalApplyRelocationUe_def SubU32_eq apply_ok_def reloc_types fix_size_def unat_sub
      word_le_nat_alt word_less_nat_alt not_le not_less)

lemma InternalApplyRelocationUe_load:
  assumes "apply_ok sz t r" "unat sz \<le> length Img"
  shows "\<exists>Img'. InternalApplyRelocationUe cfg Img sz t r a FR D False =
      Inr (Img', r + word_of_nat (fix_size t), if t = UeReloc32NoMeta then fix_value Img' (t, unat r) else D) \<and>
    changes_only (unat r) (fix_size t) Img Img' \<and>
    (if t = UeReloc64 then (get_word 8 Img' (unat r) :: u64) = get_word 8 Img (unat r) + a
     else (get_word 4 Img' (unat r) :: u32) = get_word 4 Img (unat r) + ucast a)"
proof -
  note t = apply_okD [OF assms(1)]
  show ?thesis
  proof (cases "t = UeReloc64")
    case True
    then have "unat r + 8 \<le> length Img" and "\<not> 8 > sz - r"
      using assms t(3) by (simp_all add: apply_ok_def fix_size_def word_less_nat_alt)
    with ApplyReloc64_eq [of r Img _ a cfg FR] True t(2) show ?thesis
      by (auto simp: InternalApplyRelocationUe_def SubU32_eq fix_size_def)
  next
    case False
    then have "unat r + 4 \<le> length Img" and "\<not> 4 > sz - r"
      using assms t(3) by (simp_all add: apply_ok_def fix_size_def word_less_nat_alt)
    with ApplyReloc32_eq [of r Img _ a cfg FR] False t(1,2) show ?thesis
      by (auto simp: InternalApplyRelocationUe_def SubU32_eq fix_size_def fix_value_def)
  qed
qed

end
