(* ===== verification/UeTable.thy ===== *)
theory UeTable
  imports UeChain
begin

text \<open>
  The loops over the UE relocation table: for every table they end, stay inside the table, the
  image and the runtime context, and relocate the fixups of a list of roots.
\<close>

section \<open>Heads of the relocation table\<close>

abbreviation other_args :: "(nat \<Rightarrow> bool) \<Rightarrow> u64 \<Rightarrow> reloc_args \<Rightarrow> reloc_args" where
  "other_args ok d a \<equiv> a\<lparr>ArgAlloc := ok, ArgAdjust := ArgAdjust a + d\<rparr>"

abbreviation other_state :: "u8 list \<Rightarrow> u64 \<Rightarrow> ue_reloc_state \<Rightarrow> ue_reloc_state" where
  "other_state Img D s \<equiv> s\<lparr>RsImage := Img, RsRuntime := None, RsData := D\<rparr>"

text \<open>
  The effect of relocating a list of fixups: they end before the new target, only they have
  changed, their record is \<open>bs\<close> and \<open>ds\<close>, and with another adjustment their values are shifted.
\<close>

definition relocates ::
  "reloc_args \<Rightarrow> ue_reloc_state \<Rightarrow> fixup list \<Rightarrow> u8 list \<Rightarrow> u8 list \<Rightarrow> ue_reloc_state \<Rightarrow> bool" where
  "relocates a s fs bs ds s' \<longleftrightarrow>
     unat (RsTarget s) \<le> unat (RsTarget s') \<and> unat (RsTarget s') \<le> unat (ArgImageSize a) \<and>
     changes_only (unat (RsTarget s)) (unat (RsTarget s') - unat (RsTarget s)) (RsImage s) (RsImage s') \<and>
     unchained_opt (RsRuntime s) bs ds (RsRuntime s') \<and> RsPointer s' = RsPointer s \<and>
     length ds = 8 * length fs \<and> (ArgChaining a \<longrightarrow> ds = enc_data (RsImage s') fs)"

definition shifts ::
  "(reloc_args \<Rightarrow> ue_reloc_state \<Rightarrow> 'r result) \<Rightarrow> (ue_reloc_state \<Rightarrow> 'r) \<Rightarrow> reloc_args \<Rightarrow> ue_reloc_state \<Rightarrow> fixup list \<Rightarrow>
     ue_reloc_state \<Rightarrow> bool" where
  "shifts run mk a s fs s' \<longleftrightarrow>
     (\<forall>Img2 D d ok. above (unat (RsTarget s)) (RsImage s) Img2 \<longrightarrow>
        (\<exists>Img2' D'. run (other_args ok d a) (other_state Img2 D s) = Inr (mk (other_state Img2' D' s')) \<and>
           changes_only (unat (RsTarget s)) (unat (RsTarget s') - unat (RsTarget s)) Img2 Img2' \<and>
           shifted d (unat (RsTarget s)) fs (RsImage s') Img2'))"

definition room :: "nat \<Rightarrow> reloc_args \<Rightarrow> ue_reloc_state \<Rightarrow> bool" where
  "room k a s \<longleftrightarrow> rt_room (unat (ArgImageSize a) - unat (RsTarget s) + k)
     (2 * (unat (ArgImageSize a) - unat (RsTarget s))) (RsRuntime s)"

lemma room_mono: "room k a s \<Longrightarrow> k' \<le> k \<Longrightarrow> room k' a s"
  by (auto simp: room_def rt_room_def)

lemma room_chain: "room k a s \<Longrightarrow>
  rt_room (unat (ArgImageSize a) - unat (RsTarget s)) (2 * (unat (ArgImageSize a) - unat (RsTarget s))) (RsRuntime s)"
  by (auto simp: room_def rt_room_def)

lemma type_of_chain_head: "t = UeReloc32 \<or> t = UeReloc64 \<Longrightarrow> UE_RELOC_FIXUP_TYPE (push_bit 4 0x0FFF OR t) = t"
  by (auto simp: UE_RELOC_FIXUP_TYPE_def)

text \<open>The head \<open>h\<close> that is recorded last has the type of the last fixup.\<close>

definition head_post :: "reloc_args \<Rightarrow> u16 \<Rightarrow> ue_reloc_state \<Rightarrow> ue_reloc_state \<Rightarrow> head list \<Rightarrow> u16 \<Rightarrow> bool" where
  "head_post a i s s' xs h \<longleftrightarrow>
     (let t = UE_RELOC_FIXUP_TYPE h; r = unat (RsTarget s); fs = fixups r xs @ [(t, heads_next r xs)] in
      good_heads xs \<and> unat t \<le> 2 \<and> unat (RsTarget s') = heads_next r xs + fix_size t \<and>
      (\<exists>ds. relocates a s fs (enc_heads xs @ le_to_bytes 2 (unat h)) ds s') \<and>
      shifts (\<lambda>a. ProcessHead a i) (\<lambda>s. s) a s fs s')"

lemma ProcessHead_chain_wp:
  assumes "unat (ArgImageSize a) \<le> length (RsImage s)" "unat (ArgImageSize a) \<le> 4294963200" "room k a s"
    "ArgChaining a" "\<not> ArgIsRuntime a" "UE_RELOC_FIXUP_TYPE i \<noteq> UeReloc32NoMeta"
  shows "wp (ProcessHead a i s) (\<lambda>s'. \<exists>xs h. head_post a i s s' xs h)"
proof -
  let ?r = "RsTarget s" and ?t = "UE_RELOC_FIXUP_TYPE i"
  have run: "ProcessHead a' i s' = bindR (InternalProcessRelocChain (ArgAlloc a') (ArgImageSize a) (ArgAdjust a')
      (RsImage s') ?t (RsTarget s') (RsRuntime s')) (\<lambda>(Img, r, Rt). Inr (s'\<lparr>RsImage := Img, RsTarget := r, RsRuntime := Rt\<rparr>))"
    if "ArgImageSize a' = ArgImageSize a" "ArgChaining a'" "\<not> ArgIsRuntime a'" for a' s'
    using that assms(6) by (simp add: ProcessHead_def Let_def)
  have post: "head_post a i s (s\<lparr>RsImage := Img', RsTarget := r', RsRuntime := Rt'\<rparr>) xs (push_bit 4 0x0FFF OR t')"
    if p: "chain_post (ArgImageSize a) (ArgAdjust a) (RsImage s) ?t ?r (RsRuntime s) (Img', r', Rt') xs t'" for Img' r' Rt' xs t'
  proof -
    let ?s' = "s\<lparr>RsImage := Img', RsTarget := r', RsRuntime := Rt'\<rparr>"
    define fs where "fs = fixups (unat ?r) (xs @ [(t', 0x0FFF)])"
    have fs: "fs = fixups (unat ?r) xs @ [(t', heads_next (unat ?r) xs)]"
      by (simp add: fs_def fixups_append)
    note q = p [unfolded chain_post_def prod.case Let_def, folded fs_def]
    have "t' = UeReloc32 \<or> t' = UeReloc64"
      using q by blast
    then have t': "UE_RELOC_FIXUP_TYPE (push_bit 4 0x0FFF OR t') = t'" "unat t' \<le> 2"
      by (rule type_of_chain_head) (use \<open>t' = UeReloc32 \<or> t' = UeReloc64\<close> in auto)
    have "unat ?r \<le> unat r'"
      using q heads_next_ge [of "unat ?r" xs] by linarith
    moreover have "unat r' \<le> unat (ArgImageSize a)" "changes_only (unat ?r) (unat r' - unat ?r) (RsImage s) Img'"
      "unchained_opt (RsRuntime s) (enc_heads (xs @ [(t', 0x0FFF)])) (enc_data Img' fs) Rt'"
      using q by blast+
    ultimately have "relocates a s fs (enc_heads (xs @ [(t', 0x0FFF)])) (enc_data Img' fs) ?s'"
      by (simp add: relocates_def)
    moreover have "shifts (\<lambda>a. ProcessHead a i) (\<lambda>s. s) a s fs ?s'"
      unfolding shifts_def
    proof (intro allI impI)
      fix Img2 D d ok
      assume "above (unat ?r) (RsImage s) Img2"
      with q obtain Img2' where "InternalProcessRelocChain ok (ArgImageSize a) (ArgAdjust a + d) Img2 ?t ?r None = Inr (Img2', r', None)"
        "changes_only (unat ?r) (unat r' - unat ?r) Img2 Img2'" "shifted d (unat ?r) fs Img' Img2'"
        by blast
      then show "\<exists>Img2' D'. ProcessHead (other_args ok d a) i (other_state Img2 D s) = Inr (other_state Img2' D' ?s') \<and>
          changes_only (unat ?r) (unat (RsTarget ?s') - unat ?r) Img2 Img2' \<and> shifted d (unat ?r) fs (RsImage ?s') Img2'"
        using assms(4,5) by (intro exI [of _ Img2'] exI [of _ D], subst run) (cases s; simp)+
    qed
    ultimately show ?thesis
      using q t' by (auto simp: head_post_def Let_def fs enc_head_def)
  qed
  show ?thesis
    unfolding run [OF refl assms(4,5)]
  proof (rule wp_bindI [OF chain_wp [OF assms(1,2) room_chain [OF assms(3)]]])
    fix res
    assume "\<exists>xs t'. chain_post (ArgImageSize a) (ArgAdjust a) (RsImage s) ?t ?r (RsRuntime s) res xs t'"
    then obtain xs t' Img' r' Rt' where "chain_post (ArgImageSize a) (ArgAdjust a) (RsImage s) ?t ?r (RsRuntime s) (Img', r', Rt') xs t'"
      and res: "res = (Img', r', Rt')"
      by (metis prod_cases3)
    from post [OF this(1)] show "wp (case res of (Img, r, Rt) \<Rightarrow> Inr (s\<lparr>RsImage := Img, RsTarget := r, RsRuntime := Rt\<rparr>))
        (\<lambda>s'. \<exists>xs h. head_post a i s s' xs h)"
      by (simp only: res prod.case wp_simps) (intro exI)
  qed
qed

lemma ProcessHead_apply_wp:
  assumes "unat (ArgImageSize a) \<le> length (RsImage s)" "room k a s"
    "\<not> ArgIsRuntime a" "ArgChaining a \<longrightarrow> UE_RELOC_FIXUP_TYPE i = UeReloc32NoMeta"
  shows "wp (ProcessHead a i s) (\<lambda>s'. head_post a i s s' [] i)"
proof -
  let ?r = "RsTarget s" and ?t = "UE_RELOC_FIXUP_TYPE i" and ?sz = "ArgImageSize a"
  have run: "ProcessHead a' i s' =
      bindR (InternalApplyRelocationUe (ArgCfg a) (RsImage s') ?sz ?t (RsTarget s') (ArgAdjust a')
               (ReadUnaligned64 (runtime_data (RsRuntime s')) (8 * RsPointer s')) (RsData s') False) (\<lambda>(Img, r, D).
      bindR (UnchainReloc (ArgAlloc a') (RsRuntime s') (Some (le_to_bytes 2 (unat i))) False 0 (Some D)) (\<lambda>Rt.
      Inr (s'\<lparr>RsImage := Img, RsTarget := r, RsRuntime := Rt, RsData := D\<rparr>)))"
    if "ArgCfg a' = ArgCfg a" "ArgImageSize a' = ?sz" "ArgChaining a' = ArgChaining a" "\<not> ArgIsRuntime a'" for a' s'
    using that assms(4) by (cases s') (auto simp: ProcessHead_def Let_def)
  show ?thesis
  proof (cases "apply_ok ?sz ?t ?r")
    case False
    from InternalApplyRelocationUe_fail [OF this, of "ArgCfg a" "RsImage s" "ArgAdjust a"
        "ReadUnaligned64 (runtime_data (RsRuntime s)) (8 * RsPointer s)" "RsData s" False]
    show ?thesis
      using assms(3) by (subst run) auto
  next
    case True
    let ?n = "fix_size ?t" and ?r' = "?r + word_of_nat (fix_size ?t)"
    note t = apply_okD [OF True]
    obtain Img' where L: "InternalApplyRelocationUe (ArgCfg a) (RsImage s) ?sz ?t ?r (ArgAdjust a)
        (ReadUnaligned64 (runtime_data (RsRuntime s)) (8 * RsPointer s)) (RsData s) False =
        Inr (Img', ?r', if ?t = UeReloc32NoMeta then fix_value Img' (?t, unat ?r) else RsData s) \<and>
      changes_only (unat ?r) ?n (RsImage s) Img' \<and>
      (if ?t = UeReloc64 then (get_word 8 Img' (unat ?r) :: u64) = get_word 8 (RsImage s) (unat ?r) + ArgAdjust a
        else (get_word 4 Img' (unat ?r) :: u32) = get_word 4 (RsImage s) (unat ?r) + ucast (ArgAdjust a))"
      using InternalApplyRelocationUe_load [OF True assms(1), of "ArgCfg a" "ArgAdjust a"
          "ReadUnaligned64 (runtime_data (RsRuntime s)) (8 * RsPointer s)" "RsData s"] by (elim exE)
    define D' where "D' = (if ?t = UeReloc32NoMeta then fix_value Img' (?t, unat ?r) else RsData s)"
    have run1: "InternalApplyRelocationUe (ArgCfg a) (RsImage s) ?sz ?t ?r (ArgAdjust a)
        (ReadUnaligned64 (runtime_data (RsRuntime s)) (8 * RsPointer s)) (RsData s) False = Inr (Img', ?r', D')"
      and D': "?t = UeReloc32NoMeta \<Longrightarrow> D' = fix_value Img' (?t, unat ?r)"
      and ch: "changes_only (unat ?r) ?n (RsImage s) Img'"
      and val: "if ?t = UeReloc64 then (get_word 8 Img' (unat ?r) :: u64) = get_word 8 (RsImage s) (unat ?r) + ArgAdjust a
        else (get_word 4 Img' (unat ?r) :: u32) = get_word 4 (RsImage s) (unat ?r) + ucast (ArgAdjust a)"
      using L by (simp_all add: D'_def)
    have rm: "rt_room (length (le_to_bytes 2 (unat i))) 8 (RsRuntime s)"
      using assms(2) True fix_size_bounds(1) [of ?t] by (auto simp: room_def rt_room_def apply_ok_def)
    have sh: "shifts (\<lambda>a. ProcessHead a i) (\<lambda>s. s) a s [(?t, unat ?r)] (s\<lparr>RsImage := Img', RsTarget := ?r', RsRuntime := Rt, RsData := D'\<rparr>)" for Rt
      unfolding shifts_def
    proof (intro allI impI)
      fix Img2 D d ok
      assume ab: "above (unat ?r) (RsImage s) Img2"
      then have "unat ?sz \<le> length Img2"
        using assms(1) by (simp add: above_def)
      from InternalApplyRelocationUe_load [OF True this, of "ArgCfg a" "ArgAdjust a + d" "ReadUnaligned64 [] (8 * RsPointer s)" D]
      obtain Img3 where run2: "InternalApplyRelocationUe (ArgCfg a) Img2 ?sz ?t ?r (ArgAdjust a + d)
          (ReadUnaligned64 [] (8 * RsPointer s)) D False =
          Inr (Img3, ?r', if ?t = UeReloc32NoMeta then fix_value Img3 (?t, unat ?r) else D)"
        and ch2: "changes_only (unat ?r) ?n Img2 Img3"
        and val2: "if ?t = UeReloc64 then (get_word 8 Img3 (unat ?r) :: u64) = get_word 8 (RsImage s) (unat ?r) + (ArgAdjust a + d)
          else (get_word 4 Img3 (unat ?r) :: u32) = get_word 4 (RsImage s) (unat ?r) + ucast (ArgAdjust a + d)"
        unfolding get_word_above [OF ab order_refl] by (elim exE conjE)
      have "shift_at d (?t, unat ?r) Img' Img3"
        using val val2 by (auto simp: shift_at_def ucast_add_down add.assoc split: if_splits)
      with run2 ch2 show "\<exists>Img2' D''. ProcessHead (other_args ok d a) i (other_state Img2 D s) =
          Inr (other_state Img2' D'' (s\<lparr>RsImage := Img', RsTarget := ?r', RsRuntime := Rt, RsData := D'\<rparr>)) \<and>
        changes_only (unat ?r) (unat (RsTarget (s\<lparr>RsImage := Img', RsTarget := ?r', RsRuntime := Rt, RsData := D'\<rparr>)) - unat ?r) Img2 Img2' \<and>
        shifted d (unat ?r) [(?t, unat ?r)] (RsImage (s\<lparr>RsImage := Img', RsTarget := ?r', RsRuntime := Rt, RsData := D'\<rparr>)) Img2'"
        using assms(3) t(4)
        by (intro exI [of _ Img3] exI [of _ "if ?t = UeReloc32NoMeta then fix_value Img3 (?t, unat ?r) else D"], subst run)
          (cases s; simp add: runtime_data_def same_range_def)+
    qed
    have "wp (UnchainReloc (ArgAlloc a) (RsRuntime s) (Some (le_to_bytes 2 (unat i))) False 0 (Some D'))
        (\<lambda>Rt. head_post a i s (s\<lparr>RsImage := Img', RsTarget := ?r', RsRuntime := Rt, RsData := D'\<rparr>) [] i)"
    proof (rule wp_mono [OF UnchainReloc_append_wp])
      show "rt_room (length (le_to_bytes 2 (unat i))) (if Some D' = None then 0 else 8) (RsRuntime s)"
        using rm by simp
      fix Rt
      assume "unchained_opt (RsRuntime s) (le_to_bytes 2 (unat i)) (case Some D' of None \<Rightarrow> [] | Some v \<Rightarrow> le_to_bytes 8 (unat v)) Rt"
      then have "relocates a s [(?t, unat ?r)] (le_to_bytes 2 (unat i)) (le_to_bytes 8 (unat D'))
          (s\<lparr>RsImage := Img', RsTarget := ?r', RsRuntime := Rt, RsData := D'\<rparr>)"
        using True t(4) ch D' assms(4) by (auto simp: relocates_def apply_ok_def)
      with sh [of Rt] True t(4) show "head_post a i s (s\<lparr>RsImage := Img', RsTarget := ?r', RsRuntime := Rt, RsData := D'\<rparr>) [] i"
        by (auto simp: head_post_def apply_ok_def Let_def)
    qed
    then show ?thesis
      using assms(3) run1 by (subst run) auto
  qed
qed


section \<open>Sequences of heads and roots\<close>

definition fs_within :: "nat \<Rightarrow> fixup list \<Rightarrow> bool" where
  "fs_within e fs \<longleftrightarrow> list_all (\<lambda>f. snd f + fix_size (fst f) \<le> e) fs"

lemma fs_within_mono: "fs_within e fs \<Longrightarrow> e \<le> e' \<Longrightarrow> fs_within e' fs"
  by (auto simp: fs_within_def list_all_iff)

lemma fixups_within: "fs_within (heads_next r xs) (fixups r xs)"
proof (induction r xs rule: fixups.induct)
  case (2 r t n hs)
  then show ?case
    using heads_next_ge [of "r + fix_size t + unat n" hs] by (simp add: fs_within_def)
qed (simp add: fs_within_def)

lemma enc_data_below: "below e A B \<Longrightarrow> fs_within e fs \<Longrightarrow> enc_data B fs = enc_data A fs"
  by (induction fs) (auto simp: fs_within_def fix_value_below)

text \<open>The state after a fixup, with the next target and the recorded header completed.\<close>

abbreviation next_state :: "u32 \<Rightarrow> ue_runtime option \<Rightarrow> ue_reloc_state \<Rightarrow> ue_reloc_state" where
  "next_state q Rt s \<equiv> s\<lparr>RsRuntime := Rt, RsTarget := q\<rparr>"

lemma relocates_step:
  assumes "relocates a s fs1 bs1 ds1 s1" "unchained_opt (RsRuntime s) bs ds1 Rt"
    "unat (RsTarget s1) \<le> unat q" "fs_within (unat (RsTarget s1)) fs1"
    "relocates a (next_state q Rt s1) fs2 bs2 ds2 s2"
  shows "relocates a s (fs1 @ fs2) (bs @ bs2) (ds1 @ ds2) s2"
proof -
  let ?r = "unat (RsTarget s)" and ?p = "unat (RsTarget s1)" and ?e = "unat (RsTarget s2)"
  have ch: "changes_only ?r (?p - ?r) (RsImage s) (RsImage s1)" "changes_only (unat q) (?e - unat q) (RsImage s1) (RsImage s2)"
    and le: "?r \<le> ?p" "unat q \<le> ?e"
    using assms(1,5) by (simp_all add: relocates_def)
  have "enc_data (RsImage s2) fs1 = enc_data (RsImage s1) fs1"
    using changes_only_below_above(1) [OF ch(2)] fs_within_mono [OF assms(4,3)] by (rule enc_data_below)
  moreover have "changes_only ?r (?e - ?r) (RsImage s) (RsImage s2)"
    by (rule changes_only_chain [OF ch]) (use le assms(3) in simp_all)
  moreover have "unchained_opt (RsRuntime s) (bs @ bs2) (ds1 @ ds2) (RsRuntime s2)"
    by (rule unchained_opt_trans [OF assms(2)]) (use assms(5) in \<open>simp add: relocates_def\<close>)
  ultimately show ?thesis
    using assms le by (auto simp: relocates_def)
qed

definition starts_at :: "nat \<Rightarrow> fixup list \<Rightarrow> bool" where
  "starts_at q fs \<longleftrightarrow> (\<exists>t gs. fs = (t, q) # gs)"

lemma shifted_step:
  assumes "shifted d r fs1 A1 B1" "below q A1 A2" "below q B1 B2" "fixups_end r fs1 = p" "p \<le> q"
    "above p A1 B1" "shifted d q fs2 A2 B2" "q = p \<or> starts_at q fs2"
  shows "shifted d r (fs1 @ fs2) A2 B2"
proof -
  have "shifted d r fs1 A2 B2"
    using shifted_below [OF assms(1-3)] assms(4,5) by simp
  moreover have "same_range p q A2 B2"
    by (rule same_range_below [OF _ assms(2,3) order_refl]) (use assms(6) in \<open>auto simp: same_range_def above_def\<close>)
  then have "shifted d p fs2 A2 B2"
    using assms(5,7,8) by (auto simp: starts_at_def)
  ultimately show ?thesis
    by (simp add: shifted_append assms(4))
qed

lemma shifts_step:
  assumes rel1: "relocates a s fs1 bs1 ds1 s1" and sh1: "shifts run1 mk1 a s fs1 s1"
    and fs1: "fixups_end (unat (RsTarget s)) fs1 = unat (RsTarget s1)" and q: "unat (RsTarget s1) \<le> unat q"
    and rel2: "relocates a (next_state q Rt s1) fs2 bs2 ds2 s2" and sh2: "shifts run2 mk a (next_state q Rt s1) fs2 s2"
    and fs2: "unat q = unat (RsTarget s1) \<or> starts_at (unat q) fs2"
    and run: "\<And>ok d Img D Img' D'. run1 (other_args ok d a) (other_state Img D s) = Inr (mk1 (other_state Img' D' s1)) \<Longrightarrow>
      run (other_args ok d a) (other_state Img D s) = run2 (other_args ok d a) (other_state Img' D' (next_state q Rt s1))"
  shows "shifts run mk a s (fs1 @ fs2) s2"
  unfolding shifts_def
proof (intro allI impI)
  fix Img2 D d ok
  let ?r = "unat (RsTarget s)" and ?p = "unat (RsTarget s1)" and ?e = "unat (RsTarget s2)"
  assume ab: "above ?r (RsImage s) Img2"
  have ch: "changes_only ?r (?p - ?r) (RsImage s) (RsImage s1)" "changes_only (unat q) (?e - unat q) (RsImage s1) (RsImage s2)"
    and le: "?r \<le> ?p" "unat q \<le> ?e"
    using rel1 rel2 by (simp_all add: relocates_def)
  obtain Img3 D3 where one: "run1 (other_args ok d a) (other_state Img2 D s) = Inr (mk1 (other_state Img3 D3 s1))"
    "changes_only ?r (?p - ?r) Img2 Img3" "shifted d ?r fs1 (RsImage s1) Img3"
    using sh1 ab unfolding shifts_def by blast
  have ab1: "above ?p (RsImage s1) Img3"
    using above_mono [OF ab le(1)] changes_only_below_above(2) [OF ch(1)] changes_only_below_above(2) [OF one(2)] le(1)
    by (auto simp: above_def)
  then have "above (unat (RsTarget (next_state q Rt s1))) (RsImage (next_state q Rt s1)) Img3"
    using q by (auto intro: above_mono)
  then obtain Img4 D4 where two: "run2 (other_args ok d a) (other_state Img3 D3 (next_state q Rt s1)) = Inr (mk (other_state Img4 D4 s2))"
    "changes_only (unat q) (?e - unat q) Img3 Img4" "shifted d (unat q) fs2 (RsImage s2) Img4"
    using sh2 [unfolded shifts_def, rule_format, of Img3 d ok D3] by auto
  have "shifted d ?r (fs1 @ fs2) (RsImage s2) Img4"
    by (rule shifted_step [OF one(3) changes_only_below_above(1) [OF ch(2)] changes_only_below_above(1) [OF two(2)]
          fs1 q ab1 two(3) fs2])
  moreover have "changes_only ?r (?e - ?r) Img2 Img4"
    by (rule changes_only_chain [OF one(2) two(2)]) (use le q in simp_all)
  ultimately show "\<exists>Img2' D'. run (other_args ok d a) (other_state Img2 D s) = Inr (mk (other_state Img2' D' s2)) \<and>
      changes_only ?r (?e - ?r) Img2 Img2' \<and> shifted d ?r (fs1 @ fs2) (RsImage s2) Img2'"
    using run [OF one(1)] two(1) by auto
qed

lemma room_step:
  assumes "room (k + j) a s" "relocates a s fs bs ds s1" "unchained_opt (RsRuntime s) bs' ds Rt"
    "length bs' \<le> unat (RsTarget s1) - unat (RsTarget s) + j" "4 * length fs \<le> unat (RsTarget s1) - unat (RsTarget s)"
    "unat (RsTarget s1) \<le> unat q"
  shows "room k a (next_state q Rt s1)"
  unfolding room_def
  by (rule rt_room_recorded [OF assms(1) [unfolded room_def]]) (use assms in \<open>auto simp: relocates_def\<close>)


definition rt_len :: "ue_runtime option \<Rightarrow> nat" where
  "rt_len Rt = (case Rt of None \<Rightarrow> 0 | Some R \<Rightarrow> length (UnchainedRelocs R))"

definition close_pad :: "u16 \<Rightarrow> nat \<Rightarrow> u8 list" where
  "close_pad n m = (if n = UE_HEAD_FIXUP_OFFSET_END then pad4 m else [])"

lemma close_recorded:
  assumes "unchained_opt Rt (bs @ le_to_bytes 2 (unat h)) ds Rt1" "rt_room 4 0 Rt1"
  shows "wp (UnchainReloc ok Rt1 None False n None)
    (unchained_opt Rt (bs @ enc_head (UE_RELOC_FIXUP_TYPE h, n) @ close_pad n (rt_len Rt + length bs + 2)) ds)"
proof (cases Rt)
  case (Some R)
  then obtain R1 where R1: "Rt1 = Some R1" "unchained_as R (bs @ le_to_bytes 2 (unat h)) ds R1"
    using assms(1) by (auto simp: unchained_opt_def)
  then have "wp (CloseUnchained ok n R1) (\<lambda>R'. rt_sizes R' \<and> RtMachine R' = RtMachine R1 \<and> FixupData R' = FixupData R1 \<and>
      UnchainedRelocs R' = (UnchainedRelocs R @ bs) @ le_to_bytes 2 (unat (push_bit 4 n OR UE_RELOC_FIXUP_TYPE h)) @
        (if n = UE_HEAD_FIXUP_OFFSET_END then pad4 (length (UnchainedRelocs R @ bs) + 2) else []))"
    using assms(2) by (intro CloseUnchained_wp) (auto simp: unchained_as_def rt_room_def)
  then show ?thesis
    using R1 by (auto simp: UnchainReloc_def Some unchained_opt_def unchained_as_def enc_head_def rt_len_def close_pad_def
        elim!: wp_mono)
qed (use assms in \<open>simp add: UnchainReloc_def\<close>)

lemma fixup_offset_bound:
  "unat (UE_RELOC_FIXUP_OFFSET i) \<le> 4095"
  "UE_RELOC_FIXUP_OFFSET i \<noteq> UE_HEAD_FIXUP_OFFSET_END \<Longrightarrow> unat (UE_RELOC_FIXUP_OFFSET i) < 4095"
proof -
  have "unat (UE_RELOC_FIXUP_OFFSET i) = unat i div 2 ^ 4"
    unfolding UE_RELOC_FIXUP_OFFSET_def by (simp only: unat_drop_bit_eq) (simp only: drop_bit_eq_div)
  then show le: "unat (UE_RELOC_FIXUP_OFFSET i) \<le> 4095"
    using u16_less [of i] by simp
  show "unat (UE_RELOC_FIXUP_OFFSET i) < 4095" if "UE_RELOC_FIXUP_OFFSET i \<noteq> 0x0FFF"
    using le that by (simp add: word_unat_eq_iff)
qed

lemma ProcessHeads_unfold:
  assumes "\<not> ArgIsRuntime a" "unat t + 2 \<le> length (ArgTable a (RsImage s))"
    "i = get_word 2 (ArgTable a (RsImage s)) (unat t)" "n = UE_RELOC_FIXUP_OFFSET i"
  shows "ProcessHeads (Suc f) a t s = bindR (ProcessHead a i s) (\<lambda>s1.
     bindR (UnchainReloc (ArgAlloc a) (RsRuntime s1) None False n None) (\<lambda>Rt.
     if n = UE_HEAD_FIXUP_OFFSET_END then Inr (t + 2, s1\<lparr>RsRuntime := Rt\<rparr>)
     else assertR (ucast n \<le> RsTarget s1 + ucast n)
       (if t + 2 > ArgTableSize a - 2 then fail RETURN_VOLUME_CORRUPTED
        else ProcessHeads f a (t + 2) (next_state (RsTarget s1 + ucast n) Rt s1))))"
  using assms by (simp add: readU16_def read_word_def Let_def cong: if_cong)

definition fixed_table :: "reloc_args \<Rightarrow> bool" where
  "fixed_table a \<longleftrightarrow> (\<exists>tb. ArgTable a = (\<lambda>_. tb))"

definition heads_post :: "nat \<Rightarrow> reloc_args \<Rightarrow> u32 \<Rightarrow> ue_reloc_state \<Rightarrow> u32 \<Rightarrow> ue_reloc_state \<Rightarrow> head list \<Rightarrow> u16 \<Rightarrow> bool" where
  "heads_post f a t s t' s' xs ty \<longleftrightarrow>
     (let r = unat (RsTarget s); fs = fixups r xs @ [(ty, heads_next r xs)] in
      good_heads xs \<and> unat ty \<le> 2 \<and> unat (RsTarget s') = heads_next r xs + fix_size ty \<and>
      unat t + 2 \<le> unat t' \<and> unat t' \<le> unat (ArgTableSize a) \<and>
      (\<exists>ds. relocates a s fs (enc_heads (xs @ [(ty, 0x0FFF)]) @ pad4 (rt_len (RsRuntime s) + 2 * length xs + 2)) ds s') \<and>
      (fixed_table a \<longrightarrow> shifts (\<lambda>a. ProcessHeads f a t) (Pair t') a s fs s'))"

text \<open>The table can be read in every image of the same size.\<close>

definition table_ok :: "reloc_args \<Rightarrow> ue_reloc_state \<Rightarrow> bool" where
  "table_ok a s \<longleftrightarrow>
     (\<forall>Img. length Img = length (RsImage s) \<longrightarrow> unat (ArgTableSize a) \<le> length (ArgTable a Img)) \<and>
     unat (ArgImageSize a) \<le> length (RsImage s) \<and> unat (ArgImageSize a) \<le> 4294963200 \<and> \<not> ArgIsRuntime a"

lemma table_ok_relocates: "table_ok a s \<Longrightarrow> relocates a s fs bs ds s' \<Longrightarrow> table_ok a s'"
  by (auto simp: table_ok_def relocates_def dest: changes_only_length)

lemma relocates_rec:
  "relocates a s fs bs ds s' \<Longrightarrow> unchained_opt (RsRuntime s) bs' ds Rt \<Longrightarrow> relocates a s fs bs' ds (s'\<lparr>RsRuntime := Rt\<rparr>)"
  by (simp add: relocates_def)

lemma heads_post_end:
  assumes head: "head_post a i s s1 xs h" and ok: "table_ok a s" "unat t + 2 \<le> unat (ArgTableSize a)"
    and i: "i = get_word 2 (ArgTable a (RsImage s)) (unat t)" "UE_RELOC_FIXUP_OFFSET i = UE_HEAD_FIXUP_OFFSET_END"
    and rel: "relocates a s (fixups (unat (RsTarget s)) xs @ [(UE_RELOC_FIXUP_TYPE h, heads_next (unat (RsTarget s)) xs)])
      (enc_heads xs @ le_to_bytes 2 (unat h)) ds s1"
    and rec: "unchained_opt (RsRuntime s) (enc_heads xs @ enc_head (UE_RELOC_FIXUP_TYPE h, 0x0FFF) @
      pad4 (rt_len (RsRuntime s) + length (enc_heads xs) + 2)) ds Rt"
  shows "heads_post (Suc f) a t s (t + 2) (s1\<lparr>RsRuntime := Rt\<rparr>) xs (UE_RELOC_FIXUP_TYPE h)"
proof -
  let ?fs = "fixups (unat (RsTarget s)) xs @ [(UE_RELOC_FIXUP_TYPE h, heads_next (unat (RsTarget s)) xs)]"
  have t2: "unat (t + 2) = unat t + 2"
    using ok(2) u32_less [of "ArgTableSize a"] by (simp add: unat_add_u32)
  have "shifts (\<lambda>a. ProcessHeads (Suc f) a t) (Pair (t + 2)) a s ?fs (s1\<lparr>RsRuntime := Rt\<rparr>)" if "fixed_table a"
  proof -
    have "ProcessHeads (Suc f) (other_args ok' d a) t (other_state Img D s) = Inr (t + 2, other_state Img' D' s1)"
      if "ProcessHead (other_args ok' d a) i (other_state Img D s) = Inr (other_state Img' D' s1)" for ok' d Img D Img' D'
      using that \<open>fixed_table a\<close> ok i
      by (subst ProcessHeads_unfold [OF _ _ refl refl]) (auto simp: fixed_table_def table_ok_def)
    moreover have "shifts (\<lambda>a. ProcessHead a i) (\<lambda>s. s) a s ?fs s1"
      using head by (simp add: head_post_def Let_def)
    ultimately show ?thesis
      unfolding shifts_def by simp blast
  qed
  with relocates_rec [OF rel rec] head t2 ok(2) show ?thesis
    by (auto simp: heads_post_def head_post_def Let_def)
qed


lemma relocates_None: "relocates a s fs bs ds s' \<Longrightarrow> RsRuntime s = None \<Longrightarrow> relocates a s fs bs' ds s'"
  by (simp add: relocates_def)

lemma rt_len_recorded: "unchained_opt Rt bs ds Rt' \<Longrightarrow> Rt \<noteq> None \<Longrightarrow> rt_len Rt' = rt_len Rt + length bs"
  by (auto simp: unchained_opt_def unchained_as_def rt_len_def)

lemma head_fixups_within:
  "fs_within (heads_next r xs + fix_size ty) (fixups r xs @ [(ty, heads_next r xs)])"
  using fs_within_mono [OF fixups_within, of r xs "heads_next r xs + fix_size ty"] by (simp add: fs_within_def)

lemma starts_at_heads: "starts_at r (fixups r xs @ [(ty, heads_next r xs)])"
  by (cases xs) (auto simp: starts_at_def)

lemma heads_post_cons:
  assumes head: "head_post a i s s1 xs h" and ok: "table_ok a s" "unat t + 2 \<le> unat (ArgTableSize a)"
    and i: "i = get_word 2 (ArgTable a (RsImage s)) (unat t)"
    and n: "n = UE_RELOC_FIXUP_OFFSET i" "n \<noteq> UE_HEAD_FIXUP_OFFSET_END"
    and rel: "relocates a s (fixups (unat (RsTarget s)) xs @ [(UE_RELOC_FIXUP_TYPE h, heads_next (unat (RsTarget s)) xs)])
      (enc_heads xs @ le_to_bytes 2 (unat h)) ds s1"
    and rec: "unchained_opt (RsRuntime s) (enc_heads xs @ enc_head (UE_RELOC_FIXUP_TYPE h, n)) ds Rt"
    and t: "\<not> t + 2 > ArgTableSize a - 2"
    and q: "q = RsTarget s1 + ucast n" "unat q = unat (RsTarget s1) + unat n" "ucast n \<le> q"
    and rest: "heads_post f a (t + 2) (next_state q Rt s1) t' s2 ys ty"
  shows "heads_post (Suc f) a t s t' s2 (xs @ (UE_RELOC_FIXUP_TYPE h, n) # ys) ty"
proof -
  let ?h = "UE_RELOC_FIXUP_TYPE h" and ?r = "unat (RsTarget s)"
  let ?fs1 = "fixups ?r xs @ [(?h, heads_next ?r xs)]"
  let ?fs2 = "fixups (unat q) ys @ [(ty, heads_next (unat q) ys)]"
  have t2: "unat (t + 2) = unat t + 2"
    using ok(2) u32_less [of "ArgTableSize a"] by (simp add: unat_add_u32)
  have r1: "unat (RsTarget s1) = heads_next ?r xs + fix_size ?h" "good_heads xs" "unat ?h \<le> 2"
    and sh1: "shifts (\<lambda>a. ProcessHead a i) (\<lambda>s. s) a s ?fs1 s1"
    using head by (simp_all add: head_post_def Let_def)
  have nx: "heads_next ?r (xs @ (?h, n) # ys) = heads_next (unat q) ys"
    by (simp add: q(2) r1(1))
  have fs: "fixups ?r (xs @ (?h, n) # ys) @ [(ty, heads_next (unat q) ys)] = ?fs1 @ ?fs2"
    by (simp add: fixups_append q(2) r1(1))
  obtain ds2 where rel2: "relocates a (next_state q Rt s1) ?fs2
      (enc_heads (ys @ [(ty, 0x0FFF)]) @ pad4 (rt_len Rt + 2 * length ys + 2)) ds2 s2"
    using rest by (auto simp: heads_post_def Let_def)
  have le: "unat (RsTarget s1) \<le> unat q"
    by (simp add: q(2))
  have "relocates a s (?fs1 @ ?fs2) ((enc_heads xs @ enc_head (?h, n)) @
      enc_heads (ys @ [(ty, 0x0FFF)]) @ pad4 (rt_len Rt + 2 * length ys + 2)) (ds @ ds2) s2"
    using relocates_step [OF rel rec le _ rel2] head_fixups_within [of ?r xs ?h] by (simp add: r1(1))
  then have rel': "relocates a s (?fs1 @ ?fs2) (enc_heads ((xs @ (?h, n) # ys) @ [(ty, 0x0FFF)]) @
      pad4 (rt_len (RsRuntime s) + 2 * length (xs @ (?h, n) # ys) + 2)) (ds @ ds2) s2"
    using rt_len_recorded [OF rec] relocates_None [of a s "?fs1 @ ?fs2"]
    by (cases "RsRuntime s") (auto simp: algebra_simps)
  have sh: "shifts (\<lambda>a. ProcessHeads (Suc f) a t) (Pair t') a s (?fs1 @ ?fs2) s2" if fx: "fixed_table a"
  proof (rule shifts_step [OF rel sh1 _ le rel2 _ disjI2 [OF starts_at_heads]])
    show "shifts (\<lambda>a. ProcessHeads f a (t + 2)) (Pair t') a (next_state q Rt s1) ?fs2 s2"
      using rest fx by (simp add: heads_post_def Let_def)
    show "fixups_end ?r ?fs1 = unat (RsTarget s1)"
      by (simp add: fixups_end_def r1(1))
    fix ok' d Img D Img' D'
    assume "ProcessHead (other_args ok' d a) i (other_state Img D s) = Inr (other_state Img' D' s1)"
    moreover have eq: "other_state Img' D' (next_state q Rt s1) = next_state q None (other_state Img' D' s1)"
      by (cases s1) simp
    ultimately show "ProcessHeads (Suc f) (other_args ok' d a) t (other_state Img D s) =
        ProcessHeads f (other_args ok' d a) (t + 2) (other_state Img' D' (next_state q Rt s1))"
      unfolding eq using fx ok i n t q by (subst ProcessHeads_unfold [OF _ _ refl refl]) (auto simp: fixed_table_def table_ok_def)
  qed
  have "good_heads ys" "unat ty \<le> 2" "unat (RsTarget s2) = heads_next (unat q) ys + fix_size ty"
    "unat (t + 2) + 2 \<le> unat t'" "unat t' \<le> unat (ArgTableSize a)"
    using rest by (simp_all add: heads_post_def Let_def)
  then show ?thesis
    unfolding heads_post_def Let_def nx fs
    by (intro conjI impI exI [of _ "ds @ ds2"] rel' sh) (use r1 t2 n fixup_offset_bound(2) [of i] in simp_all)
qed

lemma ProcessHead_wp:
  assumes "table_ok a s" "room k a s"
  shows "wp (ProcessHead a i s) (\<lambda>s'. \<exists>xs h. head_post a i s s' xs h)"
proof (cases "ArgChaining a \<and> UE_RELOC_FIXUP_TYPE i \<noteq> UeReloc32NoMeta")
  case True
  then show ?thesis
    using assms by (intro ProcessHead_chain_wp) (auto simp: table_ok_def)
next
  case False
  then have "wp (ProcessHead a i s) (\<lambda>s'. head_post a i s s' [] i)"
    using assms by (intro ProcessHead_apply_wp) (auto simp: table_ok_def)
  then show ?thesis
    by (rule wp_mono) blast
qed

lemma heads_step_wp:
  assumes ok: "table_ok a s" "room 4 a s" "unat t + 2 \<le> unat (ArgTableSize a)"
    and i: "i = get_word 2 (ArgTable a (RsImage s)) (unat t)"
    and n: "n = UE_RELOC_FIXUP_OFFSET i" and head: "head_post a i s s1 xs h"
    and rest: "\<And>q Rt. table_ok a (next_state q Rt s1) \<Longrightarrow> room 4 a (next_state q Rt s1) \<Longrightarrow>
      unat t + 4 \<le> unat (ArgTableSize a) \<Longrightarrow>
      wp (ProcessHeads f a (t + 2) (next_state q Rt s1)) (\<lambda>(t', s'). \<exists>xs ty. heads_post f a (t + 2) (next_state q Rt s1) t' s' xs ty)"
  shows "wp (bindR (UnchainReloc (ArgAlloc a) (RsRuntime s1) None False n None) (\<lambda>Rt.
     if n = UE_HEAD_FIXUP_OFFSET_END then Inr (t + 2, s1\<lparr>RsRuntime := Rt\<rparr>)
     else assertR (ucast n \<le> RsTarget s1 + ucast n)
       (if t + 2 > ArgTableSize a - 2 then fail RETURN_VOLUME_CORRUPTED
        else ProcessHeads f a (t + 2) (next_state (RsTarget s1 + ucast n) Rt s1))))
     (\<lambda>(t', s'). \<exists>xs ty. heads_post (Suc f) a t s t' s' xs ty)"
proof -
  let ?h = "UE_RELOC_FIXUP_TYPE h" and ?r = "unat (RsTarget s)" and ?q = "RsTarget s1 + ucast n"
  let ?fs1 = "fixups ?r xs @ [(?h, heads_next ?r xs)]"
  obtain ds where rel: "relocates a s ?fs1 (enc_heads xs @ le_to_bytes 2 (unat h)) ds s1"
    using head by (auto simp: head_post_def Let_def)
  have r1: "unat (RsTarget s1) = heads_next ?r xs + fix_size ?h" "unat (RsTarget s1) \<le> 4294963200"
    "?r + 4 * length ?fs1 \<le> unat (RsTarget s1)"
    using head rel ok(1) heads_next_ge [of ?r xs] fix_size_bounds(1) [of ?h]
    by (auto simp: head_post_def Let_def relocates_def table_ok_def)
  have q: "unat ?q = unat (RsTarget s1) + unat n" "ucast n \<le> ?q"
    using offset_step [OF r1(2), of n] fixup_offset_bound(1) [of i] by (simp_all add: n)
  have len: "length ds = 8 * (length xs + 1)" "unat (RsTarget s1) \<le> unat (ArgImageSize a)"
    and rec1: "unchained_opt (RsRuntime s) (enc_heads xs @ le_to_bytes 2 (unat h)) ds (RsRuntime s1)"
    using rel by (simp_all add: relocates_def)
  have rm: "rt_room 4 0 (RsRuntime s1)"
    by (rule rt_room_recorded [OF ok(2) [unfolded room_def] rec1]) (use len r1(3) in simp_all)
  have "wp (if n = UE_HEAD_FIXUP_OFFSET_END then Inr (t + 2, s1\<lparr>RsRuntime := Rt\<rparr>)
     else assertR (ucast n \<le> ?q)
       (if t + 2 > ArgTableSize a - 2 then fail RETURN_VOLUME_CORRUPTED
        else ProcessHeads f a (t + 2) (next_state ?q Rt s1)))
     (\<lambda>(t', s'). \<exists>xs ty. heads_post (Suc f) a t s t' s' xs ty)"
    if rec: "unchained_opt (RsRuntime s) (enc_heads xs @ enc_head (?h, n) @
      close_pad n (rt_len (RsRuntime s) + length (enc_heads xs) + 2)) ds Rt" for Rt
  proof (cases "n = UE_HEAD_FIXUP_OFFSET_END")
    case True
    have "heads_post (Suc f) a t s (t + 2) (s1\<lparr>RsRuntime := Rt\<rparr>) xs ?h"
      by (rule heads_post_end [OF head ok(1,3) i _ rel]) (use True rec n in \<open>simp_all add: close_pad_def\<close>)
    then show ?thesis
      using True by auto
  next
    case False
    then have rec': "unchained_opt (RsRuntime s) (enc_heads xs @ enc_head (?h, n)) ds Rt"
      using rec by (simp add: close_pad_def)
    have le: "unat (RsTarget s1) \<le> unat ?q"
      by (simp add: q)
    have "table_ok a (next_state ?q Rt s1)"
      using table_ok_relocates [OF ok(1) rel] by (simp add: table_ok_def)
    moreover have "room 4 a (next_state ?q Rt s1)"
      by (rule room_step [of 4 0, OF _ rel rec' _ _ le]) (use ok(2) r1(3) in simp_all)
    moreover have "unat t + 4 \<le> unat (ArgTableSize a)" if "\<not> t + 2 > ArgTableSize a - 2"
      using that ok(3) u32_less [of "ArgTableSize a"] by (simp add: not_less word_le_nat_alt unat_add_u32 unat_sub)
    ultimately have "wp (ProcessHeads f a (t + 2) (next_state ?q Rt s1)) (\<lambda>(t', s'). \<exists>xs ty. heads_post (Suc f) a t s t' s' xs ty)"
      if tt: "\<not> t + 2 > ArgTableSize a - 2"
      by (rule wp_mono [OF rest [of ?q Rt]])
        (rule tt, clarsimp, intro exI, rule heads_post_cons [OF head ok(1,3) i n False rel rec' tt refl q])
    then show ?thesis
      using False q(2) by simp
  qed
  then show ?thesis
    by (intro wp_bindI [OF close_recorded [OF rec1 rm]])
qed

lemma ProcessHeads_wp:
  assumes "table_ok a s" "room 4 a s" "unat t + 2 \<le> unat (ArgTableSize a)" "unat (ArgTableSize a) \<le> unat t + 2 * f"
  shows "wp (ProcessHeads f a t s) (\<lambda>(t', s'). \<exists>xs ty. heads_post f a t s t' s' xs ty)"
  using assms
proof (induction f arbitrary: t s)
  case (Suc f)
  define i where "i = (get_word 2 (ArgTable a (RsImage s)) (unat t) :: u16)"
  have t2: "unat (t + 2) = unat t + 2"
    using Suc.prems(3) u32_less [of "ArgTableSize a"] by (simp add: unat_add_u32)
  have tb: "\<not> ArgIsRuntime a" "unat t + 2 \<le> length (ArgTable a (RsImage s))"
    using Suc.prems(1,3) by (auto simp: table_ok_def dest!: spec [of _ "RsImage s"])
  show ?case
    unfolding ProcessHeads_unfold [OF tb i_def refl]
  proof (rule wp_bindI [OF ProcessHead_wp [OF Suc.prems(1,2)]], elim exE)
    fix s1 xs h
    assume "head_post a i s s1 xs h"
    then show "wp (bindR (UnchainReloc (ArgAlloc a) (RsRuntime s1) None False (UE_RELOC_FIXUP_OFFSET i) None) (\<lambda>Rt.
       if UE_RELOC_FIXUP_OFFSET i = UE_HEAD_FIXUP_OFFSET_END then Inr (t + 2, s1\<lparr>RsRuntime := Rt\<rparr>)
       else assertR (ucast (UE_RELOC_FIXUP_OFFSET i) \<le> RsTarget s1 + ucast (UE_RELOC_FIXUP_OFFSET i))
         (if t + 2 > ArgTableSize a - 2 then fail RETURN_VOLUME_CORRUPTED
          else ProcessHeads f a (t + 2) (next_state (RsTarget s1 + ucast (UE_RELOC_FIXUP_OFFSET i)) Rt s1))))
       (\<lambda>(t', s'). \<exists>xs ty. heads_post (Suc f) a t s t' s' xs ty)"
    proof (rule heads_step_wp [OF Suc.prems(1-3) i_def refl])
      fix q Rt
      assume "table_ok a (next_state q Rt s1)" "room 4 a (next_state q Rt s1)" "unat t + 4 \<le> unat (ArgTableSize a)"
      then show "wp (ProcessHeads f a (t + 2) (next_state q Rt s1))
          (\<lambda>(t', s'). \<exists>xs ty. heads_post f a (t + 2) (next_state q Rt s1) t' s' xs ty)"
        using Suc.prems(4) by (intro Suc.IH) (simp_all add: t2)
    qed
  qed
qed simp


section \<open>Roots\<close>

text \<open>A root: its first offset, its heads without the last one, and the type of the last one.\<close>

type_synonym root = "u32 \<times> head list \<times> u16"

definition enc_root :: "root \<Rightarrow> u8 list" where
  "enc_root rt = (case rt of (f, xs, ty) \<Rightarrow>
     le_to_bytes 4 (unat f) @ enc_heads (xs @ [(ty, 0x0FFF)]) @ pad4 (2 * length xs + 2))"

fun root_fixups :: "nat \<Rightarrow> root \<Rightarrow> fixup list" where
  "root_fixups p (f, xs, ty) = fixups (p + unat f) xs @ [(ty, heads_next (p + unat f) xs)]"

fun root_end :: "nat \<Rightarrow> root \<Rightarrow> nat" where
  "root_end p (f, xs, ty) = heads_next (p + unat f) xs + fix_size ty"

fun roots_fixups :: "nat \<Rightarrow> root list \<Rightarrow> fixup list" where
  "roots_fixups p [] = []"
| "roots_fixups p (rt # rts) = root_fixups p rt @ roots_fixups (root_end p rt) rts"

fun roots_end :: "nat \<Rightarrow> root list \<Rightarrow> nat" where
  "roots_end p [] = p"
| "roots_end p (rt # rts) = roots_end (root_end p rt) rts"

definition good_root :: "root \<Rightarrow> bool" where
  "good_root rt \<longleftrightarrow> (case rt of (f, xs, ty) \<Rightarrow> good_heads xs \<and> unat ty \<le> 2)"

definition enc_roots :: "root list \<Rightarrow> u8 list" where
  "enc_roots rts = concat (map enc_root rts)"

lemma pad4_mod: "4 dvd n \<Longrightarrow> pad4 (n + m) = pad4 m"
  by (auto simp: pad4_def align_up_def elim!: dvdE)

lemma length_enc_root: "4 dvd length (enc_root rt)" "8 \<le> length (enc_root rt)"
proof -
  obtain f xs ty where rt: "rt = (f, xs, ty)"
    by (cases rt)
  have "length (enc_root rt) = 4 + align_up (2 * length xs + 2) 4"
    using length_pad4 [of "2 * length xs + 2"] by (simp add: enc_root_def rt)
  moreover have "4 dvd align_up (2 * length xs + 2) 4"
    by simp
  moreover from this have "4 \<le> align_up (2 * length xs + 2) 4"
    by (rule dvd_imp_le) (rule less_le_trans [OF _ align_up_ge], simp)
  ultimately show "4 dvd length (enc_root rt)" "8 \<le> length (enc_root rt)"
    by simp_all
qed

definition root_post :: "reloc_args \<Rightarrow> u32 \<Rightarrow> ue_reloc_state \<Rightarrow> u32 \<Rightarrow> u32 \<Rightarrow> ue_reloc_state \<Rightarrow> root \<Rightarrow> bool" where
  "root_post a t s q t' s' rt \<longleftrightarrow>
     good_root rt \<and> unat (RsTarget s') = root_end (unat (RsTarget s)) rt \<and>
     unat t + 6 \<le> unat t' \<and> unat t' \<le> unat (ArgTableSize a) \<and>
     (\<exists>ds. relocates a s (root_fixups (unat (RsTarget s)) rt) (enc_root rt) ds s') \<and>
     (fixed_table a \<longrightarrow>
        shifts (\<lambda>a s. ProcessHeads (unat (ArgTableSize a)) a (t + 4) (next_state q (RsRuntime s) s)) (Pair t') a s
          (root_fixups (unat (RsTarget s)) rt) s')"

definition rt_aligned :: "ue_runtime option \<Rightarrow> bool" where
  "rt_aligned Rt \<longleftrightarrow> 4 dvd rt_len Rt"

lemma relocates_refl:
  "unat (RsTarget s) \<le> unat (ArgImageSize a) \<Longrightarrow> room k a s \<Longrightarrow> relocates a s [] [] [] s"
  by (auto simp: relocates_def room_def rt_room_def unchained_opt_def unchained_as_def split: option.splits)

lemma shifts_refl: "shifts (\<lambda>a s. Inr (mk s)) mk a s [] s"
  by (auto simp: shifts_def)

lemma root_post_I:
  assumes ok: "table_ok a s" "room k a s" "unat (RsTarget s) \<le> unat (ArgImageSize a)" "rt_aligned (RsRuntime s)"
    and q: "unat q = unat (RsTarget s) + unat f" and t: "unat t + 4 \<le> unat (ArgTableSize a)"
    and rec: "unchained_opt (RsRuntime s) (le_to_bytes 4 (unat f)) [] Rt"
    and heads: "heads_post (unat (ArgTableSize a)) a (t + 4) (next_state q Rt s) t' s' xs ty"
  shows "root_post a t s q t' s' (f, xs, ty)"
proof -
  let ?r = "unat (RsTarget s)"
  have t4: "unat (t + 4) = unat t + 4"
    using t u32_less [of "ArgTableSize a"] by (simp add: unat_add_u32)
  have le: "?r \<le> unat q"
    by (simp add: q)
  have fs: "root_fixups ?r (f, xs, ty) = fixups (unat q) xs @ [(ty, heads_next (unat q) xs)]"
    by (simp add: q)
  obtain ds where rel: "relocates a (next_state q Rt s) (root_fixups ?r (f, xs, ty))
      (enc_heads (xs @ [(ty, 0x0FFF)]) @ pad4 (rt_len Rt + 2 * length xs + 2)) ds s'"
    using heads unfolding heads_post_def Let_def fs by auto
  have sh: "shifts (\<lambda>a'. ProcessHeads (unat (ArgTableSize a)) a' (t + 4)) (Pair t') a (next_state q Rt s) (root_fixups ?r (f, xs, ty)) s'"
    if "fixed_table a"
    using heads that unfolding heads_post_def Let_def fs by auto
  have "pad4 (rt_len Rt + 2 * length xs + 2) = pad4 (2 * length xs + 2)" if "RsRuntime s \<noteq> None"
    using pad4_mod [of "rt_len Rt" "2 * length xs + 2"] rt_len_recorded [OF rec that] ok(4)
    by (simp add: rt_aligned_def)
  then have "relocates a s (root_fixups ?r (f, xs, ty)) (enc_root (f, xs, ty)) ds s'"
    using relocates_step [OF relocates_refl [OF ok(3,2)] rec le _ rel] relocates_None [of a s "root_fixups ?r (f, xs, ty)"]
    by (cases "RsRuntime s") (auto simp: fs_within_def enc_root_def)
  moreover have "shifts (\<lambda>a s. ProcessHeads (unat (ArgTableSize a)) a (t + 4) (next_state q (RsRuntime s) s)) (Pair t') a s
      ([] @ root_fixups ?r (f, xs, ty)) s'" if "fixed_table a"
  proof (rule shifts_step [OF relocates_refl [OF ok(3,2)] shifts_refl _ le rel])
    show "shifts (\<lambda>a. ProcessHeads (unat (ArgTableSize a)) a (t + 4)) (Pair t') a (next_state q Rt s) (root_fixups ?r (f, xs, ty)) s'"
      using sh [OF that] by (simp add: shifts_def)
    show "unat q = ?r \<or> starts_at (unat q) (root_fixups ?r (f, xs, ty))"
      unfolding fs using starts_at_heads by blast
    fix ok d Img D Img' D'
    assume "Inr (other_state Img D s) = Inr (other_state Img' D' s)"
    then have "other_state Img' D' (next_state q Rt s) = next_state q (RsRuntime (other_state Img D s)) (other_state Img D s)"
      by (cases s) simp
    then show "ProcessHeads (unat (ArgTableSize (other_args ok d a))) (other_args ok d a) (t + 4)
        (next_state q (RsRuntime (other_state Img D s)) (other_state Img D s)) =
      ProcessHeads (unat (ArgTableSize (other_args ok d a))) (other_args ok d a) (t + 4) (other_state Img' D' (next_state q Rt s))"
      by (simp only:)
  qed (simp add: fixups_end_def)
  ultimately show ?thesis
    using heads t4 unfolding root_post_def good_root_def heads_post_def Let_def by (auto simp: q)
qed

lemma ProcessRoots_unfold:
  assumes "\<not> ArgIsRuntime a" "unat t + 4 \<le> length (ArgTable a (RsImage s))" "t \<le> ArgTableSize a - 6"
    "f = get_word 4 (ArgTable a (RsImage s)) (unat t)"
  shows "ProcessRoots (Suc g) a t s =
    (if 2 ^ 32 \<le> unat (RsTarget s) + unat f then fail RETURN_VOLUME_CORRUPTED
     else
       bindR (UnchainReloc (ArgAlloc a) (RsRuntime s) (Some (le_to_bytes 4 (unat f))) False 0 None) (\<lambda>Rt.
       bindR (ProcessHeads (unat (ArgTableSize a)) a (t + 4) (next_state (RsTarget s + f) Rt s)) (\<lambda>(t', s).
       assertR (t' \<le> ALIGN_VALUE t' 4) (ProcessRoots g a (ALIGN_VALUE t' 4) s))))"
  using assms by (simp add: ReadUnaligned32_def read_word_def Let_def AddU32_eq)

definition roots_post :: "nat \<Rightarrow> reloc_args \<Rightarrow> u32 \<Rightarrow> ue_reloc_state \<Rightarrow> ue_reloc_state \<Rightarrow> root list \<Rightarrow> bool" where
  "roots_post g a t s s' rts \<longleftrightarrow>
     list_all good_root rts \<and> unat (RsTarget s') = roots_end (unat (RsTarget s)) rts \<and>
     (\<exists>ds. relocates a s (roots_fixups (unat (RsTarget s)) rts) (enc_roots rts) ds s') \<and>
     (fixed_table a \<longrightarrow> shifts (\<lambda>a. ProcessRoots g a t) (\<lambda>s. s) a s (roots_fixups (unat (RsTarget s)) rts) s')"

lemma root_fixups_end: "fixups_end p (root_fixups p rt) = root_end p rt"
  by (cases rt) (simp add: fixups_end_def)

lemma root_fixups_within: "fs_within (root_end p rt) (root_fixups p rt)"
  by (cases rt) (simp add: head_fixups_within)

lemma align4:
  assumes "unat (t :: u32) \<le> unat n" "4 dvd unat (n :: u32)"
  shows "unat (ALIGN_VALUE t 4) = align_up (unat t) 4" "align_up (unat t) 4 \<le> unat n" "t \<le> ALIGN_VALUE t 4"
proof -
  show le: "align_up (unat t) 4 \<le> unat n"
    using assms by (intro align_up_least) simp_all
  then show eq: "unat (ALIGN_VALUE t 4) = align_up (unat t) 4"
    using u32_less [of n] by (subst unat_ALIGN_VALUE) (simp_all add: IS_POW2_def)
  then show "t \<le> ALIGN_VALUE t 4"
    by (simp add: word_le_nat_alt)
qed

lemma roots_post_cons:
  assumes ok: "table_ok a s" "unat t + 6 \<le> unat (ArgTableSize a)" "4 dvd unat (ArgTableSize a)"
    and f: "f = get_word 4 (ArgTable a (RsImage s)) (unat t)" "\<not> 2 ^ 32 \<le> unat (RsTarget s) + unat f"
    and root: "root_post a t s (RsTarget s + f) t' s1 rt"
    and rest: "roots_post g a (ALIGN_VALUE t' 4) s1 s2 rts"
  shows "roots_post (Suc g) a t s s2 (rt # rts)"
proof -
  let ?r = "unat (RsTarget s)" and ?q = "RsTarget s1"
  obtain ds1 where rel1: "relocates a s (root_fixups ?r rt) (enc_root rt) ds1 s1"
    using root by (auto simp: root_post_def)
  have r1: "unat (RsTarget s1) = root_end ?r rt" and t': "unat t' \<le> unat (ArgTableSize a)"
    using root by (simp_all add: root_post_def)
  have sh: "shifts (\<lambda>a s'. ProcessHeads (unat (ArgTableSize a)) a (t + 4) (next_state (RsTarget s + f) (RsRuntime s') s')) (Pair t')
      a s (root_fixups ?r rt) s1" if "fixed_table a"
    using root that by (simp add: root_post_def)
  have eq: "next_state ?q (RsRuntime s1) s1 = s1"
    by (cases s1) simp
  obtain ds2 where rel2: "relocates a s1 (roots_fixups (unat ?q) rts) (enc_roots rts) ds2 s2"
    using rest by (auto simp: roots_post_def)
  have rel: "relocates a s (root_fixups ?r rt @ roots_fixups (unat ?q) rts) (enc_root rt @ enc_roots rts) (ds1 @ ds2) s2"
  proof (rule relocates_step [where q = ?q and Rt = "RsRuntime s1", OF rel1 _ order_refl])
    show "unchained_opt (RsRuntime s) (enc_root rt) ds1 (RsRuntime s1)"
      using rel1 by (simp add: relocates_def)
  qed (use rel2 r1 root_fixups_within in \<open>simp_all add: eq\<close>)
  have "shifts (\<lambda>a. ProcessRoots (Suc g) a t) (\<lambda>s. s) a s (root_fixups ?r rt @ roots_fixups (unat ?q) rts) s2" if "fixed_table a"
  proof (rule shifts_step [OF rel1 _ _ order_refl])
    show "shifts (\<lambda>a s. ProcessHeads (unat (ArgTableSize a)) a (t + 4) (next_state (RsTarget s + f) (RsRuntime s) s)) (Pair t') a s
        (root_fixups ?r rt) s1"
      using sh [OF that] by (simp add: shifts_def)
    show "shifts (\<lambda>a. ProcessRoots g a (ALIGN_VALUE t' 4)) (\<lambda>s. s) a (next_state ?q (RsRuntime s1) s1) (roots_fixups (unat ?q) rts) s2"
      using rest that by (simp add: roots_post_def eq)
    show "relocates a (next_state ?q (RsRuntime s1) s1) (roots_fixups (unat ?q) rts) (enc_roots rts) ds2 s2"
      using rel2 by (simp add: eq)
    fix ok' d Img D Img' D'
    assume "ProcessHeads (unat (ArgTableSize (other_args ok' d a))) (other_args ok' d a) (t + 4)
        (next_state (RsTarget (other_state Img D s) + f) (RsRuntime (other_state Img D s)) (other_state Img D s)) =
      Inr (t', other_state Img' D' s1)"
    moreover have "t \<le> ArgTableSize a - 6"
      using ok(2) by (simp add: word_le_nat_alt unat_sub)
    ultimately show "ProcessRoots (Suc g) (other_args ok' d a) t (other_state Img D s) =
        ProcessRoots g (other_args ok' d a) (ALIGN_VALUE t' 4) (other_state Img' D' (next_state ?q (RsRuntime s1) s1))"
      unfolding eq using that ok f align4(3) [OF t' ok(3)]
      by (subst ProcessRoots_unfold [OF _ _ _ refl]) (auto simp: fixed_table_def table_ok_def)
  qed (simp_all add: root_fixups_end r1)
  with rel root rest r1 show ?thesis
    by (auto simp: roots_post_def root_post_def enc_roots_def)
qed

lemma roots_post_Nil:
  assumes "\<not> t \<le> ArgTableSize a - 6" "unat (RsTarget s) \<le> unat (ArgImageSize a)" "room k a s"
  shows "roots_post (Suc g) a t s s []"
  using relocates_refl [OF assms(2,3)] assms(1) by (auto simp: roots_post_def enc_roots_def shifts_def)

lemma length_pad4_le: "length (pad4 n) \<le> 3"
  using align_up_less [of 4 n] by (simp add: pad4_def)

lemma root_room:
  assumes "room k a s" "relocates a s (root_fixups (unat (RsTarget s)) rt) (enc_root rt) ds s1" "k' + 8 \<le> k"
    "unat (RsTarget s1) = root_end (unat (RsTarget s)) rt"
  shows "room k' a s1"
proof -
  obtain f xs ty where rt: "rt = (f, xs, ty)"
    by (cases rt)
  have len: "length ds = 8 * (length xs + 1)" "unat (RsTarget s1) \<le> unat (ArgImageSize a)"
    and rec: "unchained_opt (RsRuntime s) (enc_root rt) ds (RsRuntime s1)"
    using assms(2) by (simp_all add: relocates_def rt)
  have "unat (RsTarget s) + 4 * (length xs + 1) \<le> unat (RsTarget s1)"
    using assms(4) heads_next_ge [of "unat (RsTarget s) + unat f" xs] fix_size_bounds(1) [of ty] by (simp add: rt)
  then obtain x where x: "unat (RsTarget s1) = unat (RsTarget s) + 4 * (length xs + 1) + x"
    by (auto simp: le_iff_add)
  obtain y where y: "unat (ArgImageSize a) = unat (RsTarget s1) + y"
    using len(2) by (auto simp: le_iff_add)
  have "length (enc_root rt) \<le> 2 * length xs + 9"
    using length_pad4_le [of "2 * length xs + 2"] by (simp add: enc_root_def rt)
  then show ?thesis
    unfolding room_def
    by (intro rt_room_recorded [OF assms(1) [unfolded room_def] rec]) (use assms(3) len(1) in \<open>simp_all add: x y\<close>)
qed

text \<open>Everything that the loop over the roots keeps.\<close>

definition roots_inv :: "reloc_args \<Rightarrow> u32 \<Rightarrow> ue_reloc_state \<Rightarrow> bool" where
  "roots_inv a t s \<longleftrightarrow>
     table_ok a s \<and> room (unat (ArgTableSize a) - unat t) a s \<and> unat (RsTarget s) \<le> unat (ArgImageSize a) \<and>
     rt_aligned (RsRuntime s) \<and> 4 dvd unat t \<and> unat t \<le> unat (ArgTableSize a) \<and>
     4 dvd unat (ArgTableSize a) \<and> 8 \<le> unat (ArgTableSize a)"

lemma root_inv:
  assumes "roots_inv a t s" "root_post a t s q t' s1 rt"
  shows "roots_inv a (ALIGN_VALUE t' 4) s1" "unat t + 8 \<le> unat (ALIGN_VALUE t' 4)"
proof -
  let ?n = "ArgTableSize a"
  obtain ds where rel: "relocates a s (root_fixups (unat (RsTarget s)) rt) (enc_root rt) ds s1"
    and t': "unat t + 6 \<le> unat t'" "unat t' \<le> unat ?n"
    and r1: "unat (RsTarget s1) = root_end (unat (RsTarget s)) rt"
    using assms(2) by (auto simp: root_post_def)
  have inv: "4 dvd unat t" "4 dvd unat ?n"
    using assms(1) by (simp_all add: roots_inv_def)
  note al = align4 [OF t'(2) inv(2)]
  obtain m where m: "align_up (unat t') 4 = 4 * m"
    by (rule dvdE [OF align_up_dvd [of 4 "unat t'"]]) simp
  have "unat t + 6 \<le> align_up (unat t') 4"
    using t'(1) by (rule order_trans) simp
  then show t8: "unat t + 8 \<le> unat (ALIGN_VALUE t' 4)"
    using inv(1) by (auto simp: al m elim!: dvdE) arith
  have "unchained_opt (RsRuntime s) (enc_root rt) ds (RsRuntime s1)"
    using rel by (simp add: relocates_def)
  then have "rt_aligned (RsRuntime s1)"
    using assms(1) rt_len_recorded [of "RsRuntime s"] length_enc_root(1) [of rt]
    by (cases "RsRuntime s") (auto simp: roots_inv_def rt_aligned_def rt_len_def)
  moreover have "room (unat ?n - unat (ALIGN_VALUE t' 4)) a s1"
    by (rule root_room [OF _ rel _ r1]) (use assms(1) t8 al in \<open>auto simp: roots_inv_def\<close>)
  ultimately show "roots_inv a (ALIGN_VALUE t' 4) s1"
    using assms(1) rel al m table_ok_relocates [OF _ rel] by (auto simp: roots_inv_def relocates_def)
qed

lemma roots_step_wp:
  assumes inv: "roots_inv a t s" and t: "unat t + 8 \<le> unat (ArgTableSize a)"
    and f: "f = (get_word 4 (ArgTable a (RsImage s)) (unat t) :: u32)"
    and rest: "\<And>t' s1. roots_inv a t' s1 \<Longrightarrow> unat t + 8 \<le> unat t' \<Longrightarrow>
      wp (ProcessRoots g a t' s1) (\<lambda>s'. \<exists>rts. roots_post g a t' s1 s' rts)"
  shows "wp (ProcessRoots (Suc g) a t s) (\<lambda>s'. \<exists>rts. roots_post (Suc g) a t s s' rts)"
proof -
  let ?n = "ArgTableSize a" and ?q = "RsTarget s + f"
  have ok: "table_ok a s" "room (unat ?n - unat t) a s" "unat (RsTarget s) \<le> unat (ArgImageSize a)"
    "rt_aligned (RsRuntime s)" "4 dvd unat ?n"
    using inv by (simp_all add: roots_inv_def)
  have "unat ?n \<le> length (ArgTable a (RsImage s))"
    using ok(1) by (simp add: table_ok_def)
  then have tb: "\<not> ArgIsRuntime a" "unat t + 4 \<le> length (ArgTable a (RsImage s))" "t \<le> ?n - 6"
    using t ok(1) by (simp add: table_ok_def, linarith, simp add: word_le_nat_alt unat_sub)
  have app: "rt_room (length (le_to_bytes 4 (unat f))) (if (None :: u64 option) = None then 0 else 8) (RsRuntime s)"
    using ok(2) t by (auto simp: room_def rt_room_def)
  have "wp (bindR (UnchainReloc (ArgAlloc a) (RsRuntime s) (Some (le_to_bytes 4 (unat f))) False 0 None) (\<lambda>Rt.
       bindR (ProcessHeads (unat ?n) a (t + 4) (next_state ?q Rt s)) (\<lambda>(t', s).
       assertR (t' \<le> ALIGN_VALUE t' 4) (ProcessRoots g a (ALIGN_VALUE t' 4) s))))
     (\<lambda>s'. \<exists>rts. roots_post (Suc g) a t s s' rts)" if no: "\<not> 2 ^ 32 \<le> unat (RsTarget s) + unat f"
  proof (rule wp_bindI [OF UnchainReloc_append_wp [OF app]])
    fix Rt
    assume "unchained_opt (RsRuntime s) (le_to_bytes 4 (unat f)) (case None of None \<Rightarrow> [] | Some v \<Rightarrow> le_to_bytes 8 (unat v)) Rt"
    then have rec: "unchained_opt (RsRuntime s) (le_to_bytes 4 (unat f)) [] Rt"
      by simp
    have q: "unat ?q = unat (RsTarget s) + unat f"
      using no by (simp add: unat_add_u32)
    have heads: "wp (ProcessHeads (unat ?n) a (t + 4) (next_state ?q Rt s))
        (\<lambda>(t', s'). \<exists>xs ty. heads_post (unat ?n) a (t + 4) (next_state ?q Rt s) t' s' xs ty)"
    proof (rule ProcessHeads_wp)
      show "table_ok a (next_state ?q Rt s)"
        using ok(1) by (simp add: table_ok_def)
      show "room 4 a (next_state ?q Rt s)"
        using rt_room_recorded [OF ok(2) [unfolded room_def] rec, of "unat (ArgImageSize a) - unat ?q + 4"
            "2 * (unat (ArgImageSize a) - unat ?q)"] q t by (simp add: room_def)
    qed (use t u32_less [of ?n] in \<open>simp_all add: unat_add_u32\<close>)
    show "wp (bindR (ProcessHeads (unat ?n) a (t + 4) (next_state ?q Rt s)) (\<lambda>(t', s).
       assertR (t' \<le> ALIGN_VALUE t' 4) (ProcessRoots g a (ALIGN_VALUE t' 4) s)))
     (\<lambda>s'. \<exists>rts. roots_post (Suc g) a t s s' rts)"
    proof (rule wp_bindI [OF heads], clarify)
      fix t' s1 xs ty
      assume "heads_post (unat ?n) a (t + 4) (next_state ?q Rt s) t' s1 xs ty"
      then have root: "root_post a t s ?q t' s1 (f, xs, ty)"
        using root_post_I [OF ok(1-4) q _ rec] t by simp
      have "wp (ProcessRoots g a (ALIGN_VALUE t' 4) s1) (\<lambda>s'. \<exists>rts. roots_post (Suc g) a t s s' rts)"
        by (rule wp_mono [OF rest [OF root_inv [OF inv root]]], elim exE, intro exI,
            rule roots_post_cons [OF ok(1) _ ok(5) f no root]) (use t in simp)
      moreover have "t' \<le> ALIGN_VALUE t' 4"
        using root by (intro align4(3) [OF _ ok(5)]) (simp add: root_post_def)
      ultimately show "wp (assertR (t' \<le> ALIGN_VALUE t' 4) (ProcessRoots g a (ALIGN_VALUE t' 4) s1))
          (\<lambda>s'. \<exists>rts. roots_post (Suc g) a t s s' rts)"
        by simp
    qed
  qed
  then show ?thesis
    unfolding ProcessRoots_unfold [OF tb f] wp_if by simp
qed

lemma ProcessRoots_wp:
  assumes "roots_inv a t s" "unat (ArgTableSize a) + 8 \<le> unat t + 8 * g"
  shows "wp (ProcessRoots g a t s) (\<lambda>s'. \<exists>rts. roots_post g a t s s' rts)"
  using assms
proof (induction g arbitrary: t s)
  case 0
  then show ?case
    by (simp add: roots_inv_def)
next
  case (Suc g)
  show ?case
  proof (cases "t \<le> ArgTableSize a - 6")
    case False
    then have "roots_post (Suc g) a t s s []"
      using Suc.prems(1) by (intro roots_post_Nil) (auto simp: roots_inv_def)
    with False show ?thesis
      by auto
  next
    case True
    then have t8: "unat t + 8 \<le> unat (ArgTableSize a)"
      using Suc.prems(1) by (auto simp: roots_inv_def word_le_nat_alt unat_sub elim!: dvdE) arith
    show ?thesis
      by (rule roots_step_wp [OF Suc.prems(1) t8 refl], rule Suc.IH) (use Suc.prems(2) in simp_all)
  qed
qed

end
