(* ===== verification/UeReplay.thy ===== *)
theory UeReplay
  imports UeTable
begin

text \<open>
  The relocation at runtime replays the record of the first relocation, and the relocation of
  well-formed UE images: it stays inside its buffers, and the record of a chained image leads to
  the image that a relocation to the new address would have produced.
\<close>

section \<open>Replaying the record at runtime\<close>

definition mix :: "nat \<Rightarrow> u8 list \<Rightarrow> u8 list \<Rightarrow> u8 list" where
  "mix r A B = take r B @ drop r A"

definition replay_state :: "u8 list \<Rightarrow> u8 list \<Rightarrow> ue_runtime \<Rightarrow> fixup list \<Rightarrow> nat \<Rightarrow> ue_reloc_state \<Rightarrow> bool" where
  "replay_state A B R fs r s \<longleftrightarrow>
     length A = length B \<and> RsImage s = mix r A B \<and> unat (RsTarget s) = r \<and> RsRuntime s = Some R \<and>
     drop (8 * RsPointer s) (FixupData R) = enc_data A fs"

lemma length_mix [simp]: "length A = length B \<Longrightarrow> length (mix r A B) = length A"
  by (simp add: mix_def)

lemma mix_nth: "length A = length B \<Longrightarrow> i < length A \<Longrightarrow> mix r A B ! i = (if i < r then B ! i else A ! i)"
  by (auto simp: mix_def nth_append min_def)

lemma mix_above: "length A = length B \<Longrightarrow> above r A (mix r A B)"
  by (auto simp: above_def mix_nth)

lemma mix_gap: "length A = length B \<Longrightarrow> same_range p q A B \<Longrightarrow> p \<le> q \<Longrightarrow> mix q A B = mix p A B"
  by (rule nth_equalityI) (auto simp: mix_nth same_range_def)

lemma mix_0 [simp]: "mix 0 A B = A"
  by (simp add: mix_def)

lemma mix_end: "length A = length B \<Longrightarrow> above e A B \<Longrightarrow> mix e A B = B"
  by (rule nth_equalityI) (auto simp: mix_nth above_def)

text \<open>A write of the value that the other image has advances the border.\<close>

lemma get_word_bytes:
  assumes "get_word n A x = (get_word n B x :: 'w::len word)" "LENGTH('w) = 8 * n" "x + n \<le> length A" "x + n \<le> length B"
  shows "take n (drop x A) = take n (drop x B)"
proof -
  have lens: "length (take n (drop x A)) = n" "length (take n (drop x B)) = n"
    using assms(3,4) by simp_all
  have b: "le_of_bytes (take n (drop x C)) < 2 ^ LENGTH('w)" if "length (take n (drop x C)) = n" for C
    using le_of_bytes_bound [of "take n (drop x C)"] that assms(2) by (simp add: power_mult)
  have "le_of_bytes (take n (drop x A)) = le_of_bytes (take n (drop x B))"
    using arg_cong [OF assms(1), of unat] b [OF lens(1)] b [OF lens(2)]
    by (simp add: get_word_def unat_of_nat take_bit_nat_eq_self)
  then show ?thesis
    using le_to_of_bytes [of n "take n (drop x A)"] le_to_of_bytes [of n "take n (drop x B)"] lens by simp
qed

lemma mix_write:
  assumes "length A = length B" "changes_only x n (mix x A B) C" "get_word n C x = (get_word n B x :: 'w::len word)"
    "LENGTH('w) = 8 * n" "x + n \<le> length A"
  shows "C = mix (x + n) A B"
proof (rule nth_equalityI)
  have len: "length C = length A"
    using assms(1,2) by (auto dest: changes_only_length)
  then show "length C = length (mix (x + n) A B)"
    using assms(1) by simp
  have eq: "take n (drop x C) = take n (drop x B)"
    using get_word_bytes [OF assms(3,4)] assms(1,5) len by simp
  fix i
  assume i: "i < length C"
  show "C ! i = mix (x + n) A B ! i"
  proof (cases "x \<le> i \<and> i < x + n")
    case True
    then have "C ! i = take n (drop x C) ! (i - x)" "B ! i = take n (drop x B) ! (i - x)"
      using i len assms(1,5) by (simp_all add: less_diff_conv2)
    with True i len assms(1) show ?thesis
      by (simp add: eq mix_nth)
  next
    case False
    then show ?thesis
      using assms(1,2) i len by (auto simp: changes_only_def mix_nth)
  qed
qed


lemma enc_head_decode:
  assumes "unat t < 16" "unat n < 4096"
  shows "UE_RELOC_FIXUP_TYPE (push_bit 4 n OR t) = t" "UE_RELOC_FIXUP_OFFSET (push_bit 4 n OR t) = n"
proof -
  have t: "take_bit 4 t = t"
    using assms(1) by (simp add: word_unat_eq_iff unsigned_take_bit_eq take_bit_nat_eq_self)
  have n: "take_bit 12 n = n"
    using assms(2) by (simp add: word_unat_eq_iff unsigned_take_bit_eq take_bit_nat_eq_self)
  have bt: "\<not> bit t k" if "4 \<le> k" for k
    using t that by (metis bit_take_bit_iff not_le)
  have bn: "\<not> bit n k" if "12 \<le> k" for k
    using n that by (metis bit_take_bit_iff not_le)
  have m: "(0xF :: u16) = mask 4"
    by (simp add: mask_eq_exp_minus_1)
  show "UE_RELOC_FIXUP_TYPE (push_bit 4 n OR t) = t"
    unfolding UE_RELOC_FIXUP_TYPE_def m
    by (rule bit_word_eqI) (use bt in \<open>auto simp: bit_simps simp flip: not_le\<close>)
  show "UE_RELOC_FIXUP_OFFSET (push_bit 4 n OR t) = n"
    unfolding UE_RELOC_FIXUP_OFFSET_def
    by (rule bit_word_eqI) (use bt bn in \<open>auto simp: bit_simps simp flip: not_le\<close>)
qed

definition runtime_args :: "loader_cfg \<Rightarrow> (nat \<Rightarrow> bool) \<Rightarrow> u32 \<Rightarrow> u8 list \<Rightarrow> u64 \<Rightarrow> reloc_args" where
  "runtime_args cfg ok sz U d =
     \<lparr>ArgCfg = cfg, ArgAlloc = ok, ArgImageSize = sz, ArgTable = (\<lambda>_. U), ArgTableSize = word_of_nat (length U),
      ArgChaining = False, ArgAdjust = d, ArgIsRuntime = True\<rparr>"

lemma UnchainReloc_runtime [simp]: "UnchainReloc ok Rt m True n D = Inr Rt"
  by (simp add: UnchainReloc_def split: option.splits)

lemma ucast_32_64_32 [simp]: "ucast (ucast (w :: u32) :: u64) = w"
  using u32_less [of w] by (simp only: word_unat_eq_iff unat_ucast_64_32 unat_ucast_32_64) simp

lemma ApplyReloc_match:
  "ReadUnaligned64 Img (unat x) = Inr v \<Longrightarrow> WriteUnaligned64 Img (unat x) (v + d) = Inr C \<Longrightarrow>
     ApplyReloc64 cfg Img x d (Inr v) True = Inr (C, x + 8)"
  "ReadUnaligned32 Img (unat x) = Inr w \<Longrightarrow> WriteUnaligned32 Img (unat x) (w + ucast d) = Inr C \<Longrightarrow>
     ApplyReloc32 cfg Img x d (Inr (ucast w)) True = Inr (C, x + 4, Some (w + ucast d))"
  by (simp_all add: ApplyReloc64_def ApplyReloc32_def)

lemma ApplyRelocation_64:
  assumes "apply_ok sz t x" "t = UeReloc64" "ApplyReloc64 cfg Img x d FR True = Inr (C, x')"
  shows "InternalApplyRelocationUe cfg Img sz t x d FR D True = Inr (C, x', D)"
proof -
  have "\<not> 8 > sz - x"
    using apply_okD(3) [OF assms(1)] by (simp add: assms(2) fix_size_def word_less_nat_alt)
  then show ?thesis
    using apply_okD(2) [OF assms(1)] assms(2,3) by (simp add: InternalApplyRelocationUe_def SubU32_eq)
qed

lemma ApplyRelocation_32:
  assumes "apply_ok sz t x" "t \<noteq> UeReloc64" "ApplyReloc32 cfg Img x d FR True = Inr (C, x', Some v)"
  shows "InternalApplyRelocationUe cfg Img sz t x d FR D True = Inr (C, x', D)"
proof -
  have "\<not> 4 > sz - x"
    using apply_okD(3) [OF assms(1)] assms(2) by (simp add: fix_size_def word_less_nat_alt)
  then show ?thesis
    using apply_okD(1,2) [OF assms(1)] assms(2,3) by (auto simp: InternalApplyRelocationUe_def SubU32_eq)
qed

lemma replay_apply:
  assumes st: "replay_state A B R ((t, r) # fs) r s" and ty: "unat t \<le> 2"
    and fit: "r + fix_size t \<le> unat sz" "unat sz \<le> length A"
    and sh: "shift_at d (t, r) A B"
  shows "InternalApplyRelocationUe cfg (RsImage s) sz t (RsTarget s) d
      (ReadUnaligned64 (FixupData R) (8 * RsPointer s)) (RsData s) True =
    Inr (mix (r + fix_size t) A B, RsTarget s + word_of_nat (fix_size t), RsData s)"
proof -
  have r: "unat (RsTarget s) = r" and img: "RsImage s = mix r A B" and len: "length A = length B"
    and dat: "drop (8 * RsPointer s) (FixupData R) = le_to_bytes 8 (unat (fix_value A (t, r))) @ enc_data A fs"
    using st by (simp_all add: replay_state_def)
  have ok: "apply_ok sz t (RsTarget s)"
    using ty fit(1) by (simp add: apply_ok_def r)
  note okD = apply_okD [OF ok]
  have rd: "ReadUnaligned64 (FixupData R) (8 * RsPointer s) = Inr (fix_value A (t, r))"
  proof -
    have "8 \<le> length (drop (8 * RsPointer s) (FixupData R))"
      unfolding dat by simp
    then have "8 * RsPointer s + 8 \<le> length (FixupData R)"
      by simp
    moreover have "take 8 (drop (8 * RsPointer s) (FixupData R)) = le_to_bytes 8 (unat (fix_value A (t, r)))"
      unfolding dat by simp
    ultimately show ?thesis
      using u64_less [of "fix_value A (t, r)"] by (simp add: read_fixed_eq get_word_def)
  qed
  have get: "get_word n (mix r A B) r = get_word n A r" for n
    by (rule get_word_above [OF mix_above [OF len] order_refl])
  show ?thesis
  proof (cases "t = UeReloc64")
    case True
    have le: "r + 8 \<le> length (mix r A B)"
      using fit len by (simp add: True fix_size_def)
    obtain C where C: "WriteUnaligned64 (mix r A B) r (get_word 8 A r + d) = Inr C"
      "changes_only r 8 (mix r A B) C" "(get_word 8 C r :: u64) = get_word 8 A r + d"
      using write64_ex [OF le, of "get_word 8 A r + d"] by (elim exE conjE)
    have "C = mix (r + 8) A B"
      by (rule mix_write [OF len C(2), where 'w = 64]) (use C(3) sh fit True in \<open>simp_all add: shift_at_def fix_size_def\<close>)
    moreover have "ApplyReloc64 cfg (mix r A B) (RsTarget s) d (Inr (get_word 8 A r)) True = Inr (C, RsTarget s + 8)"
      by (rule ApplyReloc_match(1)) (use C(1) read_fixed_eq(2) [OF le] get r in simp_all)
    ultimately show ?thesis
      using ApplyRelocation_64 [OF ok True, of cfg "mix r A B" d "Inr (get_word 8 A r)"]
      by (simp add: rd img True fix_value_def fix_size_def)
  next
    case False
    have le: "r + 4 \<le> length (mix r A B)"
      using fit len by (simp add: False fix_size_def)
    obtain C where C: "WriteUnaligned32 (mix r A B) r (get_word 4 A r + ucast d) = Inr C"
      "changes_only r 4 (mix r A B) C" "(get_word 4 C r :: u32) = get_word 4 A r + ucast d"
      using write32_ex [OF le, of "get_word 4 A r + ucast d"] by (elim exE conjE)
    have "C = mix (r + 4) A B"
      by (rule mix_write [OF len C(2), where 'w = 32]) (use C(3) sh fit False in \<open>simp_all add: shift_at_def fix_size_def\<close>)
    moreover have "ApplyReloc32 cfg (mix r A B) (RsTarget s) d (Inr (ucast (get_word 4 A r :: u32))) True =
        Inr (C, RsTarget s + 4, Some (get_word 4 A r + ucast d))"
      by (rule ApplyReloc_match(2)) (use C(1) read_fixed_eq(1) [OF le] get r in simp_all)
    ultimately show ?thesis
      using ApplyRelocation_32 [OF ok False, of cfg "mix r A B" d "Inr (ucast (get_word 4 A r :: u32))"]
      by (simp add: rd img False fix_value_def fix_size_def)
  qed
qed

lemma ProcessHead_runtime:
  assumes st: "replay_state A B R ((t, r) # fs) r s" and ty: "unat t \<le> 2" and n: "unat n < 4096"
    and fit: "r + fix_size t \<le> unat sz" "unat sz \<le> length A"
    and sh: "shift_at d (t, r) A B"
  shows "\<exists>s'. ProcessHead (runtime_args cfg ok sz U d) (push_bit 4 n OR t) s = Inr s' \<and>
    replay_state A B R fs (r + fix_size t) s'"
proof -
  have r: "unat (RsTarget s) = r" and rt: "RsRuntime s = Some R" and len: "length A = length B"
    and dat: "drop (8 * RsPointer s) (FixupData R) = le_to_bytes 8 (unat (fix_value A (t, r))) @ enc_data A fs"
    using st by (simp_all add: replay_state_def)
  have dec: "UE_RELOC_FIXUP_TYPE (push_bit 4 n OR t) = t"
    using ty n by (intro enc_head_decode(1)) simp_all
  have "unat (RsTarget s + word_of_nat (fix_size t)) = r + fix_size t"
    using apply_okD(4) [of sz t "RsTarget s"] ty fit(1) by (simp add: apply_ok_def r)
  moreover have "drop (8 * (RsPointer s + 1)) (FixupData R) = enc_data A fs"
    using arg_cong [OF dat, of "drop 8"] by (simp add: add.commute)
  ultimately show ?thesis
    using replay_apply [OF st ty fit sh, of cfg] len rt
    by (simp add: ProcessHead_def Let_def runtime_args_def dec runtime_data_def replay_state_def)
qed


lemma get_word_enc:
  assumes "LENGTH('w) = 8 * n"
  shows "get_word n (pre @ le_to_bytes n (unat (v :: 'w::len word)) @ post) (length pre) = v"
proof -
  have "unat v < 256 ^ n"
    using unat_less_size [of v] assms by (simp add: power_mult)
  then show ?thesis
    by (simp add: get_word_def)
qed

lemma ProcessHeads_runtime_unfold:
  assumes "unat t + 2 \<le> length U" "i = get_word 2 U (unat t)"
    "ProcessHead (runtime_args cfg ok sz U d) i s = Inr s1" "n = UE_RELOC_FIXUP_OFFSET i"
  shows "ProcessHeads (Suc f) (runtime_args cfg ok sz U d) t s =
     (if n = UE_HEAD_FIXUP_OFFSET_END then Inr (t + 2, s1)
      else assertR (ucast n \<le> RsTarget s1 + ucast n)
        (if t + 2 > word_of_nat (length U) - 2 then fail RETURN_VOLUME_CORRUPTED
         else ProcessHeads f (runtime_args cfg ok sz U d) (t + 2) (s1\<lparr>RsTarget := RsTarget s1 + ucast n\<rparr>)))"
proof -
  have [simp]: "s1\<lparr>RsRuntime := RsRuntime s1\<rparr> = s1"
    by (cases s1) simp
  have [simp]: "ArgIsRuntime (runtime_args cfg ok sz U d)" "ArgTable (runtime_args cfg ok sz U d) = (\<lambda>_. U)"
    "ArgTableSize (runtime_args cfg ok sz U d) = word_of_nat (length U)"
    by (simp_all add: runtime_args_def)
  show ?thesis
    using assms by (simp add: readU16_def read_word_def Let_def cong: if_cong)
qed

lemma unat_table_size: "length U < 4294967296 \<Longrightarrow> unat (word_of_nat (length U) :: u32) = length U"
  by (simp add: unat_of_nat take_bit_nat_eq_self)

lemma replay_gap:
  assumes "replay_state A B R fs p s" "same_range p q A B" "p \<le> q" "unat x = q"
  shows "replay_state A B R fs q (s\<lparr>RsTarget := x\<rparr>)"
  using assms mix_gap [of A B p q] by (auto simp: replay_state_def)

lemma shifted_starts:
  assumes "shifted d p fs A B" "starts_at q fs"
  shows "same_range p q A B" "p \<le> q" "shifted d q fs A B"
  using assms by (auto simp: starts_at_def same_range_def)

lemma ProcessHeads_runtime:
  assumes "U = pre @ enc_heads (xs @ [(ty, 0x0FFF)]) @ post" "length pre = unat t" "length U < 4294967296"
    "replay_state A B R (fixups r xs @ (ty, heads_next r xs) # gs) r s"
    "good_heads xs" "unat ty \<le> 2" "heads_next r xs + fix_size ty \<le> unat sz" "unat sz \<le> length A" "unat sz \<le> 4294963200"
    "shifted d r (fixups r xs @ (ty, heads_next r xs) # gs) A B" "length xs < f"
  shows "\<exists>s' t'. ProcessHeads f (runtime_args cfg ok sz U d) t s = Inr (t', s') \<and> unat t' = unat t + 2 * length xs + 2 \<and>
    replay_state A B R gs (heads_next r xs + fix_size ty) s'"
  using assms
proof (induction xs arbitrary: pre t r s f)
  case Nil
  obtain g where f: "f = Suc g"
    using Nil by (cases f) auto
  have i: "get_word 2 U (unat t) = push_bit 4 0x0FFF OR ty" "unat t + 2 \<le> length U"
    using Nil.prems(1,2) get_word_enc [of 2 pre "push_bit 4 0x0FFF OR ty :: u16" post] by (simp_all add: enc_head_def)
  obtain s' where s': "ProcessHead (runtime_args cfg ok sz U d) (push_bit 4 0x0FFF OR ty) s = Inr s'"
    "replay_state A B R gs (r + fix_size ty) s'"
    using ProcessHead_runtime [of A B R ty r gs s "0x0FFF" sz d cfg ok U] Nil.prems by auto
  have "UE_RELOC_FIXUP_OFFSET (push_bit 4 0x0FFF OR ty) = 0x0FFF"
    using Nil.prems(6) by (intro enc_head_decode(2)) simp_all
  moreover have "unat (t + 2) = unat t + 2"
    using i(2) Nil.prems(3) by (simp add: unat_add_u32)
  ultimately show ?case
    using s' unfolding f by (subst ProcessHeads_runtime_unfold [OF i(2) i(1) [symmetric] s'(1) refl]) simp
next
  case (Cons h xs)
  obtain t1 n where h: "h = (t1, n)"
    by (cases h)
  obtain g where f: "f = Suc g" "length xs < g"
    using Cons.prems(11) by (cases f) auto
  let ?p = "r + fix_size t1" and ?q = "r + fix_size t1 + unat n"
  let ?fs = "fixups ?q xs @ (ty, heads_next ?q xs) # gs"
  have ty1: "unat t1 \<le> 2" "unat n < 4095" "good_heads xs"
    using Cons.prems(5) by (simp_all add: h)
  have i: "get_word 2 U (unat t) = push_bit 4 n OR t1" "unat t + 4 \<le> length U"
    using Cons.prems(1,2) get_word_enc [of 2 pre "push_bit 4 n OR t1 :: u16" "enc_heads (xs @ [(ty, 0x0FFF)]) @ post"]
    by (simp_all add: enc_head_def h)
  have le: "?q \<le> heads_next ?q xs" "heads_next ?q xs + fix_size ty \<le> unat sz"
    using heads_next_ge [of ?q xs] Cons.prems(7) by (simp_all add: h)
  have sh: "shift_at d (t1, r) A B" "shifted d ?p ?fs A B"
    using Cons.prems(10) by (simp_all add: h)
  obtain s1 where s1: "ProcessHead (runtime_args cfg ok sz U d) (push_bit 4 n OR t1) s = Inr s1"
    "replay_state A B R ?fs ?p s1"
    using ProcessHead_runtime [of A B R t1 r ?fs s n sz d cfg ok U] Cons.prems(4,8) ty1 sh(1) le by (auto simp: h)
  have dec: "UE_RELOC_FIXUP_OFFSET (push_bit 4 n OR t1) = n" "n \<noteq> 0x0FFF"
    using ty1 by (auto intro: enc_head_decode(2))
  have tgt: "unat (RsTarget s1) = ?p"
    using s1(2) by (simp add: replay_state_def)
  have off: "unat (RsTarget s1 + ucast n) = ?q" "ucast n \<le> RsTarget s1 + (ucast n :: u32)"
    using offset_step [of "RsTarget s1" n] tgt ty1(2) le Cons.prems(9) by simp_all
  have start: "starts_at ?q ?fs"
    using starts_at_heads [of ?q xs ty] by (auto simp: starts_at_def append_eq_Cons_conv)
  have st: "replay_state A B R ?fs ?q (s1\<lparr>RsTarget := RsTarget s1 + ucast n\<rparr>)"
    by (rule replay_gap [OF s1(2) shifted_starts(1) [OF sh(2) start] _ off(1)]) simp
  have t2: "unat (t + 2) = unat t + 2" "\<not> t + 2 > word_of_nat (length U) - 2"
    using i(2) Cons.prems(3) unat_table_size [OF Cons.prems(3)]
    by (simp_all add: unat_add_u32 not_less word_le_nat_alt unat_sub)
  have "\<exists>s' t'. ProcessHeads g (runtime_args cfg ok sz U d) (t + 2) (s1\<lparr>RsTarget := RsTarget s1 + ucast n\<rparr>) = Inr (t', s') \<and>
      unat t' = unat (t + 2) + 2 * length xs + 2 \<and> replay_state A B R gs (heads_next ?q xs + fix_size ty) s'"
    by (rule Cons.IH [of "pre @ enc_head h"])
      (use Cons.prems t2 st ty1 le shifted_starts(3) [OF sh(2) start] f in simp_all)
  then show ?case
    unfolding f using i(2) dec off(2) t2 
    by (subst ProcessHeads_runtime_unfold [OF _ i(1) [symmetric] s1(1) refl]) (auto simp: h)
qed


lemma align_up_add: "4 dvd n \<Longrightarrow> align_up (n + m) 4 = n + align_up m 4"
  by (auto simp: align_up_def elim!: dvdE)

lemma ProcessRoots_runtime_unfold:
  assumes "unat t + 4 \<le> length U" "f = get_word 4 U (unat t)" "t \<le> word_of_nat (length U) - 6"
    "\<not> 2 ^ 32 \<le> unat (RsTarget s) + unat f"
  shows "ProcessRoots (Suc g) (runtime_args cfg ok sz U d) t s =
     bindR (ProcessHeads (unat (word_of_nat (length U) :: u32)) (runtime_args cfg ok sz U d) (t + 4)
              (s\<lparr>RsTarget := RsTarget s + f\<rparr>)) (\<lambda>(t', s).
     assertR (t' \<le> ALIGN_VALUE t' 4) (ProcessRoots g (runtime_args cfg ok sz U d) (ALIGN_VALUE t' 4) s))"
proof -
  have [simp]: "s\<lparr>RsRuntime := RsRuntime s, RsTarget := q\<rparr> = s\<lparr>RsTarget := q\<rparr>" for q
    by (cases s) simp
  have [simp]: "ArgIsRuntime (runtime_args cfg ok sz U d)" "ArgTable (runtime_args cfg ok sz U d) = (\<lambda>_. U)"
    "ArgTableSize (runtime_args cfg ok sz U d) = word_of_nat (length U)"
    by (simp_all add: runtime_args_def)
  show ?thesis
    using assms by (simp add: ReadUnaligned32_def read_word_def Let_def AddU32_eq)
qed

lemma root_end_le: "roots_end p rts \<le> n \<Longrightarrow> p \<le> n"
proof (induction p rts rule: roots_end.induct)
  case (2 p rt rts)
  then have "root_end p rt \<le> n"
    by simp
  then show ?case
    using heads_next_ge [of "p + unat (fst rt)" "fst (snd rt)"] by (cases rt) auto
qed simp

lemma ProcessRoots_runtime:
  assumes "U = pre @ enc_roots rts" "length pre = unat t" "4 dvd unat t" "length U < 4294967296" "8 \<le> length U"
    "replay_state A B R (roots_fixups p rts) p s" "list_all good_root rts"
    "roots_end p rts \<le> unat sz" "unat sz \<le> length A" "unat sz \<le> 4294963200"
    "shifted d p (roots_fixups p rts) A B" "length rts < f"
  shows "\<exists>s'. ProcessRoots f (runtime_args cfg ok sz U d) t s = Inr s' \<and> replay_state A B R [] (roots_end p rts) s'"
  using assms
proof (induction rts arbitrary: pre t p s f)
  case Nil
  obtain g where "f = Suc g"
    using Nil by (cases f) auto
  moreover have "\<not> t \<le> word_of_nat (length U) - 6"
    using Nil unat_table_size [of U] by (simp add: enc_roots_def word_le_nat_alt unat_sub)
  ultimately show ?case
    using Nil.prems(6) by (simp add: runtime_args_def)
next
  case (Cons rt rts)
  obtain o1 xs ty where rt: "rt = (o1, xs, ty)"
    by (cases rt)
  obtain g where f: "f = Suc g" "length rts < g"
    using Cons.prems(12) by (cases f) auto
  let ?a = "runtime_args cfg ok sz U d" and ?r = "p + unat o1" and ?n = "2 * length xs + 2"
  let ?e = "root_end p rt" and ?gs = "roots_fixups (root_end p rt) rts"
  have U: "U = (pre @ le_to_bytes 4 (unat o1)) @ enc_heads (xs @ [(ty, 0x0FFF)]) @ pad4 ?n @ enc_roots rts"
    using Cons.prems(1) by (simp add: enc_roots_def enc_root_def rt)
  have len: "unat t + length (enc_root rt) \<le> length U" "length (enc_root rt) = 4 + align_up ?n 4"
    using Cons.prems(1,2) length_pad4 [of ?n] by (simp_all add: enc_roots_def enc_root_def rt)
  have t8: "unat t + 8 \<le> length U"
    using len(1) length_enc_root(2) [of rt] by simp
  have sz: "unat (word_of_nat (length U) :: u32) = length U"
    using Cons.prems(4) by (rule unat_table_size)
  have first: "get_word 4 U (unat t) = o1"
    using get_word_enc [of 4 pre o1] Cons.prems(2) by (simp add: U)
  have in_table: "t \<le> word_of_nat (length U) - 6"
    using t8 sz by (simp add: word_le_nat_alt unat_sub)
  have fix_le: "?e \<le> unat sz" "?r \<le> heads_next ?r xs"
    using Cons.prems(8) root_end_le [of "root_end p rt" rts "unat sz"] heads_next_ge [of ?r xs] by simp_all
  have tgt: "unat (RsTarget s) = p"
    using Cons.prems(6) by (simp add: replay_state_def)
  have no: "\<not> 2 ^ 32 \<le> unat (RsTarget s) + unat o1" and q: "unat (RsTarget s + o1) = ?r"
    using fix_le Cons.prems(10) tgt by (simp_all add: rt unat_add_u32)
  let ?fs = "fixups ?r xs @ (ty, heads_next ?r xs) # ?gs"
  have fs: "roots_fixups p (rt # rts) = ?fs"
    by (simp add: rt)
  have start: "starts_at ?r ?fs"
    using starts_at_heads [of ?r xs ty] by (auto simp: starts_at_def append_eq_Cons_conv)
  note sh = shifted_starts [OF Cons.prems(11) [unfolded fs] start]
  have st: "replay_state A B R ?fs ?r (s\<lparr>RsTarget := RsTarget s + o1\<rparr>)"
    by (rule replay_gap [OF Cons.prems(6) [unfolded fs] sh(1,2) q])
  have t4: "unat (t + 4) = unat t + 4"
    using t8 Cons.prems(4) by (simp add: unat_add_u32)
  obtain s1 t' where s1: "ProcessHeads (unat (word_of_nat (length U) :: u32)) ?a (t + 4) (s\<lparr>RsTarget := RsTarget s + o1\<rparr>) = Inr (t', s1)"
    "unat t' = unat (t + 4) + 2 * length xs + 2" "replay_state A B R ?gs ?e s1"
  proof -
    have "length xs < length U"
      unfolding U by simp
    then have "length xs < unat (word_of_nat (length U) :: u32)"
      by (simp only: sz)
    with ProcessHeads_runtime [OF U _ Cons.prems(4) st, of "t + 4" sz d "unat (word_of_nat (length U) :: u32)" cfg ok]
      Cons.prems(2,7,9,10) fix_le sh(3) t4 that show thesis
      by (auto simp: rt good_root_def)
  qed
  have al: "unat (ALIGN_VALUE t' 4) = unat t + length (enc_root rt)" "t' \<le> ALIGN_VALUE t' 4"
  proof -
    have eq: "align_up (unat t') 4 = unat t + length (enc_root rt)"
      using align_up_add [of "unat t + 4" ?n] Cons.prems(3) by (simp add: s1(2) t4 len(2))
    have "align_up (unat t') 4 < 4294967296"
      using eq len(1) Cons.prems(4) by simp
    then show "unat (ALIGN_VALUE t' 4) = unat t + length (enc_root rt)"
      by (subst unat_ALIGN_VALUE) (simp_all add: IS_POW2_def eq)
    with eq show "t' \<le> ALIGN_VALUE t' 4"
      by (metis align_up_ge word_le_nat_alt)
  qed
  have "shifted d ?e ?gs A B"
    using Cons.prems(11) root_fixups_end [of p rt] by (simp add: shifted_append)
  then have "\<exists>s'. ProcessRoots g ?a (ALIGN_VALUE t' 4) s1 = Inr s' \<and> replay_state A B R [] (roots_end ?e rts) s'"
    by (intro Cons.IH [of "pre @ enc_root rt"])
      (use Cons.prems al(1) s1(3) f length_enc_root(1) [of rt] in \<open>simp_all add: enc_roots_def\<close>)
  then show ?case
    unfolding f using t8 al(2) s1(1)
    by (subst ProcessRoots_runtime_unfold [OF _ first [symmetric] in_table no]) auto
qed


section \<open>Relocating a well-formed image\<close>

lemma unat_LOAD_TABLE_SIZE: "8 dvd unat (UE_LOAD_TABLE_SIZE t)"
proof -
  have "unat (UE_LOAD_TABLE_SIZE t) = unat t * 8 mod 2 ^ 32"
    by (simp add: UE_LOAD_TABLE_SIZE_def push_bit_eq_mult unat_word_ariths(2))
  moreover have "(8 :: nat) dvd unat t * 8 mod 2 ^ 32"
    by (subst dvd_mod_iff) simp_all
  ultimately show ?thesis
    by simp
qed

lemma wf_ue_reloc_table:
  assumes "wf_ue c"
  shows "8 dvd unat (RelocTableSize c)" "8 dvd unat (LoadTablesFileOffset c)"
    "unat (LoadTablesFileOffset c) + unat (RelocTableSize c) \<le> length (UeFileBytes c)"
proof -
  let ?ts = "ue_load_tables c"
  have r: "RelocTableSize c = (if ?ts \<noteq> [] \<and> UE_LOAD_TABLE_ID (hd ?ts) = 0 then UE_LOAD_TABLE_SIZE (hd ?ts) else 0)"
    and tot: "unat (LoadTablesFileOffset c) + tables_total ?ts = unat (UnsignedFileSize c)"
    and len: "length (UeFileBytes c) = unat (UnsignedFileSize c)"
    using assms by (simp_all add: wf_ue_def wf_load_tables_def wf_ue_header_def)
  show "8 dvd unat (RelocTableSize c)"
    by (simp add: r unat_LOAD_TABLE_SIZE)
  show "8 dvd unat (LoadTablesFileOffset c)"
    using assms by (simp add: wf_ue_def wf_ue_image_def)
  have "unat (RelocTableSize c) \<le> tables_total ?ts"
    unfolding r by (cases ?ts) auto
  then show "unat (LoadTablesFileOffset c) + unat (RelocTableSize c) \<le> length (UeFileBytes c)"
    using tot len by simp
qed

lemma wf_ue_image_size:
  assumes "wf_ue c"
  shows "4096 dvd unat (ImageSize c)" "unat (ImageSize c) \<le> 4294963200"
proof -
  have al: "4096 dvd unat (SegmentAlignment c)"
    using assms by (simp add: wf_ue_def wf_ue_header_def)
  have tot: "4096 dvd image_total (ue_segments c)"
    using image_total_dvd [OF wf_ue_data(1) [OF assms]] al by (rule dvd_trans [rotated])
  have off: "XIP c \<Longrightarrow> 4096 dvd unat (SegmentsFileOffset c)"
    using assms al by (auto simp: wf_ue_def wf_ue_header_def intro: dvd_trans)
  have "unat (ImageSize c) = (image_total (ue_segments c) + (if XIP c then unat (SegmentsFileOffset c) else 0)) mod 2 ^ 32"
    using assms by (simp add: wf_ue_def wf_ue_image_def unat_word_ariths(1) unat_of_nat take_bit_eq_mod mod_simps)
  moreover have "4096 dvd (image_total (ue_segments c) + (if XIP c then unat (SegmentsFileOffset c) else 0)) mod 2 ^ 32"
    using tot off by (subst dvd_mod_iff) auto
  ultimately show dvd: "4096 dvd unat (ImageSize c)"
    by simp
  then show "unat (ImageSize c) \<le> 4294963200"
    using u32_less [of "ImageSize c"] by (auto elim!: dvdE)
qed

text \<open>A context whose runtime buffers are empty, as a zeroed allocation has them.\<close>

definition fresh_runtime :: "ue_runtime \<Rightarrow> bool" where
  "fresh_runtime R \<longleftrightarrow> FixupSize R = 0 \<and> FixupData R = [] \<and> UnchainedRelocsSize R = 0 \<and> UnchainedRelocs R = []"

definition ue_loaded :: "ue_context \<Rightarrow> bool" where
  "ue_loaded c \<longleftrightarrow>
     (\<exists>d. UeImageBuffer c = Destination d \<and> unat (ImageSize c) \<le> length (Bytes d))"

definition runtime_fits :: "ue_context \<Rightarrow> ue_runtime option \<Rightarrow> bool" where
  "runtime_fits c Rt \<longleftrightarrow>
     (\<forall>R. Rt = Some R \<longrightarrow> fresh_runtime R \<and> unat (ImageSize c) < 2 ^ 31 \<and> unat (RelocTableSize c) < 2 ^ 31)"

lemma reloc_inv:
  assumes "wf_ue c" "ue_loaded c" "runtime_fits c Rt" "RelocTableSize c \<noteq> 0"
  shows "roots_inv (ue_reloc_args cfg ok c ch b) 0
      \<lparr>RsImage = UeImageBytes c, RsTarget = 0, RsRuntime = Rt, RsPointer = 0, RsData = D\<rparr>"
    "fixed_table (ue_reloc_args cfg ok c ch b)"
proof -
  obtain d where d: "UeImageBuffer c = Destination d" "unat (ImageSize c) \<le> length (Bytes d)"
    using assms(2) by (auto simp: ue_loaded_def)
  note t = wf_ue_reloc_table [OF assms(1)]
  have "8 \<le> unat (RelocTableSize c)"
    using t(1) assms(4) by (intro dvd_imp_le) (simp_all add: word_gt_0_no unat_gt_0)
  moreover have "4 dvd unat (RelocTableSize c)"
    using t(1) by (auto elim!: dvdE)
  ultimately show "roots_inv (ue_reloc_args cfg ok c ch b) 0
      \<lparr>RsImage = UeImageBytes c, RsTarget = 0, RsRuntime = Rt, RsPointer = 0, RsData = D\<rparr>"
    using assms(3) d t(3) wf_ue_image_size(2) [OF assms(1)]
    by (auto simp: roots_inv_def table_ok_def room_def rt_room_def rt_sizes_def rt_aligned_def rt_len_def fresh_runtime_def
        runtime_fits_def ue_reloc_args_def UeImageBytes_def split: option.splits)
  show "fixed_table (ue_reloc_args cfg ok c ch b)"
    by (auto simp: fixed_table_def ue_reloc_args_def d)
qed


text \<open>What a relocation leaves behind: the recorded roots and the frame.\<close>

definition ue_reloc_post :: "ue_context \<Rightarrow> ue_runtime option \<Rightarrow> u8 list \<times> ue_runtime option \<Rightarrow> bool" where
  "ue_reloc_post c Rt res \<longleftrightarrow>
     changes_only 0 (unat (ImageSize c)) (UeImageBytes c) (fst res) \<and>
     (Rt = None \<longleftrightarrow> snd res = None)"

lemma InternaRelocateImage_wp:
  assumes "wf_ue c" "ue_loaded c" "runtime_fits c Rt"
  shows "wp (InternaRelocateImage (ue_reloc_args cfg ok c ch b) (UeImageBytes c) Rt D) (ue_reloc_post c Rt)"
proof (cases "RelocTableSize c = 0 \<or> ArgAdjust (ue_reloc_args cfg ok c ch b) = 0 \<and> \<not> ch")
  case True
  then show ?thesis
    by (auto simp: InternaRelocateImage_def ue_reloc_args_def ue_reloc_post_def)
next
  case False
  let ?a = "ue_reloc_args cfg ok c ch b"
  let ?s = "\<lparr>RsImage = UeImageBytes c, RsTarget = 0, RsRuntime = Rt, RsPointer = 0, RsData = D\<rparr>"
  have sz: "ArgTableSize ?a = RelocTableSize c" "ArgChaining ?a = ch" "ArgImageSize ?a = ImageSize c"
    by (simp_all add: ue_reloc_args_def)
  have nz: "RelocTableSize c \<noteq> 0"
    using False by simp
  note inv = reloc_inv(1) [OF assms nz, of cfg ok ch b D]
  have "8 \<le> unat (RelocTableSize c)"
    using inv by (simp add: roots_inv_def sz)
  then have "wp (ProcessRoots (unat (ArgTableSize ?a)) ?a 0 ?s) (\<lambda>s'. \<exists>rts. roots_post (unat (ArgTableSize ?a)) ?a 0 ?s s' rts)"
    by (intro ProcessRoots_wp [OF inv]) (simp add: sz)
  then have "wp (ProcessRoots (unat (ArgTableSize ?a)) ?a 0 ?s) (\<lambda>s'. ue_reloc_post c Rt (RsImage s', RsRuntime s'))"
    by (rule wp_mono) (auto simp: roots_post_def relocates_def ue_reloc_post_def sz unchained_opt_def
        intro: changes_only_mono split: option.splits)
  then show ?thesis
    using False by (auto simp: InternaRelocateImage_def sz)
qed

lemma take_drop_same:
  assumes "take n (drop x A) = take n (drop x B)"
  shows "same_range x (x + n) A B"
  unfolding same_range_def
proof (intro allI impI)
  fix i
  assume "x \<le> i" "i < x + n" "i < length A" "i < length B"
  then show "B ! i = A ! i"
    using arg_cong [OF assms, of "\<lambda>l. l ! (i - x)"] by (simp add: less_diff_conv2)
qed

lemma same_range_join: "same_range p q A B \<Longrightarrow> same_range q e A B \<Longrightarrow> same_range p e A B"
  unfolding same_range_def by (meson not_le)

lemma shifted_zero:
  assumes "shifted 0 p fs A B" "length A = length B" "fixups_end p fs \<le> length A"
  shows "same_range p (fixups_end p fs) A B"
  using assms
proof (induction fs arbitrary: p)
  case (Cons f fs)
  let ?e = "snd f + fix_size (fst f)"
  have e: "fixups_end p (f # fs) = fixups_end ?e fs"
    by (simp add: fixups_end_def)
  have le: "?e \<le> fixups_end ?e fs"
    using Cons.prems(1) by (intro shifted_end [of 0 _ _ A B]) simp
  have "take (fix_size (fst f)) (drop (snd f) A) = take (fix_size (fst f)) (drop (snd f) B)"
  proof (cases "fst f = UeReloc64")
    case True
    then show ?thesis
      using Cons.prems le e get_word_bytes [of 8 A "snd f" B, where 'w = 64]
      by (simp add: shift_at_def fix_size_def)
  next
    case False
    then show ?thesis
      using Cons.prems le e get_word_bytes [of 4 A "snd f" B, where 'w = 32]
      by (simp add: shift_at_def fix_size_def)
  qed
  then have "same_range (snd f) ?e A B"
    by (rule take_drop_same)
  moreover have "same_range ?e (fixups_end ?e fs) A B"
    using Cons e by simp
  moreover have "same_range p (snd f) A B"
    using Cons.prems(1) by simp
  ultimately show ?case
    unfolding e by (blast intro: same_range_join)
qed (simp add: fixups_end_def same_range_def)


lemma length_enc_roots: "8 * length rts \<le> length (enc_roots rts)" "4 dvd length (enc_roots rts)"
proof (induction rts)
  case (Cons rt rts)
  {
    case 1
    show ?case
      using Cons length_enc_root(2) [of rt] by (simp add: enc_roots_def)
  next
    case 2
    show ?case
      using Cons length_enc_root(1) [of rt] by (simp add: enc_roots_def)
  }
qed (simp_all add: enc_roots_def)

lemma roots_fixups_end: "fixups_end p (roots_fixups p rts) = roots_end p rts"
proof (induction p rts rule: roots_end.induct)
  case (2 p rt rts)
  show ?case
    using 2 root_fixups_end [of p rt] by (cases "roots_fixups (root_end p rt) rts = []") (simp_all add: fixups_end_def)
qed (simp add: fixups_end_def)

lemma replay_all:
  assumes sh: "shifted d 0 (roots_fixups 0 rts) A B" "above (roots_end 0 rts) A B"
    and good: "list_all good_root rts" "roots_end 0 rts \<le> unat sz" "unat sz \<le> length A" "unat sz \<le> 4294963200"
    and R: "rt_sizes R" "UnchainedRelocs R = enc_roots rts" "FixupData R = enc_data A (roots_fixups 0 rts)"
  shows "\<exists>Rt. InternaRelocateImage (runtime_args cfg ok sz (UnchainedRelocs R) d) A (Some R) D = Inr (B, Rt)"
proof -
  let ?a = "runtime_args cfg ok sz (UnchainedRelocs R) d" and ?U = "UnchainedRelocs R"
  have len: "length A = length B"
    using sh(2) by (simp add: above_def)
  have small: "length ?U < 4294967296" and sz: "unat (ArgTableSize ?a) = length ?U"
    using R(1) u32_less [of "UnchainedRelocsSize R"] unat_table_size [of ?U] by (simp_all add: rt_sizes_def runtime_args_def)
  have same: "A = B" if "d = 0 \<or> rts = []"
  proof -
    have "same_range 0 (roots_end 0 rts) A B"
      using that shifted_zero [of 0 "roots_fixups 0 rts" A B] sh len good
      by (cases "rts = []") (auto simp: roots_fixups_end same_range_def)
    then show ?thesis
      using sh(2) len by (intro nth_equalityI) (auto simp: same_range_def above_def not_less)
  qed
  show ?thesis
  proof (cases "d = 0 \<or> rts = []")
    case True
    then show ?thesis
      using same [OF True] R(2) by (auto simp: InternaRelocateImage_def runtime_args_def enc_roots_def)
  next
    case False
    let ?s = "\<lparr>RsImage = A, RsTarget = 0, RsRuntime = Some R, RsPointer = 0, RsData = D\<rparr>"
    have U8: "8 * length rts \<le> length ?U" "8 \<le> length ?U"
      using length_enc_roots(1) [of rts] False by (cases rts; simp add: R(2))+
    then have "length rts < unat (ArgTableSize ?a)"
      unfolding sz using False by (cases rts) auto
    then obtain s' where "ProcessRoots (unat (ArgTableSize ?a)) ?a 0 ?s = Inr s'" "replay_state A B R [] (roots_end 0 rts) s'"
      using ProcessRoots_runtime [of ?U "[]" rts 0 A B R 0 ?s sz d "unat (ArgTableSize ?a)" cfg ok] small U8 good sh R len
      by (auto simp: replay_state_def)
    moreover from this have "RsImage s' = B"
      using mix_end [OF len sh(2)] by (simp add: replay_state_def)
    moreover have "ArgTableSize ?a \<noteq> 0" "ArgAdjust ?a \<noteq> 0"
      using sz U8 False by (auto simp: runtime_args_def)
    ultimately show ?thesis
      by (auto simp: InternaRelocateImage_def)
  qed
qed

text \<open>
  What a successful relocation tells about a relocation of the same image to another address: the
  same fixups are applied, and their values differ by the distance of the addresses.
\<close>

lemma relocate_displaced:
  assumes wf: "wf_ue c" "ue_loaded c" "runtime_fits c Rt"
    and run: "InternaRelocateImage (ue_reloc_args cfg ok c True b) (UeImageBytes c) Rt D = Inr (A, Rt1)"
  shows "\<exists>rts B. list_all good_root rts \<and> roots_end 0 rts \<le> unat (ImageSize c) \<and>
    unchained_opt Rt (enc_roots rts) (enc_data A (roots_fixups 0 rts)) Rt1 \<and>
    shifted (b' - b) 0 (roots_fixups 0 rts) A B \<and> above (roots_end 0 rts) A B \<and>
    InternaRelocateImage (ue_reloc_args cfg ok2 c True b') (UeImageBytes c) None D2 = Inr (B, None)"
proof (cases "RelocTableSize c = 0")
  case True
  then have "A = UeImageBytes c" "Rt1 = Rt"
    using run by (simp_all add: InternaRelocateImage_def ue_reloc_args_def)
  moreover have "Rt = Some R \<Longrightarrow> rt_sizes R" for R
    using wf(3) by (simp add: runtime_fits_def fresh_runtime_def rt_sizes_def)
  ultimately show ?thesis
    using True by (intro exI [of _ "[]"] exI [of _ A])
      (simp add: InternaRelocateImage_def ue_reloc_args_def above_def unchained_opt_def unchained_as_def enc_roots_def
        enc_data_def split: option.split)
next
  case False
  let ?a = "ue_reloc_args cfg ok c True b"
  let ?s = "\<lambda>Rt D. \<lparr>RsImage = UeImageBytes c, RsTarget = 0, RsRuntime = Rt, RsPointer = 0, RsData = D\<rparr>"
  have sz: "ArgTableSize ?a = RelocTableSize c" "ArgImageSize ?a = ImageSize c" "ArgChaining ?a"
    by (simp_all add: ue_reloc_args_def)
  note inv = reloc_inv [OF wf False, of cfg ok True b]
  obtain s' where s': "ProcessRoots (unat (RelocTableSize c)) ?a 0 (?s Rt D) = Inr s'" "A = RsImage s'" "Rt1 = RsRuntime s'"
    using run False by (auto simp: InternaRelocateImage_def sz bindR_Inr_iff)
  have "8 \<le> unat (RelocTableSize c)"
    using inv(1) by (simp add: roots_inv_def sz)
  then obtain rts where post: "roots_post (unat (RelocTableSize c)) ?a 0 (?s Rt D) s' rts"
    using wp_Inr [OF ProcessRoots_wp [OF inv(1), of "unat (RelocTableSize c)"] s'(1)] by (auto simp: sz)
  let ?fs = "roots_fixups 0 rts" and ?d = "b' - b"
  have good: "list_all good_root rts" "unat (RsTarget s') = roots_end 0 rts"
    and sh: "shifts (\<lambda>a. ProcessRoots (unat (RelocTableSize c)) a 0) (\<lambda>s. s) ?a (?s Rt D) ?fs s'"
    using post inv(2) by (simp_all add: roots_post_def)
  have rel: "relocates ?a (?s Rt D) ?fs (enc_roots rts) (enc_data A ?fs) s'"
    using post by (auto simp: roots_post_def relocates_def sz s'(2))
  have ch: "changes_only 0 (roots_end 0 rts) (UeImageBytes c) A" "roots_end 0 rts \<le> unat (ImageSize c)"
    using rel by (simp_all add: relocates_def good(2) s'(2) sz)
  obtain B D' where B: "ProcessRoots (unat (RelocTableSize c)) (other_args ok2 ?d ?a) 0 (?s None D2) =
      Inr (other_state B D' s')" "changes_only 0 (roots_end 0 rts) (UeImageBytes c) B" "shifted ?d 0 ?fs A B"
    using sh [unfolded shifts_def, rule_format, of "UeImageBytes c" ?d ok2 D2] by (auto simp: good(2) s'(2))
  have "other_args ok2 ?d ?a = ue_reloc_args cfg ok2 c True b'"
    by (simp add: ue_reloc_args_def)
  then have "InternaRelocateImage (ue_reloc_args cfg ok2 c True b') (UeImageBytes c) None D2 = Inr (B, None)"
    using B(1) False by (simp add: InternaRelocateImage_def) (simp add: ue_reloc_args_def)
  moreover have "above (roots_end 0 rts) A B"
    using changes_only_below_above(2) [OF ch(1)] changes_only_below_above(2) [OF B(2)] by (auto simp: above_def)
  ultimately show ?thesis
    using good(1) ch(2) rel B(3) by (auto simp: relocates_def s'(3))
qed

lemma runtime_roundtrip:
  assumes wf: "wf_ue c" "ue_loaded c" "runtime_fits c (Some R)"
    and run: "InternaRelocateImage (ue_reloc_args cfg ok c True b) (UeImageBytes c) (Some R) D = Inr (A, Rt1)"
  shows "\<exists>R1 B. Rt1 = Some R1 \<and> rt_sizes R1 \<and> RtMachine R1 = RtMachine R \<and>
    InternaRelocateImage (ue_reloc_args cfg ok2 c True b') (UeImageBytes c) None D2 = Inr (B, None) \<and>
    (\<exists>Rt. InternaRelocateImage (runtime_args cfg ok3 (ImageSize c) (UnchainedRelocs R1) (b' - b)) A (Some R1) D3 = Inr (B, Rt))"
proof -
  obtain rts B where B: "list_all good_root rts" "roots_end 0 rts \<le> unat (ImageSize c)"
    "unchained_opt (Some R) (enc_roots rts) (enc_data A (roots_fixups 0 rts)) Rt1"
    "shifted (b' - b) 0 (roots_fixups 0 rts) A B" "above (roots_end 0 rts) A B"
    "InternaRelocateImage (ue_reloc_args cfg ok2 c True b') (UeImageBytes c) None D2 = Inr (B, None)"
    using relocate_displaced [OF wf run] by blast
  obtain R1 where R1: "Rt1 = Some R1" "unchained_as R (enc_roots rts) (enc_data A (roots_fixups 0 rts)) R1"
    using B(3) by (auto simp: unchained_opt_def)
  have empty: "UnchainedRelocs R = []" "FixupData R = []"
    using wf(3) by (simp_all add: runtime_fits_def fresh_runtime_def)
  have "ue_reloc_post c (Some R) (A, Rt1)"
    using wp_Inr [OF InternaRelocateImage_wp [OF wf] run] by simp
  then have len: "unat (ImageSize c) \<le> length A"
    using wf(2) by (auto simp: ue_loaded_def UeImageBytes_def ue_reloc_post_def dest: changes_only_length)
  have "\<exists>Rt. InternaRelocateImage (runtime_args cfg ok3 (ImageSize c) (UnchainedRelocs R1) (b' - b)) A (Some R1) D3 = Inr (B, Rt)"
    by (rule replay_all [OF B(4,5,1,2) len wf_ue_image_size(2) [OF wf(1)]])
      (use R1(2) in \<open>simp_all add: unchained_as_def empty\<close>)
  then show ?thesis
    using R1 B(6) by (auto simp: unchained_as_def)
qed

end
