(* ===== verification/UeRelocImage.thy ===== *)
theory UeRelocImage
  imports UeReplay
begin

text \<open>
  The relocation functions of the library interface, \<^verbatim>\<open>UeRelocateImage\<close> and
  \<^verbatim>\<open>UeRelocateImageForRuntime\<close>: the former never faults on a loaded well-formed image, and the fixups
  it records let the latter move the image to where the former would have placed it.
\<close>

lemma set_UeImageBytes_id: "set_UeImageBytes c (UeImageBytes c) = c"
  by (cases c) (auto simp: set_UeImageBytes_def UeImageBytes_def split: image_buffer.splits)

text \<open>The parts of UeRelocateImage around InternaRelocateImage.\<close>

definition ue_entry_adjusted :: "ue_context \<Rightarrow> ue_context" where
  "ue_entry_adjusted c =
     (if XIP c then c\<lparr>EntryPointAddress := EntryPointAddress c - SegmentsFileOffset c\<rparr> else c)"

lemma ue_entry_adjusted_fields [simp]:
  "UeImageBuffer (ue_entry_adjusted c) = UeImageBuffer c" "UeImageBytes (ue_entry_adjusted c) = UeImageBytes c"
  "ue_reloc_args cfg ok (ue_entry_adjusted c) ch b = ue_reloc_args cfg ok c ch b"
  by (simp_all add: ue_entry_adjusted_def UeImageBytes_def ue_reloc_args_def cong: if_cong split: image_buffer.splits)

definition context_args_ok :: "ue_context \<Rightarrow> u64 \<Rightarrow> ue_runtime option \<Rightarrow> u32 \<Rightarrow> bool" where
  "context_args_ok c b Rt n \<longleftrightarrow>
     unat (SegmentAlignment c) dvd unat b \<and> (Rt = None \<longrightarrow> n = 0) \<and> (n = 0 \<or> 40 \<le> unat n)"

lemma UeRelocateImage_eq:
  assumes wf: "wf_ue c" "ue_loaded c" "context_args_ok c b Rt n"
  shows "UeRelocateImage cfg ok D c b Rt n =
    bindR (InternaRelocateImage (ue_reloc_args cfg ok c (ue_chaining c) b) (UeImageBytes c)
      (map_option (\<lambda>Rt. Rt\<lparr>RtMachine := UeMachine c\<rparr>) Rt) D)
    (\<lambda>(Img, Rt). Inr (set_UeImageBytes (ue_entry_adjusted c) Img, Rt))"
proof -
  note t = wf_ue_reloc_table [OF wf(1)]
  have len: "16 \<le> length (UeFileBytes c)" and pow2: "IS_POW2 (SegmentAlignment c)"
    using wf(1) by (simp_all add: wf_ue_def wf_ue_header_def)
  have loaded: "UeImageBuffer c \<noteq> NotLoaded"
    using wf(2) by (auto simp: ue_loaded_def)
  have al: "IS_ALIGNED (LoadTablesFileOffset c) 8" "IS_ALIGNED (RelocTableSize c) 8" "IS_ALIGNED b (ucast (SegmentAlignment c))"
    using t wf(3) pow2
    by (simp_all add: IS_ALIGNED_numeral IS_ALIGNED_iff_dvd IS_POW2_ucast_32_64 unat_ucast_32_64 context_args_ok_def)
  have n: "Rt \<noteq> None \<or> n = 0" "n = 0 \<or> 40 \<le> n"
    using wf(3) by (auto simp: context_args_ok_def word_le_nat_alt)
  have rd: "ReadUnaligned64 (UeFileBytes c) 8 = Inr (get_word 8 (UeFileBytes c) 8)"
    using len by (simp add: read_fixed_eq)
  show ?thesis
    unfolding UeRelocateImage_def Let_def rd bindR_simps
    by (simp only: al n assertR_simps ue_chaining_def [symmetric] ue_entry_adjusted_def [symmetric]
        ue_entry_adjusted_fields loaded not_False_eq_True)
qed

lemma UeRelocateImage_wp:
  assumes wf: "wf_ue c" "ue_loaded c" "context_args_ok c b Rt n" "runtime_fits c Rt"
  shows "wp (UeRelocateImage cfg ok D c b Rt n) (\<lambda>(c', Rt'). \<exists>Img. c' = set_UeImageBytes (ue_entry_adjusted c) Img \<and>
    changes_only 0 (unat (ImageSize c)) (UeImageBytes c) Img \<and> (Rt' = None \<longleftrightarrow> Rt = None))"
proof -
  have "runtime_fits c (map_option (\<lambda>Rt. Rt\<lparr>RtMachine := UeMachine c\<rparr>) Rt)"
    using wf(4) by (auto simp: runtime_fits_def fresh_runtime_def)
  from InternaRelocateImage_wp [OF wf(1,2) this, of cfg ok "ue_chaining c" b D] show ?thesis
    unfolding UeRelocateImage_eq [OF wf(1-3)] wp_bind
    by (rule wp_mono) (auto simp: ue_reloc_post_def)
qed

lemma UeRelocateImageForRuntime_eq:
  assumes "Address I \<noteq> 0" "rt_sizes R"
  shows "UeRelocateImageForRuntime cfg ok D I sz R b =
    bindR (InternaRelocateImage (runtime_args cfg ok sz (UnchainedRelocs R) (b - Address I)) (Bytes I) (Some R) D)
      (\<lambda>(x, _). Inr (I\<lparr>Bytes := x\<rparr>))"
proof -
  have "UnchainedRelocsSize R = word_of_nat (length (UnchainedRelocs R))"
    using assms(2) by (metis rt_sizes_def of_nat_unat ucast_id)
  moreover have "UnchainedRelocs R \<noteq> [] \<or> UnchainedRelocsSize R = 0"
    using assms(2) by (auto simp: rt_sizes_def unat_eq_zero)
  ultimately show ?thesis
    using assms(1) by (simp add: UeRelocateImageForRuntime_def runtime_args_def)
qed

lemma UeRelocate_runtime_roundtrip:
  assumes wf: "wf_ue c" "ue_loaded c" "ue_chaining c" "runtime_fits c (Some R)"
    and b: "context_args_ok c b (Some R) n" "context_args_ok c b' None 0" "b \<noteq> 0"
    and run: "UeRelocateImage cfg ok D c b (Some R) n = Inr (c1, Rt1)"
  shows "\<exists>R1 c2. Rt1 = Some R1 \<and> UeRelocateImage cfg ok2 D2 c b' None 0 = Inr (c2, None) \<and>
    UeRelocateImageForRuntime cfg ok3 D3 \<lparr>Address = b, Bytes = UeImageBytes c1\<rparr> (ImageSize c) R1 b' =
      Inr \<lparr>Address = b, Bytes = UeImageBytes c2\<rparr>"
proof -
  let ?R = "R\<lparr>RtMachine := UeMachine c\<rparr>"
  have fits: "runtime_fits c (Some ?R)"
    using wf(4) by (simp add: runtime_fits_def fresh_runtime_def)
  obtain A where A: "InternaRelocateImage (ue_reloc_args cfg ok c True b) (UeImageBytes c) (Some ?R) D = Inr (A, Rt1)"
    "c1 = set_UeImageBytes (ue_entry_adjusted c) A"
    using run wf(3) by (auto simp: UeRelocateImage_eq [OF wf(1,2) b(1)] bindR_Inr_iff)
  obtain R1 B Rt where "Rt1 = Some R1" "rt_sizes R1"
    "InternaRelocateImage (ue_reloc_args cfg ok2 c True b') (UeImageBytes c) None D2 = Inr (B, None)"
    "InternaRelocateImage (runtime_args cfg ok3 (ImageSize c) (UnchainedRelocs R1) (b' - b)) A (Some R1) D3 = Inr (B, Rt)"
    using runtime_roundtrip [OF wf(1,2) fits A(1), where ?ok2.0 = ok2 and ?b' = b' and ?D2.0 = D2 and ?ok3.0 = ok3 and ?D3.0 = D3]
    by blast
  moreover have "UeImageBytes (set_UeImageBytes (ue_entry_adjusted c) x) = x" for x
    using wf(2) by (auto simp: ue_loaded_def UeImageBytes_def set_UeImageBytes_def)
  ultimately show ?thesis
    using wf(3) b(3) by (simp add: A(2) UeRelocateImage_eq [OF wf(1,2) b(2)] UeRelocateImageForRuntime_eq)
qed

lemma UeRelocateImage_displaced:
  assumes wf: "wf_ue c" "ue_loaded c" "ue_chaining c" "runtime_fits c Rt"
    and b: "context_args_ok c b Rt n" "context_args_ok c b' None 0"
    and run: "UeRelocateImage cfg ok D c b Rt n = Inr (c1, Rt1)"
  shows "\<exists>fs c2. UeRelocateImage cfg ok2 D2 c b' None 0 = Inr (c2, None) \<and>
    fixups_end 0 fs \<le> unat (ImageSize c) \<and> shifted (b' - b) 0 fs (UeImageBytes c1) (UeImageBytes c2) \<and>
    above (fixups_end 0 fs) (UeImageBytes c1) (UeImageBytes c2)"
proof -
  let ?Rt = "map_option (\<lambda>R. R\<lparr>RtMachine := UeMachine c\<rparr>) Rt"
  have fits: "runtime_fits c ?Rt"
    using wf(4) by (auto simp: runtime_fits_def fresh_runtime_def)
  obtain A where A: "InternaRelocateImage (ue_reloc_args cfg ok c True b) (UeImageBytes c) ?Rt D = Inr (A, Rt1)"
    "c1 = set_UeImageBytes (ue_entry_adjusted c) A"
    using run wf(3) by (auto simp: UeRelocateImage_eq [OF wf(1,2) b(1)] bindR_Inr_iff)
  obtain rts B where "roots_end 0 rts \<le> unat (ImageSize c)"
    "shifted (b' - b) 0 (roots_fixups 0 rts) A B" "above (roots_end 0 rts) A B"
    "InternaRelocateImage (ue_reloc_args cfg ok2 c True b') (UeImageBytes c) None D2 = Inr (B, None)"
    using relocate_displaced [OF wf(1,2) fits A(1), of b' ok2 D2] by blast
  moreover have "UeImageBytes (set_UeImageBytes (ue_entry_adjusted c) x) = x" for x
    using wf(2) by (auto simp: ue_loaded_def UeImageBytes_def set_UeImageBytes_def)
  ultimately show ?thesis
    using wf(3) by (intro exI [of _ "roots_fixups 0 rts"] exI [of _ "set_UeImageBytes (ue_entry_adjusted c) B"])
      (simp add: A(2) UeRelocateImage_eq [OF wf(1,2) b(2)] roots_fixups_end)
qed

end
