(* ===== verification/UeDebug.thy ===== *)
theory UeDebug
  imports UeRelocImage
begin

text \<open>
  The debug table of UE images (\<^verbatim>\<open>InternalGetDebugTable\<close>, \<^verbatim>\<open>UeGetSymbolsPath\<close>,
  \<^verbatim>\<open>UeLoaderGetImageDebugAddress\<close> and \<^verbatim>\<open>UeGetSegmentNames\<close> of \<^verbatim>\<open>BaseUeImageLib/UeImageLib.c\<close>).
\<close>

section \<open>The debug table\<close>

abbreviation (input) MIN_SIZE_OF_UE_DEBUG_TABLE :: u32 where "MIN_SIZE_OF_UE_DEBUG_TABLE \<equiv> 3"
abbreviation (input) sizeof_UE_SEGMENT_NAME :: u32 where "sizeof_UE_SEGMENT_NAME \<equiv> 8"

definition UE_DEBUG_TABLE_IMAGE_INFO_SYM_SUBTRAHEND_FACTOR :: "u8 \<Rightarrow> u8" where
  "UE_DEBUG_TABLE_IMAGE_INFO_SYM_SUBTRAHEND_FACTOR ImageInfo = ImageInfo AND 0x03"

text \<open>The pointer DebugTable is an offset into the file.\<close>

definition CheckDebugTable :: "ue_context \<Rightarrow> u32 \<Rightarrow> u32 \<Rightarrow> nat result" where
  "CheckDebugTable Context LoadTableFileOffset LoadTableFileSize =
     (let (Overflow, LoadTableExtraSize) = BaseOverflowSubU32 LoadTableFileSize MIN_SIZE_OF_UE_DEBUG_TABLE in
      if Overflow then fail RETURN_VOLUME_CORRUPTED
      else
        bindR (readU8 (UeFileBytes Context) (unat LoadTableFileOffset + 1)) (\<lambda>SymbolsPathLength.
        let NumSegments = ucast (LastSegmentIndex Context) + 1 :: u16;
            MinLoadTableExtraSize = ucast SymbolsPathLength + ucast NumSegments * sizeof_UE_SEGMENT_NAME
        in if MinLoadTableExtraSize > LoadTableExtraSize then fail RETURN_VOLUME_CORRUPTED
           else Inr (unat LoadTableFileOffset)))"

fun FindDebugTable :: "ue_context \<Rightarrow> u32 list \<Rightarrow> u32 \<Rightarrow> nat result" where
  "FindDebugTable Context [] LoadTableFileOffset = fail RETURN_NOT_FOUND"
| "FindDebugTable Context (FileInfo # Infos) LoadTableFileOffset =
     (if UE_LOAD_TABLE_ID FileInfo \<noteq> UeLoadTableIdDebug
      then FindDebugTable Context Infos (LoadTableFileOffset + UE_LOAD_TABLE_SIZE FileInfo)
      else CheckDebugTable Context LoadTableFileOffset (UE_LOAD_TABLE_SIZE FileInfo))"

definition InternalGetDebugTable :: "ue_context \<Rightarrow> nat result" where
  "InternalGetDebugTable Context =
     bindR (read_load_tables Context) (\<lambda>Infos. FindDebugTable Context Infos (LoadTablesFileOffset Context))"

text \<open>The symbols path is returned as its offset in the file and its size.\<close>

definition UeGetSymbolsPath :: "ue_context \<Rightarrow> (nat \<times> u32) result" where
  "UeGetSymbolsPath Context =
     bindR (InternalGetDebugTable Context) (\<lambda>DebugTable.
     bindR (readU8 (UeFileBytes Context) (DebugTable + 1)) (\<lambda>SymbolsPathLength.
     if SymbolsPathLength = 0 then fail RETURN_NOT_FOUND
     else
       bindR (readU8 (UeFileBytes Context) (DebugTable + 2 + unat SymbolsPathLength)) (\<lambda>Terminator.
       if Terminator \<noteq> 0 then fail RETURN_VOLUME_CORRUPTED
       else Inr (DebugTable + 2, ucast SymbolsPathLength + 1))))"

text \<open>A status other than success of the debug table lookup is not an error here.\<close>

definition UeLoaderGetImageDebugAddress :: "ue_context \<Rightarrow> u64 result" where
  "UeLoaderGetImageDebugAddress Context =
     (case InternalGetDebugTable Context of
        Inl (Status s) \<Rightarrow> Inr (UeLoaderGetImageAddress Context)
      | Inl e \<Rightarrow> Inl e
      | Inr DebugTable \<Rightarrow>
          bindR (readU8 (UeFileBytes Context) DebugTable) (\<lambda>ImageInfo.
          let SymOffsetFactor = UE_DEBUG_TABLE_IMAGE_INFO_SYM_SUBTRAHEND_FACTOR ImageInfo;
              SymOffsetSubtrahend = ucast SymOffsetFactor * SegmentAlignment Context
          in Inr (UeLoaderGetImageAddress Context - ucast SymOffsetSubtrahend)))"

text \<open>The segment name table follows the terminator of the symbols path.\<close>

definition UeGetSegmentNames :: "ue_context \<Rightarrow> nat result" where
  "UeGetSegmentNames Context =
     bindR (InternalGetDebugTable Context) (\<lambda>DebugTable.
     bindR (readU8 (UeFileBytes Context) (DebugTable + 1)) (\<lambda>SymbolsPathLength.
     Inr (DebugTable + 2 + unat SymbolsPathLength + 1)))"

section \<open>The debug table lies in the file\<close>

definition path_length :: "ue_context \<Rightarrow> nat \<Rightarrow> nat" where
  "path_length c t = unat (get_word 1 (UeFileBytes c) (t + 1) :: u8)"

definition debug_table_in_file :: "ue_context \<Rightarrow> nat \<Rightarrow> bool" where
  "debug_table_in_file c t \<longleftrightarrow>
     t + 3 + path_length c t + 8 * (unat (LastSegmentIndex c) + 1) \<le> length (UeFileBytes c)"

lemma CheckDebugTable_wp:
  assumes "unat t + unat n \<le> length (UeFileBytes c)"
  shows "wp (CheckDebugTable c t n) (debug_table_in_file c)"
proof -
  define k where "k = ucast (LastSegmentIndex c) + (1 :: u16)"
  have "unat (ucast (LastSegmentIndex c) :: u16) = unat (LastSegmentIndex c)"
    using u8_less [of "LastSegmentIndex c"] by (simp add: unsigned_ucast_eq take_bit_nat_eq_self)
  then have k: "unat k = unat (LastSegmentIndex c) + 1"
    using u8_less [of "LastSegmentIndex c"] by (simp add: k_def unat_word_ariths(1))
  have m: "unat (ucast p + ucast k * 8 :: u32) = unat p + 8 * (unat (LastSegmentIndex c) + 1)" for p :: u8
    using u8_less [of p] u8_less [of "LastSegmentIndex c"]
    by (simp add: unat_word_ariths unat_ucast_8_32 unat_ucast_16_32 k)
  have fit: "debug_table_in_file c (unat t)"
    if "\<not> unat n < 3" "\<not> n - 3 < ucast (get_word 1 (UeFileBytes c) (unat t + 1) :: u8) + ucast k * 8"
  proof -
    have "unat (n - 3) = unat n - 3"
      using that(1) by (simp add: unat_sub word_le_nat_alt)
    then show ?thesis
      using that assms unfolding not_less word_le_nat_alt m debug_table_in_file_def path_length_def by linarith
  qed
  show ?thesis
    unfolding CheckDebugTable_def Let_def k_def [symmetric]
    using assms fit by (auto simp: SubU32_eq)
qed

lemma FindDebugTable_wp:
  assumes "unat t + tables_total ts \<le> length (UeFileBytes c)" "length (UeFileBytes c) < 2 ^ 32"
  shows "wp (FindDebugTable c ts t) (debug_table_in_file c)"
  using assms
proof (induction ts arbitrary: t)
  case (Cons x ts)
  then have "unat (t + UE_LOAD_TABLE_SIZE x) = unat t + unat (UE_LOAD_TABLE_SIZE x)"
    by (intro unat_add_u32) simp
  then show ?case
    using Cons CheckDebugTable_wp [of t "UE_LOAD_TABLE_SIZE x" c] by simp
qed simp

lemma InternalGetDebugTable_wp:
  assumes "wf_ue c"
  shows "wp (InternalGetDebugTable c) (debug_table_in_file c)"
proof -
  have "read_load_tables c = Inr (ue_load_tables c)"
    "unat (LoadTablesFileOffset c) + tables_total (ue_load_tables c) \<le> length (UeFileBytes c)"
    using assms by (simp_all add: wf_ue_def wf_ue_header_reads wf_load_tables_def wf_ue_header_def)
  then show ?thesis
    using FindDebugTable_wp wf_ue_data(3) [OF assms] by (simp add: InternalGetDebugTable_def)
qed

lemma UeGetSymbolsPath_wp:
  assumes "wf_ue c"
  shows "wp (UeGetSymbolsPath c) (\<lambda>(p, n). 2 \<le> unat n \<and> p + unat n \<le> length (UeFileBytes c) \<and>
    UeFileBytes c ! (p + unat n - 1) = 0)"
proof -
  have one: "unat (ucast l + 1 :: u32) = unat l + 1" for l :: u8
    using u8_less [of l] by (simp add: unat_word_ariths(1) unat_ucast_8_32)
  have byte: "b ! x = 0" if "x < length b" "get_word (Suc 0) b x = (0 :: u8)" for b x
    using that by (simp add: get_word_def take_Suc_conv_app_nth hd_drop_conv_nth flip: Cons_nth_drop_Suc)
  show ?thesis
    unfolding UeGetSymbolsPath_def wp_bind
    by (rule wp_mono [OF InternalGetDebugTable_wp [OF assms]])
      (auto simp: debug_table_in_file_def path_length_def one unat_gt_0 Suc_le_eq intro: byte)
qed

lemma UeGetSegmentNames_wp:
  assumes "wf_ue c"
  shows "wp (UeGetSegmentNames c) (\<lambda>p. p + 8 * (unat (LastSegmentIndex c) + 1) \<le> length (UeFileBytes c))"
  unfolding UeGetSegmentNames_def wp_bind
  by (rule wp_mono [OF InternalGetDebugTable_wp [OF assms]]) (auto simp: debug_table_in_file_def path_length_def)

end
