(* ===== verification/UeSample.thy ===== *)
theory UeSample
  imports UeDebug
begin

text \<open>
  A UE image with one segment, a relocation table that starts a chain of a 64-bit and a 32-bit
  fixup, and a debug table; its context after validation and after loading.
\<close>

definition ue_segment_data :: "u8 list" where
  "ue_segment_data = [0x00, 0x00, 0x08, 0x10, 0x00, 0x00, 0x00, 0x00, 0xFF, 0xCF, 0x00, 0x01, 0x00, 0x00, 0x00, 0x00]"

definition ue_reloc_table :: "u8 list" where
  "ue_reloc_table = [0x00, 0x00, 0x00, 0x00, 0xF1, 0xFF, 0x00, 0x00]"

definition ue_debug_table :: "u8 list" where
  "ue_debug_table = [0x01, 0x02, 0x61, 0x62, 0x00, 0x2E, 0x74, 0x65, 0x78, 0x74, 0x00, 0x00, 0x00, 0x00, 0x00, 0x00]"

definition ue_header_bytes :: "u8 list" where
  "ue_header_bytes =
     [0x55, 0x45, 0x09, 0x02, 0x08, 0x00, 0x00, 0x00, 0x01, 0x00, 0x00, 0x00, 0x00, 0x00, 0x00, 0x08,
      0x01, 0x00, 0x10, 0x00, 0x10, 0x00, 0x00, 0x00, 0x01, 0x00, 0x00, 0x00, 0x02, 0x00, 0x00, 0x20]"

definition ue_file :: "u8 list" where
  "ue_file = ue_header_bytes @ ue_segment_data @ ue_reloc_table @ ue_debug_table"

definition ue_file_buffer :: buffer where
  "ue_file_buffer = \<lparr>Address = 0x80000000, Bytes = ue_file\<rparr>"

definition ue_sample :: ue_context where
  "ue_sample =
     \<lparr> UeFileBuffer = ue_file_buffer, UnsignedFileSize = 72, UeSubsystem = 1, UeMachine = 1,
       FixedAddress = False, XIP = False, LastSegmentIndex = 0, SegmentsFileOffset = 32,
       SegmentAlignment = 4096, UeSegments = 16, SegmentImageInfoIterSize = 8, UeRelocsStripped = False,
       NumLoadTables = 2, LoadTablesFileOffset = 48, RelocTableSize = 8, LoadTables = 24,
       UeImageBuffer = NotLoaded, ImageSize = 4096, EntryPointAddress = 8, BaseAddress = 0x1000 \<rparr>"

lemmas ue_file_defs = ue_file_def ue_header_bytes_def ue_segment_data_def ue_reloc_table_def ue_debug_table_def

lemma ue_file_length: "length ue_file = 72"
  by (simp add: ue_file_defs)

lemma ue_file_fields:
  "get_word 2 ue_file 0 = (0x4555 :: u16)"
  "get_word (Suc 0) ue_file 2 = (0x09 :: u8)"
  "get_word (Suc 0) ue_file 3 = (0x02 :: u8)"
  "get_word 4 ue_file 4 = (0x08 :: u32)"
  "get_word 8 ue_file 8 = (0x0800000000000001 :: u64)"
  "get_word 4 ue_file 16 = (0x00100001 :: u32)"
  "get_word 4 ue_file 20 = (0x10 :: u32)"
  "get_word 4 ue_file 24 = (0x00000001 :: u32)"
  "get_word 4 ue_file 28 = (0x20000002 :: u32)"
  by (simp_all add: ue_file_defs get_word_def)

lemma ue_sample_segments: "segment_table ue_file 16 (Suc 0) = [\<lparr>SegImageInfo = 0x00100001, SegFileSize = 0x10\<rparr>]"
  by (simp add: segment_table_def ue_segment_def ue_file_fields)

lemma ue_sample_load_tables: "load_table ue_file 24 2 = [0x00000001, 0x20000002]"
  by (simp add: load_table_def ue_file_fields numeral_2_eq_2)

lemma ue_sample_packed:
  "UE_HEADER_BASE_ADDRESS 0x0800000000000001 = 0x1000"
  "UE_HEADER_SEGMENT_ALIGNMENT 0x0800000000000001 = 0x1000"
  "UE_HEADER_SUBSYSTEM 0x09 = 1" "UE_HEADER_ARCH 0x09 = 1"
  "UE_HEADER_NUM_LOAD_TABLES 0x02 = 2" "UE_HEADER_LAST_SEGMENT_INDEX 0x02 = 0"
  "UE_SEGMENT_SIZE 0x00100001 = 0x1000" "UE_SEGMENT_PERMISSIONS 0x00100001 = 1"
  "UE_LOAD_TABLE_ID 1 = 0" "UE_LOAD_TABLE_SIZE 1 = 8"
  "UE_LOAD_TABLE_ID 0x20000002 = 1" "UE_LOAD_TABLE_SIZE 0x20000002 = 0x10"
  by code_simp+

lemmas ue_init_rules =
  UeInitializeContextPreHash_def UeInitializeContextPostHash_def UeInitializeHeader_def
  InternalVerifySegments_def InternalInitializeContextLate_def InternalVerifyLoadTables_def
  read_segments_def read_load_tables_def ue_segments_def ue_load_tables_def zero_ue_context_def
  
  readU8_def readU16_def ReadUnaligned32_def ReadUnaligned64_def read_word_def Let_def
  IS_ALIGNED_def ALIGN_VALUE_def BaseOverflowAddU32_def RShiftU64_def ALIGN_VALUE_SUBTRAHEND_def
  ALIGN_VALUE_ADDEND_def

lemma ue_sample_init:
  "bindR (UeInitializeContextPreHash ue_file_buffer 72) UeInitializeContextPostHash = Inr ue_sample"
  by (simp add: ue_init_rules ue_file_buffer_def ue_file_length ue_file_fields ue_sample_segments
      ue_sample_load_tables ue_sample_packed ue_sample_def)

lemma ue_sample_wf: "wf_ue ue_sample"
proof -
  obtain c where c: "UeInitializeContextPreHash ue_file_buffer 72 = Inr c"
    "UeInitializeContextPostHash c = Inr ue_sample"
    using ue_sample_init by (auto simp: bindR_Inr_iff)
  then have "c = zero_ue_context ue_file_buffer 72"
    by (simp add: UeInitializeContextPreHash_def ue_file_buffer_def readU16_def read_word_def ue_file_length ue_file_fields)
  then show ?thesis
    using UeInitializeContextPostHash_wpx [of c] c(2)
    by (simp add: zero_ue_context_def ue_file_buffer_def ue_file_length ue_sample_def)
qed

text \<open>The image loaded at address 0x500000.\<close>

definition ue_destination :: buffer where
  "ue_destination = \<lparr>Address = 0x500000, Bytes = replicate 4096 0xAA\<rparr>"

definition ue_sample_image :: "u8 list" where
  "ue_sample_image = ue_segment_data @ replicate 4080 0"

definition ue_sample_loaded :: ue_context where
  "ue_sample_loaded = ue_sample\<lparr>UeImageBuffer := Destination \<lparr>Address = 0x500000, Bytes = ue_sample_image\<rparr>\<rparr>"

lemma ue_sample_ue_segments: "ue_segments ue_sample = [\<lparr>SegImageInfo = 0x00100001, SegFileSize = 0x10\<rparr>]"
  by (simp add: ue_segments_def ue_sample_def ue_file_buffer_def ue_sample_segments)

lemma ue_sample_load: "UeLoadImage ue_sample ue_destination 4096 = Inr ue_sample_loaded"
proof -
  have "take 16 (drop 32 ue_file) = ue_segment_data"
    by (simp add: ue_file_defs)
  then have "ue_loaded_image ue_sample 4096 = ue_sample_image"
    by (simp add: ue_loaded_image_def ue_sample_ue_segments ue_sample_packed ue_sample_image_def)
      (simp add: ue_sample_def ue_file_buffer_def)
  then show ?thesis
    using UeLoadImage_exact [OF ue_sample_wf, of ue_destination 4096]
    by (simp add: ue_sample_ue_segments ue_sample_packed ue_sample_loaded_def ue_destination_def)
      (simp add: ue_sample_def)
qed

section \<open>Relocation of the sample\<close>

text \<open>A cleared runtime context, what the relocation to 0x500000 records in it, and the relocated image.\<close>

definition ue_fresh :: ue_runtime where
  "ue_fresh = \<lparr>RtMachine = 0, FixupSize = 0, FixupData = [], UnchainedRelocsSize = 0, UnchainedRelocs = []\<rparr>"

definition ue_recorded :: ue_runtime where
  "ue_recorded =
     \<lparr>RtMachine = 1, FixupSize = 16,
      FixupData = [0x08, 0x00, 0x50, 0x00, 0x00, 0x00, 0x00, 0x00, 0x0C, 0x00, 0x50, 0x00, 0x00, 0x00, 0x00, 0x00],
      UnchainedRelocsSize = 8, UnchainedRelocs = [0x00, 0x00, 0x00, 0x00, 0x01, 0x00, 0xF0, 0xFF]\<rparr>"

definition ue_relocated_image :: "u8 list" where
  "ue_relocated_image =
     [0x08, 0x00, 0x50, 0x00, 0x00, 0x00, 0x00, 0x00, 0x0C, 0x00, 0x50, 0x00, 0x00, 0x00, 0x00, 0x00] @ replicate 4080 0"

lemma le_to_bytes_numeral:
  "le_to_bytes (numeral k) v = word_of_nat (v mod 256) # le_to_bytes (pred_numeral k) (v div 256)"
  by (subst numeral_eq_Suc) (rule le_to_bytes.simps)

lemma replicate_small: "replicate 2 x = [x, x]" "replicate 4 x = [x, x, x, x]" "replicate 6 x = [x, x, x, x, x, x]"
  "replicate 8 x = [x, x, x, x, x, x, x, x]"
  "replicate 16 x = [x, x, x, x, x, x, x, x, x, x, x, x, x, x, x, x]"
  by (simp_all add: numeral_eq_Suc)

lemmas ue_run_rules =
  BaseOverflowSubU32_def BaseOverflowAddU32_def Let_def ChainFixup_def ReadUnaligned32_def ReadUnaligned64_def readU16_def
  read_word_def get_word_def WriteUnaligned32_def WriteUnaligned64_def writeU16_def write_bytes_def
  UE_CHAINED_RELOC_FIXUP_VALUE_32_def UE_CHAINED_RELOC_FIXUP_VALUE_def UE_CHAINED_RELOC_FIXUP_NEXT_OFFSET_def
  UE_CHAINED_RELOC_FIXUP_NEXT_TYPE_def UE_RELOC_FIXUP_TYPE_def UE_RELOC_FIXUP_OFFSET_def UnchainReloc_def
  AppendUnchained_def CloseUnchained_def ReallocateRuntimePool_def CopyMem_def ZeroMem_def RShiftU64_def
  ALIGN_VALUE_def ALIGN_VALUE_ADDEND_def le_to_bytes_numeral replicate_small read_bytes_def
  ue_relocated_image_def ue_recorded_def

lemma ue_sample_chain_tail: "InternalProcessRelocChain (\<lambda>_. True) 4096 0x4FF000
  ([0x08, 0x00, 0x50, 0x00, 0x00, 0x00, 0x00, 0x00, 0xFF, 0xCF, 0x00, 0x01, 0x00, 0x00, 0x00, 0x00] @ replicate 4080 0) 0 8
  (Some \<lparr>RtMachine = 1, FixupSize = 8, FixupData = [0x08, 0x00, 0x50, 0x00, 0x00, 0x00, 0x00, 0x00],
      UnchainedRelocsSize = 6, UnchainedRelocs = [0x00, 0x00, 0x00, 0x00, 0x01, 0x00]\<rparr>) = Inr (ue_relocated_image, 12, Some ue_recorded)"
  by (subst InternalProcessRelocChain.simps) (simp add: ue_run_rules)

lemma ue_sample_chain: "InternalProcessRelocChain (\<lambda>_. True) 4096 0x4FF000 ue_sample_image 1 0
  (Some \<lparr>RtMachine = 1, FixupSize = 0, FixupData = [],
      UnchainedRelocsSize = 4, UnchainedRelocs = [0x00, 0x00, 0x00, 0x00]\<rparr>) = Inr (ue_relocated_image, 12, Some ue_recorded)"
  by (subst InternalProcessRelocChain.simps)
    (simp add: ue_run_rules ue_sample_image_def ue_segment_data_def ue_sample_chain_tail [simplified])

lemma ue_table_word: "get_word 4 (drop 48 ue_file) 0 = (0 :: u32)" "get_word 2 (drop 48 ue_file) 4 = (0xFFF1 :: u16)"
  by (simp_all add: get_word_def ue_file_defs)

lemma ue_sample_heads:
  "ProcessHeads 8 \<lparr>ArgCfg = cfg, ArgAlloc = \<lambda>_. True, ArgImageSize = 4096, ArgTable = \<lambda>Img. drop 48 ue_file,
      ArgTableSize = 8, ArgChaining = True, ArgAdjust = 0x4FF000, ArgIsRuntime = False\<rparr> 4
    \<lparr>RsImage = ue_sample_image, RsTarget = 0,
     RsRuntime = Some \<lparr>RtMachine = 1, FixupSize = 0, FixupData = [], UnchainedRelocsSize = 4, UnchainedRelocs = [0, 0, 0, 0]\<rparr>,
     RsPointer = 0, RsData = d\<rparr> =
   Inr (6, \<lparr>RsImage = ue_relocated_image, RsTarget = 12, RsRuntime = Some ue_recorded, RsPointer = 0, RsData = d\<rparr>)"
proof -
  have "UE_RELOC_FIXUP_TYPE 0xFFF1 = 1" "UE_RELOC_FIXUP_OFFSET 0xFFF1 = 0xFFF"
    by code_simp+
  moreover have "CloseUnchained (\<lambda>_. True) 0xFFF ue_recorded = Inr ue_recorded"
    by (simp add: ue_run_rules)
  ultimately show ?thesis
    by (simp add: ProcessHeads.simps(2) [of 7, unfolded Suc_numeral semiring_norm] ProcessHead_def readU16_def read_word_def
        ue_file_length ue_table_word ue_sample_chain UnchainReloc_def Let_def)
qed

lemma ue_sample_relocate:
  "UeRelocateImage cfg (\<lambda>_. True) d ue_sample_loaded 0x500000 (Some ue_fresh) 40 =
     Inr (set_UeImageBytes ue_sample_loaded ue_relocated_image, Some ue_recorded)"
proof -
  have "UnchainReloc (\<lambda>_. True) (Some \<lparr>RtMachine = 1, FixupSize = 0, FixupData = [], UnchainedRelocsSize = 0, UnchainedRelocs = []\<rparr>)
      (Some (le_to_bytes 4 0)) False 0 None =
    Inr (Some \<lparr>RtMachine = 1, FixupSize = 0, FixupData = [], UnchainedRelocsSize = 4, UnchainedRelocs = [0, 0, 0, 0]\<rparr>)"
    by (simp add: ue_run_rules)
  then show ?thesis
    by (simp add: UeRelocateImage_def ue_sample_loaded_def ue_sample_def IS_ALIGNED_def ALIGN_VALUE_SUBTRAHEND_def
      InternaRelocateImage_def ue_reloc_args_def set_UeImageBytes_def UeImageBytes_def ue_file_buffer_def ue_file_length
      ReadUnaligned64_def ReadUnaligned32_def read_word_def ue_file_fields ue_table_word ue_fresh_def
      ProcessRoots.simps(2) [of 7, unfolded Suc_numeral semiring_norm]
      ProcessRoots.simps(2) [of 6, unfolded Suc_numeral semiring_norm] BaseOverflowAddU32_def ue_sample_heads
      ALIGN_VALUE_def ALIGN_VALUE_ADDEND_def)
qed

end
