(* ===== verification/UeSpec.thy ===== *)
theory UeSpec
  imports UeSample PeSample
begin

text \<open>
  The properties of the UE image library: what validation accepts, what loading and relocation
  produce, the composition of the three, and the lookup of the symbols path.
\<close>

section \<open>Validation\<close>

text \<open>Validation is UeInitializeContextPreHash followed by UeInitializeContextPostHash.\<close>

lemma UeInitialize_wpx:
  assumes "Address Buffer \<noteq> 0" "length (Bytes Buffer) = unat Size"
  shows "wpx ((get_word 8 (Bytes Buffer) 8 :: u64) AND UE_HEADER_IMAGE_INFO_XIP \<noteq> 0)
    (bindR (UeInitializeContextPreHash Buffer Size) UeInitializeContextPostHash)
    (\<lambda>c. wf_ue c \<and> UeFileBuffer c = Buffer)"
proof (cases "unat Size < 24")
  case True
  then show ?thesis
    using assms(1) by (simp add: UeInitializeContextPreHash_def word_less_nat_alt)
next
  case False
  then have "wpx ((get_word 8 (Bytes Buffer) 8 :: u64) AND UE_HEADER_IMAGE_INFO_XIP \<noteq> 0)
    (UeInitializeContextPostHash (zero_ue_context Buffer Size)) (\<lambda>c. wf_ue c \<and> UeFileBuffer c = Buffer)"
    using UeInitializeContextPostHash_wpx [of "zero_ue_context Buffer Size"] assms(2) by (simp add: zero_ue_context_def)
  then show ?thesis
    using assms False
    by (auto simp: UeInitializeContextPreHash_def word_less_nat_alt readU16_def read_word_def)
qed

text \<open>C20: whatever the bytes of a file are, its validation ends, reads only inside of the file, and
  yields either an error status or a well-formed context of the file. An ASSERT can fail only where
  the header declares the image to execute in place.\<close>

theorem UeInitializeContext_wf:
  assumes "Address Buffer \<noteq> 0" "length (Bytes Buffer) = unat Size"
  shows "case bindR (UeInitializeContextPreHash Buffer Size) UeInitializeContextPostHash of
      Inr c \<Rightarrow> wf_ue c \<and> UeFileBuffer c = Buffer
    | Inl (Status s) \<Rightarrow> True
    | Inl AssertFailed \<Rightarrow> (get_word 8 (Bytes Buffer) 8 :: u64) AND UE_HEADER_IMAGE_INFO_XIP \<noteq> 0
    | Inl OutOfBounds \<Rightarrow> False
    | Inl OutOfFuel \<Rightarrow> False"
  using UeInitialize_wpx [OF assms]
  by (auto simp: wpx_def wp_def split: sum.splits stop.splits)

theorem UeInitializeContext_wf_witness:
  "bindR (UeInitializeContextPreHash ue_file_buffer 72) UeInitializeContextPostHash = Inr ue_sample \<and> wf_ue ue_sample"
  using UeInitializeContext_wf [of ue_file_buffer 72]
  by (simp add: ue_sample_init) (simp add: ue_file_buffer_def ue_file_length)

lemma wf_ue_size:
  assumes "wf_ue c" "\<not> XIP c"
  shows "unat (ImageSize c) = image_total (ue_segments c)"
proof -
  have "image_total (ue_segments c) < 2 ^ 32"
    using wf_ue_data(1) [OF assms(1)] by (simp add: wf_segments_def)
  moreover have "ImageSize c = word_of_nat (image_total (ue_segments c))"
    using assms by (simp add: wf_ue_def wf_ue_image_def)
  ultimately show ?thesis
    by (simp only: unat_of_nat) simp
qed



section \<open>Loading\<close>

lemma wf_ue_image_buffer [simp]: "wf_ue (c\<lparr>UeImageBuffer := x\<rparr>) = wf_ue c"
  by (simp add: wf_ue_def wf_ue_header_def wf_ue_image_def wf_load_tables_def ue_segments_def ue_load_tables_def
      cong: if_cong)

text \<open>C22: the loaded image holds the data of every segment, followed by zeros up to its size, and zeros
  from the end of the last segment up to the given size; the destination behind it is kept.\<close>

theorem UeLoadImage_contents:
  assumes "wf_ue c" "Address d \<noteq> 0" "unat (SegmentAlignment c) dvd unat (Address d)"
    and "image_total (ue_segments c) \<le> unat n" "unat n \<le> length (Bytes d)"
  shows "\<exists>img. UeLoadImage c d n = Inr (c\<lparr>UeImageBuffer := Destination (d\<lparr>Bytes := img\<rparr>)\<rparr>) \<and>
    length img = length (Bytes d) \<and> drop (unat n) img = drop (unat n) (Bytes d) \<and>
    (\<forall>i. image_total (ue_segments c) \<le> i \<longrightarrow> i < unat n \<longrightarrow> img ! i = 0) \<and>
    (\<forall>pre s post i. ue_segments c = pre @ s # post \<longrightarrow> i < seg_size s \<longrightarrow>
       img ! (image_total pre + i) =
         (if i < unat (SegFileSize s) then UeFileBytes c ! (unat (SegmentsFileOffset c) + file_total pre + i) else 0))"
proof -
  let ?i = "ue_loaded_image c (unat n)"
  have tot: "length (segment_bytes (UeFileBytes c) (unat (SegmentsFileOffset c)) (ue_segments c)) = image_total (ue_segments c)"
    by (rule length_segment_bytes [OF wf_ue_data(1,2) [OF assms(1)]])
  then have len: "length ?i = unat n"
    using assms(4) by (simp add: ue_loaded_image_def)
  have zero: "(?i @ drop (unat n) (Bytes d)) ! i = 0" if "image_total (ue_segments c) \<le> i" "i < unat n" for i
    using that tot len diff_less_mono [OF that(2,1)] by (simp add: ue_loaded_image_def nth_append)
  have data: "(?i @ drop (unat n) (Bytes d)) ! (image_total pre + i) =
      (if i < unat (SegFileSize s) then UeFileBytes c ! (unat (SegmentsFileOffset c) + file_total pre + i) else 0)"
    if "ue_segments c = pre @ s # post" "i < seg_size s" for pre s post i
  proof -
    have "image_total pre + i < unat n"
      using that assms(4) by (simp add: image_total_def)
    then show ?thesis
      using ue_loaded_image_nth [OF assms(1) that, of "unat n"] by (simp add: nth_append len)
  qed
  show ?thesis
  proof (intro exI conjI)
    show "UeLoadImage c d n = Inr (c\<lparr>UeImageBuffer := Destination (d\<lparr>Bytes := ?i @ drop (unat n) (Bytes d)\<rparr>)\<rparr>)"
      by (rule UeLoadImage_exact [OF assms])
  qed (use assms(5) zero data in \<open>simp_all add: len\<close>)
qed

theorem UeLoadImage_contents_witness:
  "\<exists>img. UeLoadImage ue_sample ue_destination 4096 = Inr (ue_sample\<lparr>UeImageBuffer := Destination (ue_destination\<lparr>Bytes := img\<rparr>)\<rparr>) \<and>
    img ! 3 = 0x10 \<and> img ! 4095 = 0"
proof -
  have f: "unat (SegmentAlignment ue_sample) = 4096" "unat (SegmentsFileOffset ue_sample) = 32" "UeFileBytes ue_sample = ue_file"
    by (simp_all add: ue_sample_def ue_file_buffer_def)
  have b: "ue_file ! 35 = 0x10"
    by (simp add: ue_file_defs)
  have h: "Address ue_destination \<noteq> 0" "unat (SegmentAlignment ue_sample) dvd unat (Address ue_destination)"
    "image_total (ue_segments ue_sample) \<le> unat (4096 :: u32)" "unat (4096 :: u32) \<le> length (Bytes ue_destination)"
    by (simp_all add: f ue_sample_ue_segments ue_sample_packed) (simp_all add: ue_destination_def)
  obtain img where img: "UeLoadImage ue_sample ue_destination 4096 = Inr (ue_sample\<lparr>UeImageBuffer := Destination (ue_destination\<lparr>Bytes := img\<rparr>)\<rparr>)"
    "\<forall>pre s post i. ue_segments ue_sample = pre @ s # post \<longrightarrow> i < seg_size s \<longrightarrow>
       img ! (image_total pre + i) = (if i < unat (SegFileSize s) then
         UeFileBytes ue_sample ! (unat (SegmentsFileOffset ue_sample) + file_total pre + i) else 0)"
    using UeLoadImage_contents [OF ue_sample_wf h] by blast
  have "ue_segments ue_sample = [] @ \<lparr>SegImageInfo = 0x00100001, SegFileSize = 0x10\<rparr> # []"
    by (simp add: ue_sample_ue_segments)
  from img(2) [rule_format, OF this, of 3] img(2) [rule_format, OF this, of 4095] show ?thesis
    using img(1) by (intro exI [of _ img]) (simp add: ue_sample_packed f b)
qed

section \<open>Relocation\<close>


lemma ue_sample_reloc_ok:
  "wf_ue ue_sample_loaded" "ue_loaded ue_sample_loaded" "ue_chaining ue_sample_loaded"
  "runtime_fits ue_sample_loaded (Some ue_fresh)" "context_args_ok ue_sample_loaded 0x500000 (Some ue_fresh) 40"
  "context_args_ok ue_sample_loaded 0x700000 None 0" "ImageSize ue_sample_loaded = 4096"
proof -
  show "wf_ue ue_sample_loaded"
    using ue_sample_wf by (simp add: ue_sample_loaded_def)
qed (simp_all add: ue_sample_loaded_def ue_sample_def ue_loaded_def ue_chaining_def ue_file_buffer_def ue_file_fields
    runtime_fits_def fresh_runtime_def ue_fresh_def context_args_ok_def ue_sample_image_def ue_segment_data_def)


text \<open>C24: relocating an image with chained fixups to one address and, with the fixups that were recorded
  on the way, at runtime to a second one gives the image relocated to the second address at once.\<close>

theorem UeRelocateImageForRuntime_equivalent:
  assumes "wf_ue c" "ue_loaded c" "ue_chaining c" "runtime_fits c (Some R)"
    and "context_args_ok c b (Some R) n" "context_args_ok c b' None 0" "b \<noteq> 0"
    and "UeRelocateImage cfg ok D c b (Some R) n = Inr (c1, Rt1)"
  shows "\<exists>R1 c2. Rt1 = Some R1 \<and> UeRelocateImage cfg ok2 D2 c b' None 0 = Inr (c2, None) \<and>
    UeRelocateImageForRuntime cfg ok3 D3 \<lparr>Address = b, Bytes = UeImageBytes c1\<rparr> (ImageSize c) R1 b' =
      Inr \<lparr>Address = b, Bytes = UeImageBytes c2\<rparr>"
  by (rule UeRelocate_runtime_roundtrip [OF assms])

theorem UeRelocateImageForRuntime_equivalent_witness:
  "\<exists>c2. UeRelocateImage sample_cfg (\<lambda>_. True) 0 ue_sample_loaded 0x700000 None 0 = Inr (c2, None) \<and>
    UeRelocateImageForRuntime sample_cfg (\<lambda>_. False) 0 \<lparr>Address = 0x500000, Bytes = ue_relocated_image\<rparr> 4096 ue_recorded 0x700000 =
      Inr \<lparr>Address = 0x500000, Bytes = UeImageBytes c2\<rparr>"
proof -
  have "UeImageBytes (set_UeImageBytes ue_sample_loaded ue_relocated_image) = ue_relocated_image"
    by (simp add: UeImageBytes_def set_UeImageBytes_def ue_sample_loaded_def)
  then show ?thesis
    using UeRelocateImageForRuntime_equivalent [OF ue_sample_reloc_ok(1-6) _ ue_sample_relocate [of sample_cfg 0],
      of "\<lambda>_. True" 0 "\<lambda>_. False" 0] by (simp add: ue_sample_reloc_ok(7))
qed



section \<open>The debug table\<close>

text \<open>C26: the lookups in the debug table of a well-formed image stay inside of the file and end with a
  status; a symbols path is not empty and ends with a terminator inside of the file, and there is a
  name for every segment inside of the file.\<close>

theorem Ue_debug_table_bounded:
  assumes "wf_ue c"
  shows "wp (UeGetSymbolsPath c) (\<lambda>(p, n). 2 \<le> unat n \<and> p + unat n \<le> length (UeFileBytes c) \<and>
      UeFileBytes c ! (p + unat n - 1) = 0) \<and>
    wp (UeGetSegmentNames c) (\<lambda>p. p + 8 * (unat (LastSegmentIndex c) + 1) \<le> length (UeFileBytes c))"
  using UeGetSymbolsPath_wp [OF assms] UeGetSegmentNames_wp [OF assms] by simp

theorem Ue_debug_table_bounded_witness:
  "UeGetSymbolsPath ue_sample = Inr (58, 3) \<and> ue_file ! 60 = 0 \<and> UeGetSegmentNames ue_sample = Inr 61"
proof -
  have words: "get_word (Suc 0) ue_file 57 = (2 :: u8)" "get_word (Suc 0) ue_file 60 = (0 :: u8)"
    by (simp_all add: ue_file_defs get_word_def)
  have "InternalGetDebugTable ue_sample = Inr 56"
    by (simp add: InternalGetDebugTable_def ue_sample_def read_load_tables_def ue_load_tables_def ue_file_buffer_def
        ue_file_length ue_sample_load_tables ue_sample_packed CheckDebugTable_def BaseOverflowSubU32_def readU8_def read_word_def words)
  then have "UeGetSymbolsPath ue_sample = Inr (58, 3)" "UeGetSegmentNames ue_sample = Inr 61"
    by (simp_all add: UeGetSymbolsPath_def UeGetSegmentNames_def readU8_def read_word_def ue_sample_def ue_file_buffer_def
        ue_file_length words)
  then show ?thesis
    using Ue_debug_table_bounded [OF ue_sample_wf] by (simp add: ue_sample_def ue_file_buffer_def)
qed

end
