(* ===== verification/UeFindings.thy ===== *)
theory UeFindings
  imports UeSample PeSample
begin

text \<open>
  Inputs on which the UE image library does not do what its comments promise: the fixup value that
  is recorded for plain fixups, and the sizes of images that execute in place.
\<close>

section \<open>Plain fixups and the runtime context\<close>

text \<open>An image without chained fixups: one 64-bit fixup at its start.\<close>

definition plain_data :: "u8 list" where
  "plain_data = [0x08, 0x10, 0x00, 0x00, 0x00, 0x00, 0x00, 0x00, 0x00, 0x00, 0x00, 0x00, 0x00, 0x00, 0x00, 0x00]"

definition plain_file :: "u8 list" where
  "plain_file =
     [0x55, 0x45, 0x09, 0x01, 0x08, 0x00, 0x00, 0x00, 0x01, 0x00, 0x00, 0x00, 0x00, 0x00, 0x00, 0x00,
      0x01, 0x00, 0x10, 0x00, 0x10, 0x00, 0x00, 0x00, 0x01, 0x00, 0x00, 0x00] @ plain_data @
     [0x00, 0x00, 0x00, 0x00] @ ue_reloc_table"

definition plain_file_buffer :: buffer where
  "plain_file_buffer = \<lparr>Address = 0x80000000, Bytes = plain_file\<rparr>"

definition plain_context :: ue_context where
  "plain_context =
     \<lparr> UeFileBuffer = plain_file_buffer, UnsignedFileSize = 56, UeSubsystem = 1, UeMachine = 1,
       FixedAddress = False, XIP = False, LastSegmentIndex = 0, SegmentsFileOffset = 28,
       SegmentAlignment = 4096, UeSegments = 16, SegmentImageInfoIterSize = 8, UeRelocsStripped = False,
       NumLoadTables = 1, LoadTablesFileOffset = 48, RelocTableSize = 8, LoadTables = 24,
       UeImageBuffer = NotLoaded, ImageSize = 4096, EntryPointAddress = 8, BaseAddress = 0x1000 \<rparr>"

definition plain_loaded :: ue_context where
  "plain_loaded = plain_context\<lparr>UeImageBuffer := Destination \<lparr>Address = 0x500000, Bytes = plain_data @ replicate 4080 0\<rparr>\<rparr>"

definition plain_relocated :: "u8 list" where
  "plain_relocated = [0x08, 0x00, 0x50, 0x00, 0x00, 0x00, 0x00, 0x00, 0x00, 0x00, 0x00, 0x00, 0x00, 0x00, 0x00, 0x00] @ replicate 4080 0"

definition plain_recorded :: "u64 \<Rightarrow> ue_runtime" where
  "plain_recorded d =
     \<lparr>RtMachine = 1, FixupSize = 8, FixupData = le_to_bytes 8 (unat d),
      UnchainedRelocsSize = 8, UnchainedRelocs = [0x00, 0x00, 0x00, 0x00, 0xF1, 0xFF, 0x00, 0x00]\<rparr>"

lemmas plain_defs = plain_file_def plain_data_def ue_reloc_table_def

lemma plain_length: "length plain_file = 56"
  by (simp add: plain_defs)

lemma plain_fields:
  "get_word 2 plain_file 0 = (0x4555 :: u16)"
  "get_word (Suc 0) plain_file 2 = (0x09 :: u8)"
  "get_word (Suc 0) plain_file 3 = (0x01 :: u8)"
  "get_word 4 plain_file 4 = (0x08 :: u32)"
  "get_word 8 plain_file 8 = (1 :: u64)"
  "get_word 4 plain_file 16 = (0x00100001 :: u32)"
  "get_word 4 plain_file 20 = (0x10 :: u32)"
  "get_word 4 plain_file 24 = (0x00000001 :: u32)"
  "get_word 4 (drop 48 plain_file) 0 = (0 :: u32)"
  "get_word 2 (drop 48 plain_file) 4 = (0xFFF1 :: u16)"
  by (simp_all add: plain_defs get_word_def)

lemma plain_tables:
  "segment_table plain_file 16 (Suc 0) = [\<lparr>SegImageInfo = 0x00100001, SegFileSize = 0x10\<rparr>]"
  "load_table plain_file 24 (Suc 0) = [0x00000001]"
  by (simp_all add: segment_table_def ue_segment_def load_table_def plain_fields)

lemma plain_packed:
  "UE_HEADER_BASE_ADDRESS 1 = 0x1000" "UE_HEADER_SEGMENT_ALIGNMENT 1 = 0x1000"
  "UE_HEADER_NUM_LOAD_TABLES 1 = 1" "UE_HEADER_LAST_SEGMENT_INDEX 1 = 0"
  by code_simp+

lemma plain_init:
  "bindR (UeInitializeContextPreHash plain_file_buffer 56) UeInitializeContextPostHash = Inr plain_context"
  by (simp add: ue_init_rules plain_file_buffer_def plain_length plain_fields plain_tables plain_packed
      ue_sample_packed plain_context_def)

lemma plain_wf: "wf_ue plain_context"
proof -
  obtain c where c: "UeInitializeContextPreHash plain_file_buffer 56 = Inr c" "UeInitializeContextPostHash c = Inr plain_context"
    using plain_init by (auto simp: bindR_Inr_iff)
  then have "c = zero_ue_context plain_file_buffer 56"
    by (simp add: UeInitializeContextPreHash_def plain_file_buffer_def readU16_def read_word_def plain_length plain_fields)
  then show ?thesis
    using UeInitializeContextPostHash_wpx [of c] c(2)
    by (simp add: zero_ue_context_def plain_file_buffer_def plain_length plain_context_def)
qed

lemma plain_load: "UeLoadImage plain_context ue_destination 4096 = Inr plain_loaded"
proof -
  have segs: "ue_segments plain_context = [\<lparr>SegImageInfo = 0x00100001, SegFileSize = 0x10\<rparr>]"
    by (simp add: ue_segments_def plain_context_def plain_file_buffer_def plain_tables)
  have "take 16 (drop 28 plain_file) = plain_data"
    by (simp add: plain_defs)
  then have "ue_loaded_image plain_context 4096 = plain_data @ replicate 4080 0"
    by (simp add: ue_loaded_image_def segs ue_sample_packed) (simp add: plain_context_def plain_file_buffer_def)
  then show ?thesis
    using UeLoadImage_exact [OF plain_wf, of ue_destination 4096]
    by (simp add: segs ue_sample_packed plain_loaded_def ue_destination_def) (simp add: plain_context_def)
qed

lemma plain_head:
  "ProcessHead \<lparr>ArgCfg = cfg, ArgAlloc = \<lambda>_. True, ArgImageSize = 4096, ArgTable = t,
      ArgTableSize = 8, ArgChaining = False, ArgAdjust = 0x4FF000, ArgIsRuntime = False\<rparr> 0xFFF1
    \<lparr>RsImage = plain_data @ replicate 4080 0, RsTarget = 0,
     RsRuntime = Some \<lparr>RtMachine = 1, FixupSize = 0, FixupData = [], UnchainedRelocsSize = 4, UnchainedRelocs = [0, 0, 0, 0]\<rparr>,
     RsPointer = 0, RsData = d\<rparr> =
   Inr \<lparr>RsImage = plain_relocated, RsTarget = 8, RsRuntime = Some \<lparr>RtMachine = 1, FixupSize = 8, FixupData = le_to_bytes 8 (unat d),
      UnchainedRelocsSize = 6, UnchainedRelocs = [0x00, 0x00, 0x00, 0x00, 0xF1, 0xFF]\<rparr>, RsPointer = 0, RsData = d\<rparr>"
  by (simp add: ProcessHead_def InternalApplyRelocationUe_def ApplyReloc64_def ue_run_rules plain_data_def plain_relocated_def)

lemma plain_relocate:
  "UeRelocateImage cfg (\<lambda>_. True) d plain_loaded 0x500000 (Some ue_fresh) 40 =
     Inr (set_UeImageBytes plain_loaded plain_relocated, Some (plain_recorded d))"
proof -
  have "UnchainReloc (\<lambda>_. True) (Some \<lparr>RtMachine = 1, FixupSize = 0, FixupData = [], UnchainedRelocsSize = 0, UnchainedRelocs = []\<rparr>)
      (Some (le_to_bytes 4 0)) False 0 None =
    Inr (Some \<lparr>RtMachine = 1, FixupSize = 0, FixupData = [], UnchainedRelocsSize = 4, UnchainedRelocs = [0, 0, 0, 0]\<rparr>)"
    by (simp add: ue_run_rules)
  moreover have "UnchainReloc (\<lambda>_. True) (Some \<lparr>RtMachine = 1, FixupSize = 8, FixupData = le_to_bytes 8 (unat d),
      UnchainedRelocsSize = 6, UnchainedRelocs = [0x00, 0x00, 0x00, 0x00, 0xF1, 0xFF]\<rparr>) None False 0xFFF None = Inr (Some (plain_recorded d))"
    by (simp add: ue_run_rules plain_recorded_def)
  moreover have "UE_RELOC_FIXUP_OFFSET 0xFFF1 = 0xFFF"
    by code_simp
  ultimately show ?thesis
    by (simp add: UeRelocateImage_def plain_loaded_def plain_context_def IS_ALIGNED_def ALIGN_VALUE_SUBTRAHEND_def
      InternaRelocateImage_def ue_reloc_args_def set_UeImageBytes_def UeImageBytes_def plain_file_buffer_def plain_length
      ReadUnaligned64_def ReadUnaligned32_def readU16_def read_word_def plain_fields ue_fresh_def
      ProcessRoots.simps(2) [of 7, unfolded Suc_numeral semiring_norm]
      ProcessRoots.simps(2) [of 6, unfolded Suc_numeral semiring_norm]
      ProcessHeads.simps(2) [of 7, unfolded Suc_numeral semiring_norm] BaseOverflowAddU32_def plain_head
      ALIGN_VALUE_def ALIGN_VALUE_ADDEND_def)
qed

lemma plain_recorded_fields:
  "UnchainedRelocs (plain_recorded d) = [0x00, 0x00, 0x00, 0x00, 0xF1, 0xFF, 0x00, 0x00]" "UnchainedRelocsSize (plain_recorded d) = 8"
  "ReadUnaligned64 (runtime_data (Some (plain_recorded d))) 0 = Inr d"
  by (simp_all add: plain_recorded_def runtime_data_def ReadUnaligned64_def read_word_def get_word_le_to_bytes_all)

definition plain_runtime :: "u8 list" where
  "plain_runtime = [0x08, 0x00, 0x70, 0x00, 0x00, 0x00, 0x00, 0x00, 0x00, 0x00, 0x00, 0x00, 0x00, 0x00, 0x00, 0x00] @ replicate 4080 0"

lemma plain_runtime_fixup:
  "ApplyReloc64 sample_cfg plain_relocated 0 0x200000 (Inr d) True =
     (if d = 0x500008 then Inr (plain_runtime, 8) else fail RETURN_VOLUME_CORRUPTED)"
  by (auto simp: ApplyReloc64_def plain_relocated_def plain_runtime_def sample_cfg_def ReadUnaligned64_def
      read_word_def WriteUnaligned64_def write_bytes_def le_to_bytes_numeral get_word_def)

lemma plain_runtime_head:
  "ProcessHead \<lparr>ArgCfg = sample_cfg, ArgAlloc = ok, ArgImageSize = 4096, ArgTable = t,
      ArgTableSize = 8, ArgChaining = False, ArgAdjust = 0x200000, ArgIsRuntime = True\<rparr> 0xFFF1
    \<lparr>RsImage = plain_relocated, RsTarget = 0, RsRuntime = Some (plain_recorded d), RsPointer = 0, RsData = D\<rparr> =
   (if d = 0x500008
    then Inr \<lparr>RsImage = plain_runtime, RsTarget = 8, RsRuntime = Some (plain_recorded d), RsPointer = 1, RsData = D\<rparr>
    else fail RETURN_VOLUME_CORRUPTED)"
proof -
  have "UE_RELOC_FIXUP_TYPE 0xFFF1 = 1"
    by code_simp
  then show ?thesis
    by (simp add: ProcessHead_def InternalApplyRelocationUe_def plain_recorded_fields plain_runtime_fixup UnchainReloc_def
        BaseOverflowSubU32_def)
qed

lemma plain_runtime_relocate:
  "UeRelocateImageForRuntime sample_cfg ok D \<lparr>Address = 0x500000, Bytes = plain_relocated\<rparr> 4096 (plain_recorded d) 0x700000 =
     (if d = 0x500008 then Inr \<lparr>Address = 0x500000, Bytes = plain_runtime\<rparr> else fail RETURN_VOLUME_CORRUPTED)"
proof -
  have "UE_RELOC_FIXUP_OFFSET 0xFFF1 = 0xFFF"
    by code_simp
  then show ?thesis
    by (simp add: UeRelocateImageForRuntime_def InternaRelocateImage_def plain_recorded_fields
      ProcessRoots.simps(2) [of 7, unfolded Suc_numeral semiring_norm]
      ProcessRoots.simps(2) [of 6, unfolded Suc_numeral semiring_norm]
      ProcessHeads.simps(2) [of 7, unfolded Suc_numeral semiring_norm] BaseOverflowAddU32_def plain_runtime_head
      ReadUnaligned32_def readU16_def read_word_def get_word_def UnchainReloc_def ALIGN_VALUE_def ALIGN_VALUE_ADDEND_def)
qed

text \<open>C39: the value recorded for a plain fixup is not the value of the fixup but the initial value D of a
  local variable that is never assigned: relocating the image of a valid file records D, and the
  relocation at runtime aborts unless D happens to be the relocated value.\<close>

theorem plain_fixup_records_uninitialised:
  "bindR (UeInitializeContextPreHash plain_file_buffer 56) UeInitializeContextPostHash = Inr plain_context \<and>
   UeLoadImage plain_context ue_destination 4096 = Inr plain_loaded \<and>
   UeRelocateImage sample_cfg (\<lambda>_. True) D plain_loaded 0x500000 (Some ue_fresh) 40 =
     Inr (set_UeImageBytes plain_loaded plain_relocated, Some (plain_recorded D)) \<and>
   UeRelocateImageForRuntime sample_cfg (\<lambda>_. True) D \<lparr>Address = 0x500000, Bytes = plain_relocated\<rparr> 4096 (plain_recorded D) 0x700000 =
     (if D = 0x500008
      then Inr \<lparr>Address = 0x500000, Bytes = plain_runtime\<rparr>
      else fail RETURN_VOLUME_CORRUPTED)"
  by (intro conjI plain_init plain_load plain_relocate plain_runtime_relocate)

section \<open>Images that execute in place\<close>

text \<open>Two segments of which the sizes add up to 0xFFFFF000, behind a header that is padded to 0x1000.\<close>

definition xip_wrap_buffer :: buffer where
  "xip_wrap_buffer = \<lparr>Address = 0x80000000, Bytes =
     [0x55, 0x45, 0x09, 0x08, 0x00, 0x00, 0x00, 0x00, 0x00, 0x00, 0x00, 0x00, 0x00, 0x00, 0x00, 0x01,
      0xFE, 0xFF, 0x1F, 0x00, 0x00, 0x00, 0x00, 0x00, 0x01, 0x00, 0x10, 0x00, 0x00, 0x00, 0x00, 0x00] @ replicate 4064 0\<rparr>"

text \<open>One segment with 0xFFFFF000 bytes of data behind such a header.\<close>

definition xip_assert_buffer :: buffer where
  "xip_assert_buffer = \<lparr>Address = 0x80000000, Bytes =
     [0x55, 0x45, 0x09, 0x00, 0x00, 0x00, 0x00, 0x00, 0x00, 0x00, 0x00, 0x00, 0x00, 0x00, 0x00, 0x01,
      0xFF, 0xFF, 0x1F, 0x00, 0x00, 0xF0, 0xFF, 0xFF] @ replicate 4072 0\<rparr>"

definition xip_wrap_context :: ue_context where
  "xip_wrap_context =
     \<lparr> UeFileBuffer = xip_wrap_buffer, UnsignedFileSize = 4096, UeSubsystem = 1, UeMachine = 1,
       FixedAddress = False, XIP = True, LastSegmentIndex = 1, SegmentsFileOffset = 4096,
       SegmentAlignment = 4096, UeSegments = 16, SegmentImageInfoIterSize = 8, UeRelocsStripped = False,
       NumLoadTables = 0, LoadTablesFileOffset = 4096, RelocTableSize = 0, LoadTables = 32,
       UeImageBuffer = NotLoaded, ImageSize = 0, EntryPointAddress = 0, BaseAddress = 0 \<rparr>"

lemma xip_lengths: "length (Bytes xip_wrap_buffer) = 4096" "length (Bytes xip_assert_buffer) = 4096"
  "Address xip_wrap_buffer = 0x80000000" "Address xip_assert_buffer = 0x80000000"
  by (simp_all add: xip_wrap_buffer_def xip_assert_buffer_def)

lemma xip_wrap_fields:
  "get_word 2 (Bytes xip_wrap_buffer) 0 = (0x4555 :: u16)"
  "get_word (Suc 0) (Bytes xip_wrap_buffer) 2 = (0x09 :: u8)"
  "get_word (Suc 0) (Bytes xip_wrap_buffer) 3 = (0x08 :: u8)"
  "get_word 4 (Bytes xip_wrap_buffer) 4 = (0 :: u32)"
  "get_word 8 (Bytes xip_wrap_buffer) 8 = (0x0100000000000000 :: u64)"
  "get_word 4 (Bytes xip_wrap_buffer) 16 = (0x001FFFFE :: u32)"
  "get_word 4 (Bytes xip_wrap_buffer) 20 = (0 :: u32)"
  "get_word 4 (Bytes xip_wrap_buffer) 24 = (0x00100001 :: u32)"
  "get_word 4 (Bytes xip_wrap_buffer) 28 = (0 :: u32)"
  by (simp_all add: xip_wrap_buffer_def get_word_def)

lemma xip_assert_fields:
  "get_word 2 (Bytes xip_assert_buffer) 0 = (0x4555 :: u16)"
  "get_word (Suc 0) (Bytes xip_assert_buffer) 3 = (0 :: u8)"
  "get_word 8 (Bytes xip_assert_buffer) 8 = (0x0100000000000000 :: u64)"
  "get_word 4 (Bytes xip_assert_buffer) 16 = (0x001FFFFF :: u32)"
  "get_word 4 (Bytes xip_assert_buffer) 20 = (0xFFFFF000 :: u32)"
  by (simp_all add: xip_assert_buffer_def get_word_def)

lemma xip_tables:
  "segment_table (Bytes xip_wrap_buffer) 16 (Suc (Suc 0)) =
     [\<lparr>SegImageInfo = 0x001FFFFE, SegFileSize = 0\<rparr>, \<lparr>SegImageInfo = 0x00100001, SegFileSize = 0\<rparr>]"
  "segment_table (Bytes xip_assert_buffer) 16 (Suc 0) = [\<lparr>SegImageInfo = 0x001FFFFF, SegFileSize = 0xFFFFF000\<rparr>]"
  "load_table b 32 0 = []"
  by (simp_all add: segment_table_def ue_segment_def load_table_def xip_wrap_fields xip_assert_fields)

lemma xip_packed:
  "UE_HEADER_BASE_ADDRESS 0x0100000000000000 = 0" "UE_HEADER_SEGMENT_ALIGNMENT 0x0100000000000000 = 0x1000"
  "UE_HEADER_NUM_LOAD_TABLES 0x08 = 0" "UE_HEADER_LAST_SEGMENT_INDEX 0x08 = 1"
  "UE_HEADER_NUM_LOAD_TABLES 0 = 0" "UE_HEADER_LAST_SEGMENT_INDEX 0 = 0"
  "UE_SEGMENT_SIZE 0x001FFFFE = 0xFFFFE000" "UE_SEGMENT_SIZE 0x001FFFFF = 0xFFFFF000"
  by code_simp+

lemma xip_sum: "(0xFFFFF000 :: u32) + 0x1000 = 0" "(0xFFFFE000 :: u32) + 0x1000 = 0xFFFFF000"
  by code_simp+

text \<open>C40: the arithmetic of InternalVerifySegments overflows for images that execute in place. A file is
  accepted with the size zero for its image of 0xFFFFF000 bytes, and loading it into a buffer of this
  size writes outside of the buffer; for another file the ASSERT on the end of the segment data fails.\<close>

theorem xip_sizes_overflow:
  "bindR (UeInitializeContextPreHash xip_wrap_buffer 4096) UeInitializeContextPostHash = Inr xip_wrap_context \<and>
   ImageSize xip_wrap_context = 0 \<and> image_total (ue_segments xip_wrap_context) = 0xFFFFF000 \<and>
   UeLoadImage xip_wrap_context \<lparr>Address = 0x500000, Bytes = []\<rparr> (ImageSize xip_wrap_context) = Inl OutOfBounds \<and>
   bindR (UeInitializeContextPreHash xip_assert_buffer 4096) UeInitializeContextPostHash = Inl AssertFailed"
proof (intro conjI)
  show "bindR (UeInitializeContextPreHash xip_wrap_buffer 4096) UeInitializeContextPostHash = Inr xip_wrap_context"
    by (simp add: ue_init_rules xip_lengths xip_wrap_fields xip_tables xip_packed ue_sample_packed xip_wrap_context_def xip_sum)
  show "bindR (UeInitializeContextPreHash xip_assert_buffer 4096) UeInitializeContextPostHash = Inl AssertFailed"
    by (simp add: ue_init_rules xip_lengths xip_assert_fields xip_tables xip_packed xip_sum)
  have segs: "ue_segments xip_wrap_context =
      [\<lparr>SegImageInfo = 0x001FFFFE, SegFileSize = 0\<rparr>, \<lparr>SegImageInfo = 0x00100001, SegFileSize = 0\<rparr>]"
    by (simp add: ue_segments_def xip_wrap_context_def xip_tables)
  then show "image_total (ue_segments xip_wrap_context) = 0xFFFFF000"
    by (simp add: xip_packed ue_sample_packed)
  have "read_segments xip_wrap_context = Inr (ue_segments xip_wrap_context)"
    by (simp add: read_segments_def xip_wrap_context_def xip_lengths)
  then show "UeLoadImage xip_wrap_context \<lparr>Address = 0x500000, Bytes = []\<rparr> (ImageSize xip_wrap_context) = Inl OutOfBounds"
    by (simp add: UeLoadImage_def segs xip_packed ue_sample_packed)
      (simp add: xip_wrap_context_def IS_ALIGNED_def ALIGN_VALUE_SUBTRAHEND_def ZeroMem_def CopyMem_def write_bytes_def)
qed (simp add: xip_wrap_context_def)

end
