(* ===== verification/ImageRecord.thy ===== *)
theory ImageRecord
  imports PeCoffInit
begin

text \<open>
  Image records (\<^verbatim>\<open>UEFI_IMAGE_RECORD\<close> of \<^verbatim>\<open>UefiImageLib.h\<close>): the memory permissions of a loaded image
  as a list of adjacent segments, and the attributes that such a list gives to every address.
\<close>

section \<open>Image records\<close>

abbreviation (input) EFI_MEMORY_RP :: u32 where "EFI_MEMORY_RP \<equiv> 0x2000"
abbreviation (input) EFI_MEMORY_XP :: u32 where "EFI_MEMORY_XP \<equiv> 0x4000"
abbreviation (input) EFI_MEMORY_RO :: u32 where "EFI_MEMORY_RO \<equiv> 0x20000"

record UEFI_IMAGE_RECORD_SEGMENT =
  RecSize :: u32
  RecAttributes :: u32

text \<open>The segments are the whole array behind the record; the first NumSegments of them are in use.\<close>

record UEFI_IMAGE_RECORD =
  NumSegments :: nat
  RecStartAddress :: u64
  RecEndAddress :: u64
  RecSegments :: "UEFI_IMAGE_RECORD_SEGMENT list"

type_synonym record_segment = UEFI_IMAGE_RECORD_SEGMENT

definition zero_segment :: record_segment where
  "zero_segment = \<lparr>RecSize = 0, RecAttributes = 0\<rparr>"

text \<open>Writing the next element of the array, which has MaxNum elements.\<close>

definition AddRecordSegment :: "nat \<Rightarrow> record_segment list \<Rightarrow> record_segment \<Rightarrow> record_segment list result" where
  "AddRecordSegment MaxNum Segs Seg = (if length Segs < MaxNum then Inr (Segs @ [Seg]) else Inl OutOfBounds)"

text \<open>The attributes that a list of segments gives to the addresses from its start on.\<close>

definition expand :: "record_segment list \<Rightarrow> u32 list" where
  "expand Segs = concat (map (\<lambda>g. replicate (unat (RecSize g)) (RecAttributes g)) Segs)"

lemma expand_simps [simp]:
  "expand [] = []" "expand (g # Segs) = replicate (unat (RecSize g)) (RecAttributes g) @ expand Segs"
  "expand (Segs @ Segs') = expand Segs @ expand Segs'"
  by (simp_all add: expand_def)

text \<open>Permissions that are not both writable and executable.\<close>

definition write_xor_execute :: "u32 \<Rightarrow> bool" where
  "write_xor_execute a \<longleftrightarrow> a AND EFI_MEMORY_XP \<noteq> 0 \<or> a AND EFI_MEMORY_RO \<noteq> 0"

end
