(* ===== verification/PeRecord.thy ===== *)
theory PeRecord
  imports ImageRecord
begin

text \<open>
  The image records of PE/COFF images (\<^verbatim>\<open>UefiImageLoaderGetImageRecordPe\<close> of
  \<^verbatim>\<open>BaseUefiImageLib/PeSupport.c\<close>), and the proof that the segments of the record cover the image and
  give every address the permissions of the section that it belongs to.
\<close>

section \<open>PE/COFF images\<close>

definition InternalCharacteristicsToAttributes :: "loader_cfg \<Rightarrow> u32 \<Rightarrow> u32" where
  "InternalCharacteristicsToAttributes cfg Chars =
     (let Chars = (if PcdImageLoaderRemoveXForWX cfg \<and>
                      Chars AND (EFI_IMAGE_SCN_MEM_EXECUTE OR EFI_IMAGE_SCN_MEM_WRITE) =
                        EFI_IMAGE_SCN_MEM_EXECUTE OR EFI_IMAGE_SCN_MEM_WRITE
                   then Chars AND NOT EFI_IMAGE_SCN_MEM_EXECUTE else Chars)
      in (if Chars AND EFI_IMAGE_SCN_MEM_READ = 0 then EFI_MEMORY_RP else 0) OR
         (if Chars AND EFI_IMAGE_SCN_MEM_EXECUTE = 0 then EFI_MEMORY_XP else 0) OR
         (if Chars AND EFI_IMAGE_SCN_MEM_WRITE = 0 then EFI_MEMORY_RO else 0))"

text \<open>The record segment that may be extended is the last one.\<close>

definition InternalInsertImageRecordSegmentPadding ::
  "nat \<Rightarrow> u32 \<Rightarrow> u32 \<Rightarrow> u32 \<Rightarrow> record_segment list \<Rightarrow> record_segment list result" where
  "InternalInsertImageRecordSegmentPadding MaxNum RangeEnd NextAddress Attributes Segs =
     assertR (RangeEnd \<le> NextAddress)
     (if NextAddress = RangeEnd then Inr Segs
      else if Attributes = EFI_MEMORY_XP OR EFI_MEMORY_RO then
        Inr (butlast Segs @ [(last Segs)\<lparr>RecSize := RecSize (last Segs) + (NextAddress - RangeEnd)\<rparr>])
      else
        AddRecordSegment MaxNum Segs
          \<lparr>RecSize = NextAddress - RangeEnd, RecAttributes = EFI_MEMORY_XP OR EFI_MEMORY_RO\<rparr>)"

text \<open>The current range of equal permissions, and the segments recorded so far.\<close>

record range_state =
  RangeStart :: u32
  RangeEnd :: u32
  RangeCharacteristics :: u32
  RangeAttributes :: u32
  RangeSegments :: "record_segment list"

definition permission_bits :: "EFI_IMAGE_SECTION_HEADER \<Rightarrow> u32" where
  "permission_bits s =
     Characteristics s AND (EFI_IMAGE_SCN_MEM_EXECUTE OR EFI_IMAGE_SCN_MEM_READ OR EFI_IMAGE_SCN_MEM_WRITE)"

text \<open>Closing the current range records it, and the padding behind it where there may be any.\<close>

definition CloseRange :: "loader_cfg \<Rightarrow> nat \<Rightarrow> u32 \<Rightarrow> range_state \<Rightarrow> record_segment list result" where
  "CloseRange cfg MaxNum NextAddress st =
     bindR (AddRecordSegment MaxNum (RangeSegments st)
              \<lparr>RecSize = RangeEnd st - RangeStart st, RecAttributes = RangeAttributes st\<rparr>) (\<lambda>Segs.
     if strict_sections cfg then Inr Segs
     else InternalInsertImageRecordSegmentPadding MaxNum (RangeEnd st) NextAddress (RangeAttributes st) Segs)"

definition RecordSection ::
  "loader_cfg \<Rightarrow> nat \<Rightarrow> u32 \<Rightarrow> EFI_IMAGE_SECTION_HEADER \<Rightarrow> range_state \<Rightarrow> range_state result" where
  "RecordSection cfg MaxNum Alignment s st =
     (if VirtualSize s = 0 then Inr st
      else
        let SectionAddress = VirtualAddress s;
            SectionSize = ALIGN_VALUE (VirtualSize s) Alignment;
            Chars = permission_bits s
        in if (strict_sections cfg \<or> SectionAddress = RangeEnd st \<or> RangeCharacteristics st = EFI_IMAGE_SCN_MEM_READ) \<and>
              Chars = RangeCharacteristics st
           then Inr (st\<lparr>RangeEnd := SectionAddress + SectionSize\<rparr>)
           else
             bindR (if SectionAddress \<noteq> RangeStart st then
                      bindR (CloseRange cfg MaxNum SectionAddress st) (\<lambda>Segs.
                      Inr (st\<lparr>RangeSegments := Segs, RangeStart := SectionAddress\<rparr>))
                    else Inr st) (\<lambda>st.
             Inr (st\<lparr>RangeEnd := SectionAddress + SectionSize, RangeCharacteristics := Chars,
                     RangeAttributes := InternalCharacteristicsToAttributes cfg Chars\<rparr>)))"

fun RecordSections ::
  "loader_cfg \<Rightarrow> nat \<Rightarrow> u32 \<Rightarrow> EFI_IMAGE_SECTION_HEADER list \<Rightarrow> range_state \<Rightarrow> range_state result" where
  "RecordSections cfg MaxNum Alignment [] st = Inr st"
| "RecordSections cfg MaxNum Alignment (s # ss) st =
     bindR (RecordSection cfg MaxNum Alignment s st) (RecordSections cfg MaxNum Alignment ss)"

text \<open>The segments of the record of an image with the given headers, and the size of their array.\<close>

definition MaxNumRecordSegments :: "loader_cfg \<Rightarrow> nat \<Rightarrow> nat" where
  "MaxNumRecordSegments cfg n = (if strict_sections cfg then n + 2 else n * 2 + 1)"

definition RecordImageSegments ::
  "loader_cfg \<Rightarrow> u32 \<Rightarrow> u32 \<Rightarrow> u32 \<Rightarrow> EFI_IMAGE_SECTION_HEADER list \<Rightarrow> record_segment list result" where
  "RecordImageSegments cfg Alignment HeaderSize ImageSz Sects =
     (let MaxNum = MaxNumRecordSegments cfg (length Sects) in
      assertR (EFI_MEMORY_XP OR EFI_MEMORY_RO = InternalCharacteristicsToAttributes cfg EFI_IMAGE_SCN_MEM_READ)
      (bindR (RecordSections cfg MaxNum Alignment Sects
               \<lparr>RangeStart = 0, RangeEnd = HeaderSize, RangeCharacteristics = EFI_IMAGE_SCN_MEM_READ,
                RangeAttributes = EFI_MEMORY_XP OR EFI_MEMORY_RO, RangeSegments = []\<rparr>) (\<lambda>st.
       assertR (RangeStart st < RangeEnd st)
       (bindR (AddRecordSegment MaxNum (RangeSegments st)
                \<lparr>RecSize = RangeEnd st - RangeStart st, RecAttributes = RangeAttributes st\<rparr>)
          (InternalInsertImageRecordSegmentPadding MaxNum (RangeEnd st) ImageSz (RangeAttributes st))))))"

definition UefiImageLoaderGetImageRecordPe :: "loader_cfg \<Rightarrow> (nat \<Rightarrow> bool) \<Rightarrow> pe_context \<Rightarrow> UEFI_IMAGE_RECORD option result" where
  "UefiImageLoaderGetImageRecordPe cfg AllocOk Context =
     bindR (PeCoffGetSectionTable Context) (\<lambda>Sects.
     let MaxNum = MaxNumRecordSegments cfg (length Sects) in
     if \<not> AllocOk (40 + MaxNum * 8) then Inr None
     else
       bindR (RecordImageSegments cfg (PeCoffGetSectionAlignment Context) (PeCoffGetSizeOfHeaders Context)
                (PeCoffGetSizeOfImage Context) Sects) (\<lambda>Segs.
       bindR (PeCoffLoaderGetImageAddress Context) (\<lambda>ImageAddr.
       Inr (Some \<lparr>NumSegments = length Segs, RecStartAddress = ImageAddr,
                  RecEndAddress = ImageAddr + ucast (PeCoffGetSizeOfImage Context),
                  RecSegments = Segs @ replicate (MaxNum - length Segs) zero_segment\<rparr>))))"

section \<open>The permissions of every address\<close>

text \<open>
  The attributes that the sections give to the addresses from \<open>lo\<close> to \<open>hi\<close>: those of the section up
  to its aligned end, and read-only data in between.
\<close>

abbreviation read_only_data :: u32 where "read_only_data \<equiv> EFI_MEMORY_XP OR EFI_MEMORY_RO"

fun paint :: "loader_cfg \<Rightarrow> nat \<Rightarrow> nat \<Rightarrow> EFI_IMAGE_SECTION_HEADER list \<Rightarrow> nat \<Rightarrow> u32 list" where
  "paint cfg al lo [] hi = replicate (hi - lo) read_only_data"
| "paint cfg al lo (s # ss) hi =
     (if VirtualSize s = 0 then paint cfg al lo ss hi
      else
        replicate (sec_start s - lo) read_only_data @
        replicate (align_up (unat (VirtualSize s)) al) (InternalCharacteristicsToAttributes cfg (permission_bits s)) @
        paint cfg al (sec_start s + align_up (unat (VirtualSize s)) al) ss hi)"

text \<open>The sections that are not empty follow each other, up to \<open>hi\<close>, and without gaps where that is demanded.\<close>

fun placed :: "bool \<Rightarrow> nat \<Rightarrow> nat \<Rightarrow> EFI_IMAGE_SECTION_HEADER list \<Rightarrow> nat \<Rightarrow> bool" where
  "placed strict al lo [] hi \<longleftrightarrow> lo \<le> hi"
| "placed strict al lo (s # ss) hi \<longleftrightarrow>
     (if VirtualSize s = 0 then placed strict al lo ss hi
      else (if strict then lo = sec_start s else lo \<le> sec_start s) \<and>
           placed strict al (sec_start s + align_up (unat (VirtualSize s)) al) ss hi)"

lemma placed_bound: "placed strict al lo ss hi \<Longrightarrow> lo \<le> hi"
proof (induction ss arbitrary: lo)
  case (Cons s ss)
  then show ?case
    by (fastforce split: if_splits)
qed simp

text \<open>Whether the first section that is not empty starts the image.\<close>

fun starts_image :: "EFI_IMAGE_SECTION_HEADER list \<Rightarrow> bool" where
  "starts_image [] \<longleftrightarrow> False"
| "starts_image (s # ss) \<longleftrightarrow> (if VirtualSize s = 0 then starts_image ss else VirtualAddress s = 0)"

definition record_count :: "loader_cfg \<Rightarrow> nat \<Rightarrow> range_state \<Rightarrow> bool" where
  "record_count cfg m st \<longleftrightarrow>
     (if strict_sections cfg then length (RangeSegments st) \<le> m
      else length (RangeSegments st) + (if RangeAttributes st = read_only_data then 0 else 1) \<le> 2 * m)"

text \<open>
  The loop keeps the painting of the whole image: what is recorded, the current range, and what is
  still to come. \<open>m\<close> counts the sections that have been processed.
\<close>

definition record_inv :: "loader_cfg \<Rightarrow> nat \<Rightarrow> nat \<Rightarrow> EFI_IMAGE_SECTION_HEADER list \<Rightarrow> nat \<Rightarrow> u32 list \<Rightarrow> range_state \<Rightarrow> bool" where
  "record_inv cfg al m ss hi p st \<longleftrightarrow>
     unat (RangeStart st) \<le> unat (RangeEnd st) \<and> (RangeStart st = RangeEnd st \<longrightarrow> starts_image ss) \<and>
     placed (strict_sections cfg) al (unat (RangeEnd st)) ss hi \<and>
     RangeAttributes st = InternalCharacteristicsToAttributes cfg (RangeCharacteristics st) \<and>
     expand (RangeSegments st) @ replicate (unat (RangeEnd st) - unat (RangeStart st)) (RangeAttributes st) @
       paint cfg al (unat (RangeEnd st)) ss hi = p \<and>
     record_count cfg m st"

lemma read_attributes: "InternalCharacteristicsToAttributes cfg EFI_IMAGE_SCN_MEM_READ = read_only_data"
  by (simp add: InternalCharacteristicsToAttributes_def)

lemma padding_wp:
  assumes "unat e \<le> unat n" "Segs \<noteq> []" "RecAttributes (last Segs) = a" "a \<noteq> read_only_data \<Longrightarrow> length Segs < MaxNum"
    and "unat (RecSize (last Segs)) + (unat n - unat e) < 2 ^ 32"
  shows "\<exists>Segs'. InternalInsertImageRecordSegmentPadding MaxNum e n a Segs = Inr Segs' \<and>
    expand Segs' = expand Segs @ replicate (unat n - unat e) read_only_data \<and>
    length Segs' = length Segs + (if n = e \<or> a = read_only_data then 0 else 1)"
proof -
  obtain k where k: "unat n = unat e + k"
    using assms(1) by (auto simp: le_iff_add)
  then have d: "unat (n - e) = k"
    by (simp add: unat_sub word_le_nat_alt)
  obtain Gs g where Segs: "Segs = Gs @ [g]"
    using assms(2) by (cases Segs rule: rev_cases) auto
  have sum: "unat (RecSize g + (n - e)) = unat (RecSize g) + k"
    using assms(5) d k by (subst unat_add_u32) (simp_all add: Segs)
  show ?thesis
    using assms(3,4) k d sum
    by (auto simp: InternalInsertImageRecordSegmentPadding_def AddRecordSegment_def Segs word_le_nat_alt replicate_add)
qed

lemma CloseRange_inv:
  assumes "unat (RangeEnd st) = unat (RangeStart st) + a" "unat v = unat (RangeEnd st) + b" "strict_sections cfg \<Longrightarrow> b = 0"
    and "record_count cfg m st" "m < n"
  shows "\<exists>Segs. CloseRange cfg (MaxNumRecordSegments cfg n) v st = Inr Segs \<and>
    expand Segs = expand (RangeSegments st) @ replicate a (RangeAttributes st) @ replicate b read_only_data \<and>
    (if strict_sections cfg then length Segs \<le> m + 1 else length Segs + 1 \<le> 2 * (m + 1))"
proof -
  let ?g = "\<lparr>RecSize = RangeEnd st - RangeStart st, RecAttributes = RangeAttributes st\<rparr>" and ?M = "MaxNumRecordSegments cfg n"
  let ?gs = "RangeSegments st @ [?g]"
  have g: "unat (RangeEnd st - RangeStart st) = a"
    using assms(1) by (simp add: unat_sub word_le_nat_alt)
  have add: "AddRecordSegment ?M (RangeSegments st) ?g = Inr ?gs"
    using assms(4,5) by (auto simp: AddRecordSegment_def MaxNumRecordSegments_def record_count_def split: if_splits)
  show ?thesis
  proof (cases "strict_sections cfg")
    case True
    then show ?thesis
      using assms(3,4) by (simp add: CloseRange_def add g record_count_def)
  next
    case False
    then have len: "length ?gs < ?M"
      using assms(4,5) by (auto simp: MaxNumRecordSegments_def record_count_def split: if_splits)
    have "\<exists>Segs'. InternalInsertImageRecordSegmentPadding ?M (RangeEnd st) v (RangeAttributes st) ?gs = Inr Segs' \<and>
        expand Segs' = expand ?gs @ replicate (unat v - unat (RangeEnd st)) read_only_data \<and>
        length Segs' = length ?gs + (if v = RangeEnd st \<or> RangeAttributes st = read_only_data then 0 else 1)"
      using assms(1,2) g len u32_less [of v] by (intro padding_wp) simp_all
    then show ?thesis
      using False assms(2,4) g by (auto simp: CloseRange_def add record_count_def split: if_splits)
  qed
qed

lemma RecordSection_inv:
  assumes inv: "record_inv cfg (unat al) m (s # ss) hi p st" and "IS_POW2 al" "hi < 2 ^ 32" "m < n"
  shows "\<exists>st'. RecordSection cfg (MaxNumRecordSegments cfg n) al s st = Inr st' \<and> record_inv cfg (unat al) (m + 1) ss hi p st'"
proof (cases "VirtualSize s = 0")
  case True
  then show ?thesis
    using inv by (auto simp: RecordSection_def record_inv_def record_count_def split: if_splits)
next
  case False
  let ?va = "sec_start s" and ?sz = "align_up (unat (VirtualSize s)) (unat al)"
  let ?E = "VirtualAddress s + ALIGN_VALUE (VirtualSize s) al"
  let ?c = "permission_bits s" and ?M = "MaxNumRecordSegments cfg n"
  have start: "unat (RangeStart st) \<le> unat (RangeEnd st)" "unat (RangeEnd st) \<le> ?va" "strict_sections cfg \<Longrightarrow> unat (RangeEnd st) = ?va"
    and att: "RangeAttributes st = InternalCharacteristicsToAttributes cfg (RangeCharacteristics st)"
    and pl: "placed (strict_sections cfg) (unat al) (?va + ?sz) ss hi"
    using inv False by (auto simp: record_inv_def split: if_splits)
  have fits: "?va + ?sz < 2 ^ 32"
    using placed_bound [OF pl] assms(3) by simp
  then have sz: "unat (ALIGN_VALUE (VirtualSize s) al) = ?sz"
    using assms(2) by (simp add: unat_ALIGN_VALUE)
  have e: "unat (VirtualAddress s + ALIGN_VALUE (VirtualSize s) al) = ?va + ?sz"
    using fits sz by (subst unat_add_u32) simp_all
  have ne: "RangeStart st \<noteq> ?E" "VirtualAddress s \<noteq> ?E"
    using start(1,2) e align_up_ge [of "unat (VirtualSize s)" "unat al"] False
    by (auto simp: word_unat_eq_iff simp del: align_up_ge)
  obtain a where a: "unat (RangeEnd st) = unat (RangeStart st) + a"
    using start(1) by (auto simp: le_iff_add)
  obtain b where b: "?va = unat (RangeEnd st) + b"
    using start(2) by (auto simp: le_iff_add)
  have paint: "p = expand (RangeSegments st) @ replicate a (RangeAttributes st) @ replicate b read_only_data @
      replicate ?sz (InternalCharacteristicsToAttributes cfg ?c) @ paint cfg (unat al) (?va + ?sz) ss hi"
    using inv False a b by (auto simp: record_inv_def)
  have count: "record_count cfg m st"
    using inv by (simp add: record_inv_def)
  let ?merge = "(strict_sections cfg \<or> VirtualAddress s = RangeEnd st \<or> RangeCharacteristics st = EFI_IMAGE_SCN_MEM_READ) \<and>
    ?c = RangeCharacteristics st"
  consider (merge) ?merge | (empty) "\<not> ?merge" "VirtualAddress s = RangeStart st" | (push) "\<not> ?merge" "VirtualAddress s \<noteq> RangeStart st"
    by blast
  then show ?thesis
  proof cases
    case merge
    then have "b = 0 \<or> RangeAttributes st = read_only_data"
      using start(3) b att read_attributes [of cfg] by auto
    then have "p = expand (RangeSegments st) @ replicate (a + b + ?sz) (RangeAttributes st) @ paint cfg (unat al) (?va + ?sz) ss hi"
      using paint merge att by (auto simp: replicate_add)
    then have "record_inv cfg (unat al) (m + 1) ss hi p (st\<lparr>RangeEnd := ?E\<rparr>)"
      using a b e ne pl att count by (auto simp: record_inv_def record_count_def)
    then show ?thesis
      using merge False by (simp add: RecordSection_def Let_def)
  next
    case empty
    then have "a = 0" "b = 0"
      using a b by simp_all
    then have "record_inv cfg (unat al) (m + 1) ss hi p (st\<lparr>RangeEnd := ?E, RangeCharacteristics := ?c,
        RangeAttributes := InternalCharacteristicsToAttributes cfg ?c\<rparr>)"
      using a b e ne pl att count paint empty by (auto simp: record_inv_def record_count_def)
    then show ?thesis
      using empty False by (auto simp: RecordSection_def Let_def)
  next
    case push
    obtain Segs where Segs: "CloseRange cfg ?M (VirtualAddress s) st = Inr Segs"
      "expand Segs = expand (RangeSegments st) @ replicate a (RangeAttributes st) @ replicate b read_only_data"
      "if strict_sections cfg then length Segs \<le> m + 1 else length Segs + 1 \<le> 2 * (m + 1)"
      using CloseRange_inv [OF a b _ count assms(4)] start(3) b by auto
    let ?st = "st\<lparr>RangeSegments := Segs, RangeStart := VirtualAddress s, RangeEnd := ?E, RangeCharacteristics := ?c,
        RangeAttributes := InternalCharacteristicsToAttributes cfg ?c\<rparr>"
    have "record_inv cfg (unat al) (m + 1) ss hi p ?st"
      using e ne pl Segs(2,3) paint by (auto simp: record_inv_def record_count_def split: if_splits)
    moreover have "RecordSection cfg ?M al s st = Inr ?st"
      using push False Segs(1) by (auto simp: RecordSection_def Let_def)
    ultimately show ?thesis
      by blast
  qed
qed

lemma RecordSections_inv:
  assumes "record_inv cfg (unat al) m ss hi p st" "IS_POW2 al" "hi < 2 ^ 32"
  shows "\<exists>st'. RecordSections cfg (MaxNumRecordSegments cfg (m + length ss)) al ss st = Inr st' \<and>
    record_inv cfg (unat al) (m + length ss) [] hi p st'"
  using assms
proof (induction ss arbitrary: m st)
  case (Cons s ss)
  then obtain st1 where st1: "RecordSection cfg (MaxNumRecordSegments cfg (m + length (s # ss))) al s st = Inr st1"
    "record_inv cfg (unat al) (m + 1) ss hi p st1"
    using RecordSection_inv [of cfg al m s ss hi p st "m + length (s # ss)"] by auto
  from Cons.IH [OF st1(2) Cons.prems(2,3)] show ?case
    using st1(1) by simp
qed simp

text \<open>The range of the headers is discarded where the first section that is not empty starts the image.\<close>

lemma RecordSection_start_zero:
  assumes "VirtualSize s \<noteq> 0" "VirtualAddress s = 0"
  shows "RecordSection cfg M al s \<lparr>RangeStart = 0, RangeEnd = h, RangeCharacteristics = EFI_IMAGE_SCN_MEM_READ,
      RangeAttributes = a, RangeSegments = []\<rparr> =
    RecordSection cfg M al s \<lparr>RangeStart = 0, RangeEnd = 0, RangeCharacteristics = EFI_IMAGE_SCN_MEM_READ,
      RangeAttributes = a, RangeSegments = []\<rparr>"
  using assms by (simp add: RecordSection_def Let_def)

lemma RecordSections_start_zero:
  "starts_image ss \<Longrightarrow>
   RecordSections cfg M al ss \<lparr>RangeStart = 0, RangeEnd = h, RangeCharacteristics = EFI_IMAGE_SCN_MEM_READ,
      RangeAttributes = a, RangeSegments = []\<rparr> =
   RecordSections cfg M al ss \<lparr>RangeStart = 0, RangeEnd = 0, RangeCharacteristics = EFI_IMAGE_SCN_MEM_READ,
      RangeAttributes = a, RangeSegments = []\<rparr>"
proof (induction ss)
  case (Cons s ss)
  then show ?case
    by (cases "VirtualSize s = 0") (simp_all add: RecordSection_start_zero [where h = h], simp add: RecordSection_def)
qed simp

section \<open>The record of a validated PE/COFF image\<close>

lemma align_up_offset: "a dvd x \<Longrightarrow> align_up (x + y) a = x + align_up y a"
  by (auto elim!: dvdE simp: align_up_def)

lemma section_chain_placed:
  assumes "0 < al" "section_chain cfg fsize al lo ss hi"
    and "if strict_sections cfg then lo' = lo \<and> al dvd lo else lo' \<le> align_up lo al"
  shows "placed (strict_sections cfg) al lo' ss (align_up hi al)"
  using assms(2,3)
proof (induction ss arbitrary: lo lo')
  case (Cons s ss)
  let ?n = "next_start cfg al (sec_end s)"
  have s: "al dvd sec_start s" "if strict_sections cfg then sec_start s = lo else align_up lo al \<le> sec_start s"
    "section_chain cfg fsize al ?n ss hi"
    using Cons.prems(1) by (auto simp: wf_section_def intro: align_up_least)
  have n: "if strict_sections cfg then ?n = sec_start s + align_up (unat (VirtualSize s)) al else align_up ?n al = sec_start s + align_up (unat (VirtualSize s)) al"
    using s(1) by (simp add: next_start_def align_up_offset)
  have zero: "align_up 0 al = 0"
    by (simp add: align_up_def)
  show ?case
  proof (cases "VirtualSize s = 0")
    case True
    then have "placed (strict_sections cfg) al lo' ss (align_up hi al)"
      using s n zero Cons.prems(2) by (intro Cons.IH [OF s(3)]) (auto split: if_splits)
    then show ?thesis
      using True by simp
  next
    case False
    have "placed (strict_sections cfg) al (sec_start s + align_up (unat (VirtualSize s)) al) ss (align_up hi al)"
      using s n assms(1) by (intro Cons.IH [OF s(3)]) (auto split: if_splits)
    then show ?thesis
      using False s(2) Cons.prems(2) by (auto split: if_splits)
  qed
qed (use assms(1) in \<open>auto simp: align_up_ge split: if_splits\<close>)

lemma placed_weaken: "placed strict al lo ss hi \<Longrightarrow> lo' \<le> lo \<Longrightarrow> placed False al lo' ss hi"
proof (induction ss arbitrary: lo lo')
  case (Cons s ss)
  then show ?case
    by (fastforce split: if_splits)
qed simp

lemma paint_from:
  "lo \<le> lo' \<Longrightarrow> placed strict al lo' ss hi \<Longrightarrow> paint cfg al lo ss hi = replicate (lo' - lo) read_only_data @ paint cfg al lo' ss hi"
proof (induction ss arbitrary: lo lo')
  case Nil
  then obtain k where "hi = lo' + k" "lo' = lo + (lo' - lo)"
    by (auto simp: le_iff_add)
  then show ?case
    by (simp flip: replicate_add)
next
  case (Cons s ss)
  have "replicate (sec_start s - lo) x = replicate (lo' - lo) x @ replicate (sec_start s - lo') x"
    if "lo' \<le> sec_start s" for x :: u32
    using that Cons.prems(1) by (simp flip: replicate_add)
  then show ?case
    using Cons by (auto split: if_splits)
qed

text \<open>
  Where the headers lie in the image: in front of the sections, and aligned where sections must be
  adjacent; or not at all, where the first section that is not empty starts the image.
\<close>

definition headers_fit :: "loader_cfg \<Rightarrow> pe_context \<Rightarrow> bool" where
  "headers_fit cfg c \<longleftrightarrow>
     starts_image (Sections c) \<or>
     VirtualAddress (hd (Sections c)) \<noteq> 0 \<and>
     (strict_sections cfg \<longrightarrow> unat (SectionAlignment c) dvd unat (SizeOfHeaders c))"

lemma starts_image_in: "starts_image ss \<Longrightarrow> \<exists>s \<in> set ss. VirtualAddress s = 0"
  by (induction ss) (auto split: if_splits)

text \<open>The address at which the range of the headers ends, once it is discarded where it has to be.\<close>

definition headers_end :: "pe_context \<Rightarrow> u32" where
  "headers_end c = (if starts_image (Sections c) then 0 else SizeOfHeaders c)"

lemma wf_context_placed:
  assumes wf: "wf_context cfg c" and fit: "headers_fit cfg c"
  shows "placed (strict_sections cfg) (unat (SectionAlignment c)) (unat (headers_end c)) (Sections c) (unat (SizeOfImage c))"
proof -
  let ?al = "unat (SectionAlignment c)"
  have al: "0 < ?al"
    using wf_contextD(7) [OF wf] .
  obtain hi where hi: "section_chain cfg (unat (FileSize c)) ?al (image_start cfg c) (Sections c) hi"
    "unat (SizeOfImage c) = align_up hi ?al"
    using wf_contextD(3) [OF wf] by (auto simp: wf_sections_def)
  have "if strict_sections cfg then unat (headers_end c) = image_start cfg c \<and> ?al dvd image_start cfg c
    else unat (headers_end c) \<le> align_up (image_start cfg c) ?al"
  proof (cases "starts_image (Sections c)")
    case True
    then obtain s where "s \<in> set (Sections c)" "VirtualAddress s = 0"
      using starts_image_in by blast
    then have "image_start cfg c = 0"
      using wf_sections_bounds(2) [OF wf] by fastforce
    then show ?thesis
      using True by (simp add: headers_end_def)
  next
    case False
    then show ?thesis
      using fit al align_up_id_iff [OF al, of "unat (SizeOfHeaders c)"]
      by (auto simp: headers_fit_def headers_end_def image_start_def next_start_def)
  qed
  then show ?thesis
    unfolding hi(2) by (rule section_chain_placed [OF al hi(1)])
qed

text \<open>Recording the last range and the trailer of the image.\<close>

lemma record_inv_end:
  assumes "record_inv cfg al n [] (unat sz) p st"
  shows "RangeStart st < RangeEnd st \<and> (\<exists>Segs. bindR (AddRecordSegment (MaxNumRecordSegments cfg n) (RangeSegments st)
        \<lparr>RecSize = RangeEnd st - RangeStart st, RecAttributes = RangeAttributes st\<rparr>)
      (InternalInsertImageRecordSegmentPadding (MaxNumRecordSegments cfg n) (RangeEnd st) sz (RangeAttributes st)) = Inr Segs \<and>
    length Segs \<le> MaxNumRecordSegments cfg n \<and> expand Segs = p)"
proof -
  let ?M = "MaxNumRecordSegments cfg n"
  obtain a b where a: "unat (RangeEnd st) = unat (RangeStart st) + a" and b: "unat sz = unat (RangeEnd st) + b"
    using assms by (auto simp: record_inv_def le_iff_add)
  let ?g = "\<lparr>RecSize = RangeEnd st - RangeStart st, RecAttributes = RangeAttributes st\<rparr>" and ?gs = "RangeSegments st"
  have g: "unat (RangeEnd st - RangeStart st) = a"
    using a by (simp add: unat_sub word_le_nat_alt)
  have less: "RangeStart st < RangeEnd st"
    using assms a by (auto simp: record_inv_def word_less_nat_alt word_unat_eq_iff)
  have add: "AddRecordSegment ?M ?gs ?g = Inr (?gs @ [?g])" "RangeAttributes st \<noteq> read_only_data \<Longrightarrow> length (?gs @ [?g]) < ?M"
    "length (?gs @ [?g]) \<le> ?M"
    using assms by (auto simp: AddRecordSegment_def MaxNumRecordSegments_def record_inv_def record_count_def split: if_splits)
  have "\<exists>Segs. InternalInsertImageRecordSegmentPadding ?M (RangeEnd st) (sz) (RangeAttributes st) (?gs @ [?g]) = Inr Segs \<and>
      expand Segs = expand (?gs @ [?g]) @ replicate (unat sz - unat (RangeEnd st)) read_only_data \<and>
      length Segs = length (?gs @ [?g]) + (if sz = RangeEnd st \<or> RangeAttributes st = read_only_data then 0 else 1)"
    using a b g add(2) u32_less [of "sz"] by (intro padding_wp) simp_all
  then obtain Segs where "InternalInsertImageRecordSegmentPadding ?M (RangeEnd st) (sz) (RangeAttributes st) (?gs @ [?g]) = Inr Segs"
    "expand Segs = p" "length Segs \<le> ?M"
    using assms a b g add(2,3) by (auto simp: record_inv_def split: if_splits)
  then show ?thesis
    using less add(1) by simp
qed

lemma RecordImageSegments_exact:
  assumes wf: "wf_context cfg c" and fit: "headers_fit cfg c"
  shows "\<exists>Segs. RecordImageSegments cfg (SectionAlignment c) (SizeOfHeaders c) (SizeOfImage c) (Sections c) = Inr Segs \<and>
    length Segs \<le> MaxNumRecordSegments cfg (length (Sections c)) \<and>
    expand Segs = paint cfg (unat (SectionAlignment c)) 0 (Sections c) (unat (SizeOfImage c))"
proof -
  let ?al = "SectionAlignment c" and ?ss = "Sections c" and ?hi = "unat (SizeOfImage c)"
  let ?M = "MaxNumRecordSegments cfg (length (Sections c))" and ?p = "paint cfg (unat (SectionAlignment c)) 0 ?ss ?hi"
  let ?st = "\<lambda>h. \<lparr>RangeStart = 0, RangeEnd = h, RangeCharacteristics = EFI_IMAGE_SCN_MEM_READ,
      RangeAttributes = read_only_data, RangeSegments = []\<rparr>"
  have run: "RecordSections cfg ?M ?al ?ss (?st (SizeOfHeaders c)) = RecordSections cfg ?M ?al ?ss (?st (headers_end c))"
    by (simp add: headers_end_def RecordSections_start_zero [where h = "SizeOfHeaders c"])
  have "SizeOfHeaders c \<noteq> 0"
    using wf_contextD(1) [OF wf] by (auto simp: wf_headers_def)
  then have "record_inv cfg (unat ?al) 0 ?ss ?hi ?p (?st (headers_end c))"
    using wf_context_placed [OF wf fit] paint_from [OF _ wf_context_placed [OF wf fit], of 0 cfg] read_attributes [of cfg]
    by (simp add: record_inv_def record_count_def headers_end_def)
  from RecordSections_inv [OF this wf_contextD(2) [OF wf]]
  obtain st where st: "RecordSections cfg ?M ?al ?ss (?st (SizeOfHeaders c)) = Inr st" "record_inv cfg (unat ?al) (length ?ss) [] ?hi ?p st"
    using u32_less [of "SizeOfImage c"] unfolding run by auto
  from record_inv_end [OF st(2)] show ?thesis
    using st(1) read_attributes [of cfg] by (auto simp: RecordImageSegments_def)
qed

text \<open>The painting gives the addresses of a section its permissions, and all others are read-only data.\<close>

abbreviation in_section :: "nat \<Rightarrow> nat \<Rightarrow> EFI_IMAGE_SECTION_HEADER \<Rightarrow> bool" where
  "in_section al x s \<equiv> VirtualSize s \<noteq> 0 \<and> sec_start s \<le> x \<and> x < sec_start s + align_up (unat (VirtualSize s)) al"

lemma length_paint: "placed strict al lo ss hi \<Longrightarrow> length (paint cfg al lo ss hi) = hi - lo"
proof (induction ss arbitrary: lo)
  case (Cons s ss)
  then show ?case
    using placed_bound [of strict al "sec_start s + align_up (unat (VirtualSize s)) al" ss hi] by (auto split: if_splits)
qed simp

lemma placed_section_ge: "placed strict al lo ss hi \<Longrightarrow> s \<in> set ss \<Longrightarrow> VirtualSize s \<noteq> 0 \<Longrightarrow> lo \<le> sec_start s"
proof (induction ss arbitrary: lo)
  case (Cons t ss)
  then show ?case
    by (fastforce split: if_splits)
qed simp

lemma paint_nth:
  assumes "placed strict al lo ss hi" "lo \<le> x" "x < hi"
  shows "(\<forall>s \<in> set ss. in_section al x s \<longrightarrow> paint cfg al lo ss hi ! (x - lo) = InternalCharacteristicsToAttributes cfg (permission_bits s)) \<and>
    ((\<forall>s \<in> set ss. \<not> in_section al x s) \<longrightarrow> paint cfg al lo ss hi ! (x - lo) = read_only_data)"
  using assms
proof (induction ss arbitrary: lo)
  case (Cons s ss)
  show ?case
  proof (cases "VirtualSize s = 0")
    case False
    let ?e = "sec_start s + align_up (unat (VirtualSize s)) al"
    have pl: "lo \<le> sec_start s" "placed strict al ?e ss hi"
      using Cons.prems(1) False by (auto split: if_splits)
    have later: "\<not> in_section al x t" if "t \<in> set ss" "x < ?e" for t
      using placed_section_ge [OF pl(2) that(1)] that(2) by auto
    consider "x < sec_start s" | "sec_start s \<le> x" "x < ?e" | "?e \<le> x"
      by linarith
    then show ?thesis
    proof cases
      case 1
      then show ?thesis
        using False Cons.prems(2) later by (auto simp: nth_append)
    next
      case 2
      then have "\<not> x - lo < sec_start s - lo" "x - lo - (sec_start s - lo) < align_up (unat (VirtualSize s)) al"
        using pl(1) Cons.prems(2) by auto
      then show ?thesis
        using 2 False later by (auto simp: nth_append)
    next
      case 3
      then have "\<not> x - lo < sec_start s - lo" "\<not> x - lo - (sec_start s - lo) < align_up (unat (VirtualSize s)) al"
        "x - lo - (sec_start s - lo) - align_up (unat (VirtualSize s)) al = x - ?e"
        using pl(1) by auto
      then show ?thesis
        using Cons.IH [OF pl(2) 3 Cons.prems(3)] 3 False by (auto simp: nth_append)
    qed
  qed (use Cons in auto)
qed simp

lemma attributes_wx:
  assumes "PcdImageLoaderRemoveXForWX cfg \<or> \<not> (C AND EFI_IMAGE_SCN_MEM_EXECUTE \<noteq> 0 \<and> C AND EFI_IMAGE_SCN_MEM_WRITE \<noteq> 0)"
  shows "write_xor_execute (InternalCharacteristicsToAttributes cfg C)"
proof -
  have x: "(C AND NOT a) AND a = 0" for a
    by (rule bit_word_eqI) (auto simp: bit_and_iff bit_not_iff)
  show ?thesis
    unfolding write_xor_execute_def InternalCharacteristicsToAttributes_def Let_def wx_bits
    using assms x [of EFI_IMAGE_SCN_MEM_EXECUTE] by auto
qed

lemma permission_bits_wx:
  "permission_bits s AND EFI_IMAGE_SCN_MEM_EXECUTE = Characteristics s AND EFI_IMAGE_SCN_MEM_EXECUTE"
  "permission_bits s AND EFI_IMAGE_SCN_MEM_WRITE = Characteristics s AND EFI_IMAGE_SCN_MEM_WRITE"
  by (simp_all add: permission_bits_def and.assoc)

lemma section_attributes_wx:
  assumes "wf_context cfg c" "PcdImageLoaderWXorX cfg \<or> PcdImageLoaderRemoveXForWX cfg" "s \<in> set (Sections c)"
  shows "write_xor_execute (InternalCharacteristicsToAttributes cfg (permission_bits s))"
  using wf_sections_bounds(1) [OF assms(1,3)] assms(2)
  by (intro attributes_wx) (auto simp: wf_section_def wx_violation_iff permission_bits_wx)

text \<open>What the record of a validated and loaded image holds.\<close>

definition records_permissions :: "loader_cfg \<Rightarrow> pe_context \<Rightarrow> u32 list \<Rightarrow> bool" where
  "records_permissions cfg c a \<longleftrightarrow>
     length a = unat (SizeOfImage c) \<and>
     (\<forall>x < length a.
        (\<forall>s \<in> set (Sections c). in_section (unat (SectionAlignment c)) x s \<longrightarrow>
           a ! x = InternalCharacteristicsToAttributes cfg (permission_bits s)) \<and>
        ((\<forall>s \<in> set (Sections c). \<not> in_section (unat (SectionAlignment c)) x s) \<longrightarrow> a ! x = read_only_data))"

lemma records_permissions_wx:
  assumes "wf_context cfg c" "PcdImageLoaderWXorX cfg \<or> PcdImageLoaderRemoveXForWX cfg" "records_permissions cfg c a"
  shows "list_all write_xor_execute a"
  unfolding list_all_length
proof (intro allI impI)
  fix x
  assume "x < length a"
  then show "write_xor_execute (a ! x)"
    using assms(3) section_attributes_wx [OF assms(1,2)]
    by (cases "\<exists>s \<in> set (Sections c). in_section (unat (SectionAlignment c)) x s")
      (auto simp: records_permissions_def write_xor_execute_def)
qed

lemma UefiImageLoaderGetImageRecordPe_exact:
  assumes wf: "wf_context cfg c" and fit: "headers_fit cfg c" and "ImageBuffer c \<noteq> NotLoaded"
  shows "\<exists>Segs. UefiImageLoaderGetImageRecordPe cfg ok c =
      Inr (if ok (40 + MaxNumRecordSegments cfg (length (Sections c)) * 8)
           then Some \<lparr>NumSegments = length Segs, RecStartAddress = ImageAddress c (ImageBuffer c),
                      RecEndAddress = ImageAddress c (ImageBuffer c) + ucast (SizeOfImage c),
                      RecSegments = Segs @ replicate (MaxNumRecordSegments cfg (length (Sections c)) - length Segs) zero_segment\<rparr>
           else None) \<and>
    length Segs \<le> MaxNumRecordSegments cfg (length (Sections c)) \<and> records_permissions cfg c (expand Segs)"
proof -
  obtain Segs where Segs: "RecordImageSegments cfg (SectionAlignment c) (SizeOfHeaders c) (SizeOfImage c) (Sections c) = Inr Segs"
    "length Segs \<le> MaxNumRecordSegments cfg (length (Sections c))"
    "expand Segs = paint cfg (unat (SectionAlignment c)) 0 (Sections c) (unat (SizeOfImage c))"
    using RecordImageSegments_exact [OF wf fit] by blast
  have pl: "placed False (unat (SectionAlignment c)) 0 (Sections c) (unat (SizeOfImage c))"
    using placed_weaken [OF wf_context_placed [OF wf fit]] by simp
  have "PeCoffGetSectionTable c = Inr (Sections c)"
    using wf_contextD(1) [OF wf] by (simp add: read_Sections)
  moreover have "records_permissions cfg c (expand Segs)"
    unfolding records_permissions_def Segs(3)
    using length_paint [OF pl, of cfg] paint_nth [OF pl le0, of _ cfg] by simp
  ultimately show ?thesis
    using Segs(1,2) assms(3)
    by (auto simp: UefiImageLoaderGetImageRecordPe_def Let_def PeCoffGetSectionAlignment_def PeCoffGetSizeOfHeaders_def
        PeCoffGetSizeOfImage_def PeCoffLoaderGetImageAddress_def)
qed

section \<open>Padding behind the headers\<close>

text \<open>
  Where sections must be adjacent, the padding behind the headers is not recorded: the record misses
  the distance between the end of the headers and the first section.
\<close>

lemma RecordSection_first:
  assumes "strict_sections cfg" "VirtualSize s \<noteq> 0" "VirtualAddress s \<noteq> 0" "permission_bits s \<noteq> EFI_IMAGE_SCN_MEM_READ" "0 < MaxNum"
  shows "RecordSection cfg MaxNum al s \<lparr>RangeStart = 0, RangeEnd = h, RangeCharacteristics = EFI_IMAGE_SCN_MEM_READ,
      RangeAttributes = read_only_data, RangeSegments = []\<rparr> =
    Inr \<lparr>RangeStart = VirtualAddress s, RangeEnd = VirtualAddress s + ALIGN_VALUE (VirtualSize s) al,
         RangeCharacteristics = permission_bits s,
         RangeAttributes = InternalCharacteristicsToAttributes cfg (permission_bits s),
         RangeSegments = [\<lparr>RecSize = h, RecAttributes = read_only_data\<rparr>]\<rparr>"
  using assms by (simp add: RecordSection_def Let_def CloseRange_def AddRecordSegment_def)

lemma record_inv_headers:
  assumes "record_inv cfg al m ss hi p (st\<lparr>RangeSegments := [\<lparr>RecSize = v, RecAttributes = a\<rparr>]\<rparr>)"
  shows "record_inv cfg al m ss hi (replicate (unat h) a @ drop (unat v) p) (st\<lparr>RangeSegments := [\<lparr>RecSize = h, RecAttributes = a\<rparr>]\<rparr>)"
  using assms by (auto simp: record_inv_def record_count_def cong: if_cong split: if_splits)

lemma strict_record_misses_padding:
  assumes wf: "wf_context cfg c" and strict: "strict_sections cfg" and s: "Sections c = s # ss" "VirtualSize s \<noteq> 0"
    "VirtualAddress s \<noteq> 0" "permission_bits s \<noteq> EFI_IMAGE_SCN_MEM_READ"
  shows "\<exists>Segs. RecordImageSegments cfg (SectionAlignment c) (SizeOfHeaders c) (SizeOfImage c) (Sections c) = Inr Segs \<and>
    length (expand Segs) + (sec_start s - unat (SizeOfHeaders c)) = unat (SizeOfImage c) \<and>
    sec_start s = align_up (unat (SizeOfHeaders c)) (unat (SectionAlignment c))"
proof -
  let ?al = "SectionAlignment c" and ?hi = "unat (SizeOfImage c)" and ?M = "MaxNumRecordSegments cfg (length (Sections c))"
  let ?st = "\<lambda>h. \<lparr>RangeStart = 0, RangeEnd = h, RangeCharacteristics = EFI_IMAGE_SCN_MEM_READ,
      RangeAttributes = read_only_data, RangeSegments = []\<rparr>"
  let ?st1 = "\<lambda>h. \<lparr>RangeStart = VirtualAddress s, RangeEnd = VirtualAddress s + ALIGN_VALUE (VirtualSize s) ?al,
      RangeCharacteristics = permission_bits s, RangeAttributes = InternalCharacteristicsToAttributes cfg (permission_bits s),
      RangeSegments = [\<lparr>RecSize = h, RecAttributes = read_only_data\<rparr>]\<rparr>"
  have first: "RecordSection cfg ?M ?al s (?st h) = Inr (?st1 h)" for h
    using RecordSection_first [OF strict s(2-4)] by (simp add: MaxNumRecordSegments_def)
  note al = wf_contextD(7) [OF wf]
  obtain hi where hi: "section_chain cfg (unat (FileSize c)) (unat ?al) (image_start cfg c) (Sections c) hi" "?hi = align_up hi (unat ?al)"
    using wf_contextD(3) [OF wf] by (auto simp: wf_sections_def)
  have start: "sec_start s = image_start cfg c" "image_start cfg c = align_up (unat (SizeOfHeaders c)) (unat ?al)"
    using hi(1) strict s by (auto simp: image_start_def next_start_def)
  have placed: "placed True (unat ?al) (sec_start s) (s # ss) ?hi"
    using section_chain_placed [OF al hi(1), of "image_start cfg c"] strict al start by (simp add: hi(2) s(1))
  note bound = placed_bound [OF placed]
  let ?p = "paint cfg (unat ?al) 0 (s # ss) ?hi"
  have "record_inv cfg (unat ?al) 0 (s # ss) ?hi ?p (?st (VirtualAddress s))"
    using placed paint_from [OF _ placed, of 0 cfg] read_attributes [of cfg] strict s(3)
    by (simp add: record_inv_def record_count_def)
  from RecordSection_inv [OF this wf_contextD(2) [OF wf], of "length (Sections c)"]
  have inv: "record_inv cfg (unat ?al) 1 ss ?hi ?p (?st1 (VirtualAddress s))"
    using first [of "VirtualAddress s"] u32_less [of "SizeOfImage c"] by (auto simp: s(1))
  let ?tl = "drop (sec_start s) ?p"
  have "record_inv cfg (unat ?al) 1 ss ?hi (replicate (unat (SizeOfHeaders c)) read_only_data @ ?tl) (?st1 (SizeOfHeaders c))"
    using record_inv_headers [where st = "?st1 0"] inv by simp
  from RecordSections_inv [OF this wf_contextD(2) [OF wf]]
  obtain st where st: "RecordSections cfg ?M ?al (Sections c) (?st (SizeOfHeaders c)) = Inr st"
    "record_inv cfg (unat ?al) (length (Sections c)) [] ?hi (replicate (unat (SizeOfHeaders c)) read_only_data @ ?tl) st"
    using u32_less [of "SizeOfImage c"] first by (auto simp: s(1))
  have "unat (SizeOfHeaders c) \<le> sec_start s" "length ?p = ?hi"
    using start al length_paint [OF placed_weaken [OF placed le0], of cfg] by (simp_all add: align_up_ge)
  then show ?thesis
    using record_inv_end [OF st(2)] st(1) read_attributes [of cfg] bound start
    by (auto simp: RecordImageSegments_def)
qed

end
