(* ===== verification/UeRecord.thy ===== *)
theory UeRecord
  imports ImageRecord UeLoad
begin

text \<open>
  The image records of UE images (\<^verbatim>\<open>UefiImageLoaderGetImageRecordUe\<close> of
  \<^verbatim>\<open>BaseUefiImageLib/UeSupport.c\<close>): adjacent segments with the same permissions are merged.
\<close>

section \<open>The record\<close>

definition InternalPermissionsToAttributes :: "u8 \<Rightarrow> u32 result" where
  "InternalPermissionsToAttributes Permissions =
     (if Permissions = 0 then Inr (EFI_MEMORY_RP OR EFI_MEMORY_RO)
      else if Permissions = 1 then Inr EFI_MEMORY_RO
      else if Permissions = 2 then Inr EFI_MEMORY_XP
      else assertR (Permissions = 3) (Inr (EFI_MEMORY_XP OR EFI_MEMORY_RO)))"

text \<open>The arguments are the ImageInfo of the remaining segments and the variables of the loop.\<close>

fun RecordUeSegments ::
  "nat \<Rightarrow> u32 list \<Rightarrow> u32 \<Rightarrow> u8 \<Rightarrow> u32 \<Rightarrow> record_segment list \<Rightarrow> (record_segment list \<times> u32) result" where
  "RecordUeSegments MaxNum [] RangeSize Permissions ImageSizeRecord Segs =
     bindR (InternalPermissionsToAttributes Permissions) (\<lambda>Attributes.
     bindR (AddRecordSegment MaxNum Segs \<lparr>RecSize = RangeSize, RecAttributes = Attributes\<rparr>) (\<lambda>Segs.
     Inr (Segs, ImageSizeRecord)))"
| "RecordUeSegments MaxNum (ImageInfo # Infos) RangeSize Permissions ImageSizeRecord Segs =
     (let SegmentSize = UE_SEGMENT_SIZE ImageInfo;
          SegmentPermissions = UE_SEGMENT_PERMISSIONS ImageInfo
      in if SegmentPermissions = Permissions then
           RecordUeSegments MaxNum Infos (RangeSize + SegmentSize) Permissions (ImageSizeRecord + SegmentSize) Segs
         else
           bindR (InternalPermissionsToAttributes Permissions) (\<lambda>Attributes.
           bindR (AddRecordSegment MaxNum Segs \<lparr>RecSize = RangeSize, RecAttributes = Attributes\<rparr>) (\<lambda>Segs.
           RecordUeSegments MaxNum Infos SegmentSize SegmentPermissions (ImageSizeRecord + SegmentSize) Segs)))"

definition UefiImageLoaderGetImageRecordUe :: "(nat \<Rightarrow> bool) \<Rightarrow> ue_context \<Rightarrow> UEFI_IMAGE_RECORD option result" where
  "UefiImageLoaderGetImageRecordUe AllocOk Context =
     bindR (UeGetSegmentImageInfos Context) (\<lambda>Infos.
     if \<not> AllocOk (40 + length Infos * 8) then Inr None
     else
       case Infos of
         [] \<Rightarrow> Inl OutOfBounds
       | ImageInfo # Rest \<Rightarrow>
           bindR (RecordUeSegments (length Infos) Rest (UE_SEGMENT_SIZE ImageInfo) (UE_SEGMENT_PERMISSIONS ImageInfo)
                    (UE_SEGMENT_SIZE ImageInfo) []) (\<lambda>(Segs, ImageSizeRecord).
           let ImageAddr = UeLoaderGetImageAddress Context;
               ImageSz = UeGetImageSize Context
           in assertR (ImageSz = ImageSizeRecord)
              (Inr (Some \<lparr>NumSegments = length Segs, RecStartAddress = ImageAddr,
                          RecEndAddress = ImageAddr + ucast ImageSz,
                          RecSegments = Segs @ replicate (length Infos - length Segs) zero_segment\<rparr>))))"

section \<open>The permissions of every address\<close>

definition permission_attributes :: "u32 \<Rightarrow> u32" where
  "permission_attributes i =
     (if UE_SEGMENT_PERMISSIONS i = 0 then EFI_MEMORY_RP OR EFI_MEMORY_RO
      else if UE_SEGMENT_PERMISSIONS i = 1 then EFI_MEMORY_RO
      else if UE_SEGMENT_PERMISSIONS i = 2 then EFI_MEMORY_XP
      else EFI_MEMORY_XP OR EFI_MEMORY_RO)"

definition ue_paint :: "u32 list \<Rightarrow> u32 list" where
  "ue_paint is = concat (map (\<lambda>i. replicate (unat (UE_SEGMENT_SIZE i)) (permission_attributes i)) is)"

definition info_total :: "u32 list \<Rightarrow> nat" where
  "info_total is = sum_list (map (\<lambda>i. unat (UE_SEGMENT_SIZE i)) is)"

lemma ue_paint_simps [simp]:
  "ue_paint [] = []" "ue_paint (i # is) = replicate (unat (UE_SEGMENT_SIZE i)) (permission_attributes i) @ ue_paint is"
  "info_total [] = 0" "info_total (i # is) = unat (UE_SEGMENT_SIZE i) + info_total is"
  by (simp_all add: ue_paint_def info_total_def)

lemma length_ue_paint: "length (ue_paint is) = info_total is"
  by (induction "is") simp_all

lemma permissions_range: "UE_SEGMENT_PERMISSIONS i \<in> {0, 1, 2, 3}"
proof -
  have "unat (drop_bit 20 i AND 3) \<le> 3"
    using word_and_le1 [of "drop_bit 20 i" 3] by (simp add: word_le_nat_alt)
  then have "unat (UE_SEGMENT_PERMISSIONS i) \<le> 3"
    by (simp add: UE_SEGMENT_PERMISSIONS_def unsigned_ucast_eq take_bit_nat_eq_self)
  then have "unat (UE_SEGMENT_PERMISSIONS i) \<in> {0, 1, 2, 3}"
    by auto
  then show ?thesis
    by (auto simp: word_unat_eq_iff)
qed

lemma PermissionsToAttributes_exact:
  "InternalPermissionsToAttributes (UE_SEGMENT_PERMISSIONS i) = Inr (permission_attributes i)"
  using permissions_range [of i] by (auto simp: InternalPermissionsToAttributes_def permission_attributes_def)

lemma RecordUeSegments_exact:
  assumes "length Segs + length is < MaxNum" "unat r + info_total is < 2 ^ 32"
  shows "\<exists>Segs'. RecordUeSegments MaxNum is r (UE_SEGMENT_PERMISSIONS i) z Segs = Inr (Segs', z + word_of_nat (info_total is)) \<and>
    length Segs' \<le> length Segs + length is + 1 \<and>
    expand Segs' = expand Segs @ replicate (unat r) (permission_attributes i) @ ue_paint is"
  using assms
proof (induction "is" arbitrary: Segs r i z)
  case Nil
  then show ?case
    by (simp add: PermissionsToAttributes_exact AddRecordSegment_def)
next
  case (Cons j "is")
  have z: "z + UE_SEGMENT_SIZE j + word_of_nat (info_total is) = z + word_of_nat (info_total (j # is))"
    by simp
  show ?case
  proof (cases "UE_SEGMENT_PERMISSIONS j = UE_SEGMENT_PERMISSIONS i")
    case True
    then have same: "permission_attributes j = permission_attributes i"
      by (simp add: permission_attributes_def)
    have sum: "unat (r + UE_SEGMENT_SIZE j) = unat r + unat (UE_SEGMENT_SIZE j)"
      using Cons.prems(2) by (intro unat_add_u32) simp
    obtain Segs' where "RecordUeSegments MaxNum is (r + UE_SEGMENT_SIZE j) (UE_SEGMENT_PERMISSIONS i) (z + UE_SEGMENT_SIZE j) Segs =
        Inr (Segs', z + UE_SEGMENT_SIZE j + word_of_nat (info_total is))"
      "length Segs' \<le> length Segs + length is + 1"
      "expand Segs' = expand Segs @ replicate (unat (r + UE_SEGMENT_SIZE j)) (permission_attributes i) @ ue_paint is"
      using Cons.IH [of Segs "r + UE_SEGMENT_SIZE j" i "z + UE_SEGMENT_SIZE j"] Cons.prems by (auto simp: sum)
    then show ?thesis
      unfolding z by (simp add: True Let_def same sum replicate_add)
  next
    case False
    let ?Segs = "Segs @ [\<lparr>RecSize = r, RecAttributes = permission_attributes i\<rparr>]"
    obtain Segs' where "RecordUeSegments MaxNum is (UE_SEGMENT_SIZE j) (UE_SEGMENT_PERMISSIONS j) (z + UE_SEGMENT_SIZE j) ?Segs =
        Inr (Segs', z + UE_SEGMENT_SIZE j + word_of_nat (info_total is))"
      "length Segs' \<le> length ?Segs + length is + 1"
      "expand Segs' = expand ?Segs @ replicate (unat (UE_SEGMENT_SIZE j)) (permission_attributes j) @ ue_paint is"
      using Cons.IH [of ?Segs "UE_SEGMENT_SIZE j" j "z + UE_SEGMENT_SIZE j"] Cons.prems by auto
    then show ?thesis
      using False Cons.prems(1) unfolding z
      by (simp add: Let_def PermissionsToAttributes_exact AddRecordSegment_def)
  qed
qed

section \<open>The record of a validated image\<close>

lemma info_total_segments: "info_total (map SegImageInfo ss) = image_total ss"
  by (induction ss) simp_all

lemma permission_attributes_wx: "write_xor_execute (permission_attributes i)"
  by (simp add: permission_attributes_def write_xor_execute_def)

lemma ue_paint_wx: "list_all write_xor_execute (ue_paint is)"
  by (induction "is") (simp_all add: list_all_length permission_attributes_wx nth_append)

lemma wf_ue_xip_size:
  assumes "wf_ue c"
  shows "ImageSize c = word_of_nat (image_total (ue_segments c)) \<longleftrightarrow> \<not> XIP c"
proof -
  have "SegmentsFileOffset c \<noteq> 0"
    using assms by (auto simp: wf_ue_def wf_ue_header_def)
  then show ?thesis
    using assms by (auto simp: wf_ue_def wf_ue_image_def)
qed

lemma UefiImageLoaderGetImageRecordUe_exact:
  assumes wf: "wf_ue c"
  shows "\<exists>Segs. UefiImageLoaderGetImageRecordUe ok c =
      (if \<not> ok (40 + length (ue_segments c) * 8) then Inr None
       else if XIP c then Inl AssertFailed
       else Inr (Some \<lparr>NumSegments = length Segs, RecStartAddress = UeLoaderGetImageAddress c,
                       RecEndAddress = UeLoaderGetImageAddress c + ucast (ImageSize c),
                       RecSegments = Segs @ replicate (length (ue_segments c) - length Segs) zero_segment\<rparr>)) \<and>
    length Segs \<le> length (ue_segments c) \<and> expand Segs = ue_paint (map SegImageInfo (ue_segments c))"
proof -
  let ?is = "map SegImageInfo (ue_segments c)"
  have infos: "UeGetSegmentImageInfos c = Inr ?is"
    using wf by (simp add: UeGetSegmentImageInfos_def wf_ue_def wf_ue_header_reads wf_ue_header_def IS_ALIGNED_def ALIGN_VALUE_SUBTRAHEND_def)
  obtain i "is" where c: "?is = i # is"
    by (cases ?is) (simp_all add: ue_segments_def segment_table_def upt_rec)
  have len: "length is = unat (LastSegmentIndex c)"
    using arg_cong [OF c, of length] by simp
  have tot: "image_total (ue_segments c) = unat (UE_SEGMENT_SIZE i) + info_total is"
    using c info_total_segments [of "ue_segments c"] by simp
  then have "unat (UE_SEGMENT_SIZE i) + info_total is < 2 ^ 32"
    using wf_ue_data(1) [OF wf] by (simp add: wf_segments_def)
  then obtain Segs where Segs: "RecordUeSegments (length is + 1) is (UE_SEGMENT_SIZE i) (UE_SEGMENT_PERMISSIONS i) (UE_SEGMENT_SIZE i) [] =
      Inr (Segs, UE_SEGMENT_SIZE i + word_of_nat (info_total is))"
    "length Segs \<le> length is + 1" "expand Segs = ue_paint ?is"
    using RecordUeSegments_exact [of "[]" "is" "length is + 1" "UE_SEGMENT_SIZE i" i "UE_SEGMENT_SIZE i"] by (auto simp: c)
  have "UE_SEGMENT_SIZE i + word_of_nat (info_total is) = word_of_nat (image_total (ue_segments c))"
    by (simp add: tot)
  then show ?thesis
    using Segs wf_ue_xip_size [OF wf]
    by (intro exI [of _ Segs]) (simp add: UefiImageLoaderGetImageRecordUe_def infos c len UeGetImageSize_def Let_def)
qed

end
