(* ===== verification/RecordSpec.thy ===== *)
theory RecordSpec
  imports PeRecord UeRecord PeCoffSpec UeSpec
begin

text \<open>
  The properties of the image records: what permissions the records of validated images give to every
  byte of the image, and where the records or their computation deviate from the documentation.
\<close>

section \<open>PE/COFF images\<close>



text \<open>C32: where sections must be adjacent, the record of a validated image misses the padding between the end
  of the headers and the first section: the sizes of its segments sum up to less than the size of the
  image, so that every segment behind the headers describes the wrong addresses.\<close>

theorem strict_record_gap:
  assumes "wf_context cfg c" "strict_sections cfg" "ImageBuffer c \<noteq> NotLoaded" "Sections c = s # ss"
    and "VirtualSize s \<noteq> 0" "VirtualAddress s \<noteq> 0" "permission_bits s \<noteq> EFI_IMAGE_SCN_MEM_READ"
  shows "\<exists>R. UefiImageLoaderGetImageRecordPe cfg (\<lambda>_. True) c = Inr (Some R) \<and>
    RecEndAddress R = RecStartAddress R + ucast (SizeOfImage c) \<and>
    length (expand (take (NumSegments R) (RecSegments R))) +
      (align_up (unat (SizeOfHeaders c)) (unat (SectionAlignment c)) - unat (SizeOfHeaders c)) = unat (SizeOfImage c)"
proof -
  have "PeCoffGetSectionTable c = Inr (Sections c)"
    using wf_contextD(1) [OF assms(1)] by (simp add: read_Sections)
  then show ?thesis
    using strict_record_misses_padding [OF assms(1,2,4-7)] assms(3)
    by (auto simp: UefiImageLoaderGetImageRecordPe_def Let_def PeCoffGetSectionAlignment_def PeCoffGetSizeOfHeaders_def
        PeCoffGetSizeOfImage_def PeCoffLoaderGetImageAddress_def)
qed

theorem strict_record_gap_witness:
  "PeCoffInitializeContext strict_cfg padded_file 280 UefiImageOriginFv = Inr padded_context \<and>
   (\<exists>R. UefiImageLoaderGetImageRecordPe strict_cfg (\<lambda>_. True) (padded_context\<lparr>ImageBuffer := Inplace\<rparr>) = Inr (Some R) \<and>
      RecEndAddress R = RecStartAddress R + 288 \<and> length (expand (take (NumSegments R) (RecSegments R))) = 280)"
proof -
  let ?c = "padded_context\<lparr>ImageBuffer := Inplace\<rparr>"
  have "wf_cfg strict_cfg" "strict_sections strict_cfg"
    by (simp_all add: strict_cfg_def wf_cfg_def strict_sections_def sample_cfg_def IS_POW2_def)
  moreover have "wf_context strict_cfg ?c"
    using wp_Inr [OF PeCoffInitializeContext_wp [OF calculation(1)] padded_init] by (simp add: padded_length padded_address)
  moreover have "Sections ?c = [text_header\<lparr>VirtualAddress := 256\<rparr>, reloc_header\<lparr>VirtualAddress := 272\<rparr>]"
    by (simp add: Sections_def padded_context_def sample_context_def padded_table)
  moreover have "align_up 248 16 = 256" "unat (SizeOfHeaders ?c) = 248" "unat (SectionAlignment ?c) = 16" "SizeOfImage ?c = 288"
    by (simp_all add: align_up_def padded_context_def sample_context_def)
  ultimately show ?thesis
    using strict_record_gap [of strict_cfg ?c "text_header\<lparr>VirtualAddress := 256\<rparr>"] padded_init
    by (simp add: permission_bits_def text_header_def)
qed

section \<open>UE images\<close>

text \<open>C29: the record of a validated UE image gives the permissions of its segment to every byte of the image
  and no byte is writable and executable; but for every image that executes in place the computation
  ends in a failing ASSERT.\<close>

theorem UefiImageLoaderGetImageRecordUe_permissions:
  assumes "wf_ue c"
  shows "\<exists>Segs. UefiImageLoaderGetImageRecordUe ok c =
      (if \<not> ok (40 + length (ue_segments c) * 8) then Inr None
       else if XIP c then Inl AssertFailed
       else Inr (Some \<lparr>NumSegments = length Segs, RecStartAddress = UeLoaderGetImageAddress c,
                       RecEndAddress = UeLoaderGetImageAddress c + ucast (ImageSize c),
                       RecSegments = Segs @ replicate (length (ue_segments c) - length Segs) zero_segment\<rparr>)) \<and>
    length Segs \<le> length (ue_segments c) \<and> expand Segs = ue_paint (map SegImageInfo (ue_segments c)) \<and>
    list_all write_xor_execute (expand Segs)"
  using UefiImageLoaderGetImageRecordUe_exact [OF assms, of ok] ue_paint_wx by metis

theorem UefiImageLoaderGetImageRecordUe_permissions_witness:
  "\<exists>Segs. UefiImageLoaderGetImageRecordUe (\<lambda>_. True) ue_sample_loaded =
     Inr (Some \<lparr>NumSegments = length Segs, RecStartAddress = 0x500000, RecEndAddress = 0x501000,
                RecSegments = Segs @ replicate (1 - length Segs) zero_segment\<rparr>) \<and>
     expand Segs = replicate 4096 EFI_MEMORY_RO"
proof -
  have s: "ue_segments ue_sample_loaded = [\<lparr>SegImageInfo = 0x00100001, SegFileSize = 0x10\<rparr>]"
    using ue_sample_ue_segments by (simp add: ue_sample_loaded_def ue_segments_def)
  have l: "\<not> XIP ue_sample_loaded" "UeLoaderGetImageAddress ue_sample_loaded = 0x500000" "ImageSize ue_sample_loaded = 4096"
    by (simp_all add: ue_sample_loaded_def ue_sample_def UeLoaderGetImageAddress_def)
  show ?thesis
    using UefiImageLoaderGetImageRecordUe_permissions [OF ue_sample_reloc_ok(1), of "\<lambda>_. True"]
    by (auto simp: s l ue_sample_packed permission_attributes_def)
qed

end
