(* ===== verification/UefiImage.thy ===== *)
theory UefiImage
  imports PeRecord UeRecord PeCoffRelocate PeCoffHash PeCoffDebug PeCoffHii UeRelocate UeDebug
begin

text \<open>
  The library interface over both image formats (\<^verbatim>\<open>BaseUefiImageLib\<close>): the selection of the format
  from the configuration and the context, the functions that dispatch on it, and the functions of
  \<^verbatim>\<open>CommonSupport.c\<close> and \<^verbatim>\<open>ExecutionSupport.c\<close> that are composed of them.
\<close>

section \<open>Formats and contexts\<close>

abbreviation (input) EFI_IMAGE_SCN_CNT_CODE :: u32 where "EFI_IMAGE_SCN_CNT_CODE \<equiv> 0x20"

datatype UEFI_IMAGE_FORMAT = UefiImageFormatPe | UefiImageFormatUe

text \<open>\<open>FormatBit Format\<close> is \<^verbatim>\<open>1U << Format\<close>.\<close>

primrec FormatBit :: "UEFI_IMAGE_FORMAT \<Rightarrow> u8" where
  "FormatBit UefiImageFormatPe = 1"
| "FormatBit UefiImageFormatUe = 2"

datatype UEFI_IMAGE_SOURCE = UEFI_IMAGE_SOURCE_NON_FV | UEFI_IMAGE_SOURCE_FV | UEFI_IMAGE_SOURCE_ALL

text \<open>
  The configuration: the sources for which the library instance is built
  (\<^verbatim>\<open>UEFI_IMAGE_FORMAT_SUPPORT_SOURCES\<close>), the formats that are supported for each source, and the
  configuration of the loaders.
\<close>

record image_cfg =
  SupportSourceNonFv :: bool
  SupportSourceFv :: bool
  PcdUefiImageFormatSupportNonFv :: u8
  PcdUefiImageFormatSupportFv :: u8
  LoaderCfg :: loader_cfg

definition UEFI_IMAGE_FORMAT_SUPPORT_NON_FV :: "image_cfg \<Rightarrow> u8" where
  "UEFI_IMAGE_FORMAT_SUPPORT_NON_FV cfg = (if SupportSourceNonFv cfg then PcdUefiImageFormatSupportNonFv cfg else 0)"

definition UEFI_IMAGE_FORMAT_SUPPORT_FV :: "image_cfg \<Rightarrow> u8" where
  "UEFI_IMAGE_FORMAT_SUPPORT_FV cfg = (if SupportSourceFv cfg then PcdUefiImageFormatSupportFv cfg else 0)"

definition UEFI_IMAGE_FORMAT_SUPPORT :: "image_cfg \<Rightarrow> u8" where
  "UEFI_IMAGE_FORMAT_SUPPORT cfg = UEFI_IMAGE_FORMAT_SUPPORT_NON_FV cfg OR UEFI_IMAGE_FORMAT_SUPPORT_FV cfg"

definition FORMAT_EQ :: "image_cfg \<Rightarrow> UEFI_IMAGE_FORMAT \<Rightarrow> UEFI_IMAGE_FORMAT \<Rightarrow> bool" where
  "FORMAT_EQ cfg FormatIndex Format \<longleftrightarrow>
     UEFI_IMAGE_FORMAT_SUPPORT cfg = FormatBit Format \<or>
     UEFI_IMAGE_FORMAT_SUPPORT cfg AND FormatBit Format \<noteq> 0 \<and> FormatIndex = Format"

definition FORMAT_SUPPORTED :: "image_cfg \<Rightarrow> UEFI_IMAGE_FORMAT \<Rightarrow> UEFI_IMAGE_SOURCE \<Rightarrow> bool" where
  "FORMAT_SUPPORTED cfg Format Source \<longleftrightarrow>
     UEFI_IMAGE_FORMAT_SUPPORT cfg AND FormatBit Format \<noteq> 0 \<and>
     (Source = UEFI_IMAGE_SOURCE_NON_FV \<and> UEFI_IMAGE_FORMAT_SUPPORT_NON_FV cfg AND FormatBit Format \<noteq> 0 \<or>
      Source = UEFI_IMAGE_SOURCE_FV \<and> UEFI_IMAGE_FORMAT_SUPPORT_FV cfg AND FormatBit Format \<noteq> 0)"

text \<open>The context is the union of the contexts of the formats; the constructor is its FormatIndex.\<close>

datatype image_context = PeContext pe_context | UeContext ue_context

primrec FormatIndex :: "image_context \<Rightarrow> UEFI_IMAGE_FORMAT" where
  "FormatIndex (PeContext c) = UefiImageFormatPe"
| "FormatIndex (UeContext c) = UefiImageFormatUe"

text \<open>
  The dispatch on the format of a context: where the ASSERT of the chosen branch holds, the context
  is one of the format.
\<close>

definition UEFI_IMAGE_EXEC ::
  "image_cfg \<Rightarrow> image_context \<Rightarrow> (ue_context \<Rightarrow> 'a result) \<Rightarrow> (pe_context \<Rightarrow> 'a result) \<Rightarrow> 'a result" where
  "UEFI_IMAGE_EXEC cfg Context UeFunc PeFunc =
     (if FORMAT_EQ cfg (FormatIndex Context) UefiImageFormatUe then
        (case Context of UeContext c \<Rightarrow> UeFunc c | PeContext c \<Rightarrow> Inl AssertFailed)
      else
        (case Context of UeContext c \<Rightarrow> Inl AssertFailed | PeContext c \<Rightarrow> PeFunc c))"

definition map_result :: "('a \<Rightarrow> 'b) \<Rightarrow> 'a result \<Rightarrow> 'b result" where
  "map_result f r = bindR r (\<lambda>x. Inr (f x))"

section \<open>Functions of one format\<close>

definition mPeMachines :: "u16 list" where
  "mPeMachines = [0x014C, 0x8664, 0x01C2, 0xAA64, 0x5032, 0x5064, 0x5128]"

definition UefiImageGetMachineUe :: "ue_context \<Rightarrow> u16" where
  "UefiImageGetMachineUe Context =
     (if unat (UeGetMachine Context) \<ge> length mPeMachines then 0xFFFF
      else mPeMachines ! unat (UeGetMachine Context))"

definition UefiImageGetSubsystemUe :: "ue_context \<Rightarrow> u16" where
  "UefiImageGetSubsystemUe Context = UeGetSubsystem Context + 10"

definition UefiImageLoadImageInplaceUe :: "ue_context \<Rightarrow> ue_context result" where
  "UefiImageLoadImageInplaceUe Context =
     (if XIP Context then Inr (Context\<lparr>UeImageBuffer := Inplace\<rparr>) else fail RETURN_UNSUPPORTED)"

definition UefiImageGetFixedAddressUe :: "ue_context \<Rightarrow> u64 result" where
  "UefiImageGetFixedAddressUe Context =
     (if \<not> UeGetFixedAddress Context then fail RETURN_NOT_FOUND else Inr (BaseAddress Context))"

text \<open>The fixed address is the 64-bit value across the fields PointerToRelocations and PointerToLinenumbers.\<close>

fun FindFixedAddress :: "u32 \<Rightarrow> EFI_IMAGE_SECTION_HEADER list \<Rightarrow> u64 result" where
  "FindFixedAddress Alignment [] = fail RETURN_NOT_FOUND"
| "FindFixedAddress Alignment (s # ss) =
     (if Characteristics s AND EFI_IMAGE_SCN_CNT_CODE \<noteq> 0 then FindFixedAddress Alignment ss
      else
        let FixedAddr = push_bit 32 (ucast (PointerToLinenumbers s)) OR ucast (PointerToRelocations s) :: u64
        in if FixedAddr \<noteq> 0 then
             if \<not> IS_ALIGNED FixedAddr (ucast Alignment) then fail RETURN_UNSUPPORTED else Inr FixedAddr
           else fail RETURN_NOT_FOUND)"

definition UefiImageGetFixedAddressPe :: "pe_context \<Rightarrow> u64 result" where
  "UefiImageGetFixedAddressPe Context =
     bindR (PeCoffGetSectionTable Context) (FindFixedAddress (PeCoffGetSectionAlignment Context))"

section \<open>Validation\<close>

definition InternalInitializeContextPreHash ::
  "image_cfg \<Rightarrow> buffer \<Rightarrow> u32 \<Rightarrow> UEFI_IMAGE_FORMAT \<Rightarrow> UEFI_IMAGE_ORIGIN \<Rightarrow> image_context result" where
  "InternalInitializeContextPreHash cfg Buffer Size Format ImageOrigin =
     (if FORMAT_EQ cfg Format UefiImageFormatUe then
        assertR (Format = UefiImageFormatUe) (map_result UeContext (UeInitializeContextPreHash Buffer Size))
      else
        assertR (Format = UefiImageFormatPe)
          (map_result PeContext (PeCoffInitializeContext (LoaderCfg cfg) Buffer Size ImageOrigin)))"

text \<open>The ASSERTs about the configuration.\<close>

definition FormatSupportAsserts :: "image_cfg \<Rightarrow> UEFI_IMAGE_SOURCE \<Rightarrow> bool" where
  "FormatSupportAsserts cfg Source \<longleftrightarrow>
     (if SupportSourceNonFv cfg
      then PcdUefiImageFormatSupportNonFv cfg AND NOT 3 = 0 \<and> PcdUefiImageFormatSupportNonFv cfg \<noteq> 0
      else Source \<noteq> UEFI_IMAGE_SOURCE_NON_FV) \<and>
     (if SupportSourceFv cfg
      then PcdUefiImageFormatSupportFv cfg AND NOT 3 = 0 \<and> PcdUefiImageFormatSupportFv cfg \<noteq> 0
      else Source \<noteq> UEFI_IMAGE_SOURCE_FV)"

text \<open>The second format is tried where the first one is not supported or reports an error status.\<close>

definition UefiImageInitializeContextPreHash ::
  "image_cfg \<Rightarrow> buffer \<Rightarrow> u32 \<Rightarrow> UEFI_IMAGE_SOURCE \<Rightarrow> UEFI_IMAGE_ORIGIN \<Rightarrow> image_context result" where
  "UefiImageInitializeContextPreHash cfg Buffer Size Source ImageOrigin =
     assertR (FormatSupportAsserts cfg Source)
     (let UeOutcome =
            (if FORMAT_SUPPORTED cfg UefiImageFormatUe Source
             then InternalInitializeContextPreHash cfg Buffer Size UefiImageFormatUe ImageOrigin
             else fail RETURN_UNSUPPORTED)
      in case UeOutcome of
           Inl (Status s) \<Rightarrow>
             if FORMAT_SUPPORTED cfg UefiImageFormatPe Source
             then InternalInitializeContextPreHash cfg Buffer Size UefiImageFormatPe ImageOrigin
             else Inl (Status s)
         | _ \<Rightarrow> UeOutcome)"

definition UefiImageInitializeContextPostHash :: "image_cfg \<Rightarrow> image_context \<Rightarrow> image_context result" where
  "UefiImageInitializeContextPostHash cfg Context =
     UEFI_IMAGE_EXEC cfg Context (\<lambda>c. map_result UeContext (UeInitializeContextPostHash c)) (\<lambda>c. Inr (PeContext c))"

definition UefiImageInitializeContext ::
  "image_cfg \<Rightarrow> buffer \<Rightarrow> u32 \<Rightarrow> UEFI_IMAGE_SOURCE \<Rightarrow> UEFI_IMAGE_ORIGIN \<Rightarrow> image_context result" where
  "UefiImageInitializeContext cfg Buffer Size Source ImageOrigin =
     bindR (UefiImageInitializeContextPreHash cfg Buffer Size Source ImageOrigin)
       (UefiImageInitializeContextPostHash cfg)"

text \<open>\<open>Pool\<close> is the memory that hashing the sections of a PE/COFF image allocates.\<close>

definition UefiImageHashImageDefault ::
  "image_cfg \<Rightarrow> EFI_IMAGE_SECTION_HEADER list option \<Rightarrow> image_context \<Rightarrow> 'h hash_update \<Rightarrow> 'h \<Rightarrow> (bool \<times> 'h) result" where
  "UefiImageHashImageDefault cfg Pool Context HashUpdate HashContext =
     UEFI_IMAGE_EXEC cfg Context
       (\<lambda>c. UeHashImageDefault c HashUpdate HashContext)
       (\<lambda>c. PeCoffHashImageAuthenticode (LoaderCfg cfg) c Pool HashUpdate HashContext)"

section \<open>Loading and relocation\<close>

definition UefiImageLoadImage :: "image_cfg \<Rightarrow> image_context \<Rightarrow> buffer \<Rightarrow> u32 \<Rightarrow> image_context result" where
  "UefiImageLoadImage cfg Context Dest DestinationSize =
     UEFI_IMAGE_EXEC cfg Context
       (\<lambda>c. map_result UeContext (UeLoadImage c Dest DestinationSize))
       (\<lambda>c. map_result PeContext (PeCoffLoadImage (LoaderCfg cfg) c Dest DestinationSize))"

definition UefiImageImageIsInplace :: "image_cfg \<Rightarrow> image_context \<Rightarrow> bool result" where
  "UefiImageImageIsInplace cfg Context =
     UEFI_IMAGE_EXEC cfg Context (\<lambda>c. Inr False) (\<lambda>c. Inr (PeCoffImageIsInplace c))"

definition UefiImageLoadImageInplace :: "image_cfg \<Rightarrow> image_context \<Rightarrow> image_context result" where
  "UefiImageLoadImageInplace cfg Context =
     UEFI_IMAGE_EXEC cfg Context
       (\<lambda>c. map_result UeContext (UefiImageLoadImageInplaceUe c))
       (\<lambda>c. map_result PeContext (PeCoffLoadImageInplace c))"

definition UefiImageRelocateImageInplace :: "image_cfg \<Rightarrow> image_context \<Rightarrow> image_context result" where
  "UefiImageRelocateImageInplace cfg Context =
     UEFI_IMAGE_EXEC cfg Context
       (\<lambda>c. fail RETURN_UNSUPPORTED)
       (\<lambda>c. map_result PeContext (PeCoffRelocateImageInplace (LoaderCfg cfg) c))"

definition UefiImageLoaderGetRuntimeContextSize :: "image_cfg \<Rightarrow> image_context \<Rightarrow> u32 result" where
  "UefiImageLoaderGetRuntimeContextSize cfg Context =
     map_result (\<lambda>Size. Size + 8)
       (UEFI_IMAGE_EXEC cfg Context (\<lambda>c. Inr (UeLoaderGetRuntimeContextSize c)) PeCoffLoaderGetRuntimeContextSize)"

text \<open>
  The memory of a runtime context starts with the format. What follows is given in the layout of both
  formats before the relocation, which fills in the one of the context's format.
\<close>

record runtime_memory =
  PeView :: PE_COFF_LOADER_RUNTIME_CONTEXT
  UeView :: ue_runtime

datatype runtime_context = PeRuntime PE_COFF_LOADER_RUNTIME_CONTEXT | UeRuntime ue_runtime

text \<open>What the relocation of a UE image finds: which allocations succeed, and what a variable holds that is not initialised.\<close>

record reloc_env =
  AllocOk :: "nat \<Rightarrow> bool"
  InitData :: u64

definition UefiImageRelocateImage ::
  "image_cfg \<Rightarrow> reloc_env \<Rightarrow> image_context \<Rightarrow> u64 \<Rightarrow> runtime_memory option \<Rightarrow> u32 \<Rightarrow>
     (image_context \<times> runtime_context option) result" where
  "UefiImageRelocateImage cfg env Context Base RuntimeContext RuntimeContextSize =
     assertR (RuntimeContext = None \<or> RuntimeContextSize \<ge> 8)
     (let FormatContextSize = (if RuntimeContext = None then RuntimeContextSize else RuntimeContextSize - 8)
      in UEFI_IMAGE_EXEC cfg Context
           (\<lambda>c. map_result (\<lambda>(c, Rt). (UeContext c, map_option UeRuntime Rt))
                  (UeRelocateImage (LoaderCfg cfg) (AllocOk env) (InitData env) c Base
                     (map_option UeView RuntimeContext) FormatContextSize))
           (\<lambda>c. map_result (\<lambda>(c, Rt). (PeContext c, map_option PeRuntime Rt))
                  (PeCoffRelocateImage (LoaderCfg cfg) c Base (map_option PeView RuntimeContext) FormatContextSize)))"

text \<open>The format of a runtime relocation is the one that is stored in the runtime context.\<close>

definition UefiImageRuntimeRelocateImage ::
  "image_cfg \<Rightarrow> reloc_env \<Rightarrow> buffer \<Rightarrow> u32 \<Rightarrow> u64 \<Rightarrow> runtime_context \<Rightarrow> buffer result" where
  "UefiImageRuntimeRelocateImage cfg env Img ImageSz Base RuntimeContext =
     (case RuntimeContext of
        UeRuntime Rt \<Rightarrow>
          assertR (FORMAT_EQ cfg UefiImageFormatUe UefiImageFormatUe)
            (UeRelocateImageForRuntime (LoaderCfg cfg) (AllocOk env) (InitData env) Img ImageSz Rt Base)
      | PeRuntime Rt \<Rightarrow>
          assertR (\<not> FORMAT_EQ cfg UefiImageFormatPe UefiImageFormatUe)
            (PeCoffRuntimeRelocateImage (LoaderCfg cfg) Img Base Rt))"

definition UefiImageDiscardSegments :: "image_cfg \<Rightarrow> image_context \<Rightarrow> image_context result" where
  "UefiImageDiscardSegments cfg Context =
     UEFI_IMAGE_EXEC cfg Context (\<lambda>c. Inr (UeContext c)) (\<lambda>c. map_result PeContext (PeCoffDiscardSections c))"

section \<open>Information about images\<close>

text \<open>A symbols path is its position in the bytes of the file, and its size.\<close>

definition UefiImageGetSymbolsPath :: "image_cfg \<Rightarrow> image_context \<Rightarrow> (u8 list \<times> nat \<times> u32) result" where
  "UefiImageGetSymbolsPath cfg Context =
     UEFI_IMAGE_EXEC cfg Context
       (\<lambda>c. map_result (Pair (UeFileBytes c)) (UeGetSymbolsPath c))
       (\<lambda>c. map_result (Pair (FileBytes c)) (PeCoffGetPdbPath (LoaderCfg cfg) c))"

definition UefiImageGetFirstCertificate :: "image_cfg \<Rightarrow> image_context \<Rightarrow> nat result" where
  "UefiImageGetFirstCertificate cfg Context =
     UEFI_IMAGE_EXEC cfg Context (\<lambda>c. fail RETURN_UNSUPPORTED) (PeCoffGetFirstCertificate (LoaderCfg cfg))"

definition UefiImageGetNextCertificate :: "image_cfg \<Rightarrow> image_context \<Rightarrow> nat \<Rightarrow> nat result" where
  "UefiImageGetNextCertificate cfg Context Certificate =
     UEFI_IMAGE_EXEC cfg Context (\<lambda>c. fail RETURN_UNSUPPORTED)
       (\<lambda>c. PeCoffGetNextCertificate (LoaderCfg cfg) c Certificate)"

definition UefiImageGetHiiDataRva :: "image_cfg \<Rightarrow> image_context \<Rightarrow> (u32 \<times> u32) result" where
  "UefiImageGetHiiDataRva cfg Context =
     UEFI_IMAGE_EXEC cfg Context (\<lambda>c. fail RETURN_NOT_FOUND) PeCoffGetHiiDataRva"

definition UefiImageGetEntryPointAddress :: "image_cfg \<Rightarrow> image_context \<Rightarrow> u32 result" where
  "UefiImageGetEntryPointAddress cfg Context =
     UEFI_IMAGE_EXEC cfg Context (\<lambda>c. Inr (UeGetEntryPointAddress c)) (\<lambda>c. Inr (PeCoffGetAddressOfEntryPoint c))"

definition UefiImageGetMachine :: "image_cfg \<Rightarrow> image_context \<Rightarrow> u16 result" where
  "UefiImageGetMachine cfg Context =
     UEFI_IMAGE_EXEC cfg Context (\<lambda>c. Inr (UefiImageGetMachineUe c)) (\<lambda>c. Inr (PeCoffGetMachine c))"

definition UefiImageGetSubsystem :: "image_cfg \<Rightarrow> image_context \<Rightarrow> u16 result" where
  "UefiImageGetSubsystem cfg Context =
     UEFI_IMAGE_EXEC cfg Context (\<lambda>c. Inr (UefiImageGetSubsystemUe c)) (\<lambda>c. Inr (PeCoffGetSubsystem c))"

definition UefiImageGetSegmentAlignment :: "image_cfg \<Rightarrow> image_context \<Rightarrow> u32 result" where
  "UefiImageGetSegmentAlignment cfg Context =
     UEFI_IMAGE_EXEC cfg Context (\<lambda>c. Inr (UeGetSegmentAlignment c)) (\<lambda>c. Inr (PeCoffGetSectionAlignment c))"

definition UefiImageGetImageSize :: "image_cfg \<Rightarrow> image_context \<Rightarrow> u32 result" where
  "UefiImageGetImageSize cfg Context =
     UEFI_IMAGE_EXEC cfg Context (\<lambda>c. Inr (UeGetImageSize c)) (\<lambda>c. Inr (PeCoffGetSizeOfImage c))"

definition UefiImageGetBaseAddress :: "image_cfg \<Rightarrow> image_context \<Rightarrow> u64 result" where
  "UefiImageGetBaseAddress cfg Context =
     UEFI_IMAGE_EXEC cfg Context (\<lambda>c. Inr (UeGetBaseAddress c)) (\<lambda>c. Inr (PeCoffGetImageBase c))"

definition UefiImageGetRelocsStripped :: "image_cfg \<Rightarrow> image_context \<Rightarrow> bool result" where
  "UefiImageGetRelocsStripped cfg Context =
     UEFI_IMAGE_EXEC cfg Context (\<lambda>c. Inr (UeGetRelocsStripped c)) (\<lambda>c. Inr (PeCoffGetRelocsStripped c))"

definition UefiImageLoaderGetImageAddress :: "image_cfg \<Rightarrow> image_context \<Rightarrow> u64 result" where
  "UefiImageLoaderGetImageAddress cfg Context =
     UEFI_IMAGE_EXEC cfg Context (\<lambda>c. Inr (UeLoaderGetImageAddress c)) PeCoffLoaderGetImageAddress"

definition UefiImageLoaderGetDebugAddress :: "image_cfg \<Rightarrow> image_context \<Rightarrow> u64 result" where
  "UefiImageLoaderGetDebugAddress cfg Context =
     UEFI_IMAGE_EXEC cfg Context UeLoaderGetImageDebugAddress PeCoffLoaderGetImageAddress"

definition UefiImageLoaderGetImageRecord :: "image_cfg \<Rightarrow> (nat \<Rightarrow> bool) \<Rightarrow> image_context \<Rightarrow> UEFI_IMAGE_RECORD option result" where
  "UefiImageLoaderGetImageRecord cfg PoolOk Context =
     UEFI_IMAGE_EXEC cfg Context (UefiImageLoaderGetImageRecordUe PoolOk)
       (UefiImageLoaderGetImageRecordPe (LoaderCfg cfg) PoolOk)"

definition UefiImageGetFixedAddress :: "image_cfg \<Rightarrow> image_context \<Rightarrow> u64 result" where
  "UefiImageGetFixedAddress cfg Context =
     UEFI_IMAGE_EXEC cfg Context UefiImageGetFixedAddressUe UefiImageGetFixedAddressPe"

definition UefiImageGetFormat :: "image_context \<Rightarrow> UEFI_IMAGE_FORMAT" where
  "UefiImageGetFormat Context = FormatIndex Context"

definition UefiImageLoaderGetImageEntryPoint :: "image_cfg \<Rightarrow> image_context \<Rightarrow> u64 result" where
  "UefiImageLoaderGetImageEntryPoint cfg Context =
     bindR (UefiImageLoaderGetImageAddress cfg Context) (\<lambda>ImageAddr.
     bindR (UefiImageGetEntryPointAddress cfg Context) (\<lambda>EntryPoint.
     Inr (ImageAddr + ucast EntryPoint)))"

section \<open>Module names\<close>

text \<open>The index behind the last separator of the first \<open>n\<close> characters from Index on.\<close>

fun LastComponent :: "u8 list \<Rightarrow> nat \<Rightarrow> nat \<Rightarrow> nat \<Rightarrow> nat \<Rightarrow> nat result" where
  "LastComponent File SymbolsPath Index 0 StartIndex = Inr StartIndex"
| "LastComponent File SymbolsPath Index (Suc n) StartIndex =
     bindR (readU8 File (SymbolsPath + Index)) (\<lambda>ch.
     LastComponent File SymbolsPath (Index + 1) n
       (if ch = 0x5C \<or> ch = 0x2F then Index + 1 else StartIndex))"

text \<open>
  At most \<open>n\<close> characters of the name from Index on: the index at which the loop is left, and the name.
  The code of a full stop is \<^verbatim>\<open>0x2E\<close>; \<^verbatim>\<open>0x65 0x66 0x69\<close> is the file extension.
\<close>

fun CopyModuleName :: "u8 list \<Rightarrow> nat \<Rightarrow> u32 \<Rightarrow> nat \<Rightarrow> nat \<Rightarrow> u8 list \<Rightarrow> (nat \<times> u8 list) result" where
  "CopyModuleName File Component ModuleNameSize Index 0 ModuleName = Inr (Index, ModuleName)"
| "CopyModuleName File Component ModuleNameSize Index (Suc n) ModuleName =
     bindR (readU8 File (Component + Index)) (\<lambda>ch.
     let ch = (if ch = 0 then 0x2E else ch)
     in bindR (write_bytes ModuleName Index [ch]) (\<lambda>ModuleName.
        if ch = 0x2E then
          if Index \<ge> unat (ModuleNameSize - 4) then Inr (Index, ModuleName)
          else
            bindR (write_bytes ModuleName (Index + 1) [0x65, 0x66, 0x69]) (\<lambda>ModuleName.
            Inr (Index + 4, ModuleName))
        else CopyModuleName File Component ModuleNameSize (Index + 1) n ModuleName))"

definition UefiImageGetModuleNameFromSymbolsPath :: "image_cfg \<Rightarrow> image_context \<Rightarrow> u8 list \<Rightarrow> u32 \<Rightarrow> u8 list result" where
  "UefiImageGetModuleNameFromSymbolsPath cfg Context ModuleName ModuleNameSize =
     assertR (3 \<le> ModuleNameSize)
     (bindR (UefiImageGetSymbolsPath cfg Context) (\<lambda>(File, SymbolsPath, SymbolsPathSize).
      bindR (LastComponent File SymbolsPath 0 (unat (SymbolsPathSize - 1)) 0) (\<lambda>StartIndex.
      bindR (CopyModuleName File (SymbolsPath + StartIndex) ModuleNameSize 0
               (unat (min ModuleNameSize SymbolsPathSize - 1)) ModuleName) (\<lambda>(Index, ModuleName).
      write_bytes ModuleName Index [0]))))"

section \<open>Execution\<close>

text \<open>The invalidation of the instruction cache changes no state that is modelled.\<close>

definition UefiImageRelocateImageInplaceForExecution :: "image_cfg \<Rightarrow> image_context \<Rightarrow> image_context result" where
  "UefiImageRelocateImageInplaceForExecution cfg Context =
     bindR (UefiImageRelocateImageInplace cfg Context) (\<lambda>Context.
     bindR (UefiImageLoaderGetImageAddress cfg Context) (\<lambda>ImageAddr.
     bindR (UefiImageGetImageSize cfg Context) (\<lambda>ImageSz.
     Inr Context)))"

definition UefiImageLoadImageForExecution ::
  "image_cfg \<Rightarrow> reloc_env \<Rightarrow> image_context \<Rightarrow> buffer \<Rightarrow> u32 \<Rightarrow> runtime_memory option \<Rightarrow> u32 \<Rightarrow>
     (image_context \<times> runtime_context option) result" where
  "UefiImageLoadImageForExecution cfg env Context Dest DestinationSize RuntimeContext RuntimeContextSize =
     bindR (UefiImageLoadImage cfg Context Dest DestinationSize) (\<lambda>Context.
     bindR (UefiImageLoaderGetImageAddress cfg Context) (\<lambda>Base.
     bindR (UefiImageRelocateImage cfg env Context Base RuntimeContext RuntimeContextSize) (\<lambda>(Context, Rt).
     bindR (UefiImageGetImageSize cfg Context) (\<lambda>SizeOfImg.
     Inr (Context, Rt)))))"

definition UefiImageRuntimeRelocateImageForExecution ::
  "image_cfg \<Rightarrow> reloc_env \<Rightarrow> buffer \<Rightarrow> u32 \<Rightarrow> u64 \<Rightarrow> runtime_context \<Rightarrow> buffer result" where
  "UefiImageRuntimeRelocateImageForExecution cfg env Img ImageSz Base RuntimeContext =
     UefiImageRuntimeRelocateImage cfg env Img ImageSz Base RuntimeContext"

section \<open>Laws\<close>

text \<open>A format that is supported for some source.\<close>

definition format_enabled :: "image_cfg \<Rightarrow> UEFI_IMAGE_FORMAT \<Rightarrow> bool" where
  "format_enabled cfg Format \<longleftrightarrow> UEFI_IMAGE_FORMAT_SUPPORT cfg AND FormatBit Format \<noteq> 0"

lemma FORMAT_EQ_enabled: "format_enabled cfg F \<Longrightarrow> FORMAT_EQ cfg F UefiImageFormatUe \<longleftrightarrow> F = UefiImageFormatUe"
  by (cases F) (auto simp: FORMAT_EQ_def format_enabled_def)

lemma UEFI_IMAGE_EXEC_enabled:
  assumes "format_enabled cfg (FormatIndex c)"
  shows "UEFI_IMAGE_EXEC cfg c UeFunc PeFunc = (case c of UeContext u \<Rightarrow> UeFunc u | PeContext p \<Rightarrow> PeFunc p)"
  using FORMAT_EQ_enabled [OF assms] by (cases c) (simp_all add: UEFI_IMAGE_EXEC_def)

lemma FORMAT_SUPPORTED_enabled: "FORMAT_SUPPORTED cfg F src \<Longrightarrow> format_enabled cfg F"
  by (simp add: FORMAT_SUPPORTED_def format_enabled_def)

lemma EXEC_simps:
  "format_enabled cfg UefiImageFormatPe \<Longrightarrow> UEFI_IMAGE_EXEC cfg (PeContext p) f g = g p"
  "format_enabled cfg UefiImageFormatUe \<Longrightarrow> UEFI_IMAGE_EXEC cfg (UeContext u) f g = f u"
  by (simp_all add: UEFI_IMAGE_EXEC_enabled)

lemma map_result_simps [simp]:
  "map_result f (Inr x) = Inr (f x)" "map_result f (Inl e) = Inl e"
  "wp (map_result f r) Q = wp r (\<lambda>x. Q (f x))" "wpx a (map_result f r) Q = wpx a r (\<lambda>x. Q (f x))"
  by (simp_all add: map_result_def)

end
