(* ===== verification/ImageFormat.thy ===== *)
theory ImageFormat
  imports UefiImage PeCoffSpec UeSpec
begin

text \<open>
  The contract of an image format towards the functions that load images for execution: loading
  places the image in the destination, and relocation changes nothing but the bytes of the image. It
  is fulfilled by the PE/COFF and the UE loader.
\<close>

section \<open>The contract\<close>

locale executable_format =
  fixes valid :: "'c \<Rightarrow> bool"
    and img_size :: "'c \<Rightarrow> u32"
    and alignment :: "'c \<Rightarrow> u32"
    and place :: "'c \<Rightarrow> buffer \<Rightarrow> 'c"
    and load :: "'c \<Rightarrow> buffer \<Rightarrow> u32 \<Rightarrow> 'c result"
    and address :: "'c \<Rightarrow> u64 result"
    and relocate :: "'c \<Rightarrow> u64 \<Rightarrow> 'r option \<Rightarrow> u32 \<Rightarrow> ('c \<times> 'r option) result"
    and movable :: "'c \<Rightarrow> u64 \<Rightarrow> bool"
    and unmoved :: "'c \<Rightarrow> u64 \<Rightarrow> bool"
    and runtime_ok :: "'c \<Rightarrow> 'r option \<Rightarrow> u32 \<Rightarrow> bool"
  assumes load_places: "valid c \<Longrightarrow> Address d \<noteq> 0 \<Longrightarrow> unat (alignment c) dvd unat (Address d) \<Longrightarrow>
      length (Bytes d) = unat (img_size c) \<Longrightarrow>
      \<exists>b. load c d (img_size c) = Inr (place c (d\<lparr>Bytes := b\<rparr>)) \<and> length b = unat (img_size c)"
    and address_place: "address (place c d) = Inr (Address d)"
    and relocate_keeps: "valid c \<Longrightarrow> unat (alignment c) dvd unat (Address d) \<Longrightarrow> length (Bytes d) = unat (img_size c) \<Longrightarrow>
      movable c (Address d) \<Longrightarrow> runtime_ok c rt n \<Longrightarrow>
      wp (relocate (place c d) (Address d) rt n)
        (\<lambda>(c', rt'). \<exists>d'. c' = place c d' \<and> Address d' = Address d \<and> length (Bytes d') = unat (img_size c) \<and> (rt' = None \<longleftrightarrow> rt = None))"
    and relocate_unmoved: "valid c \<Longrightarrow> unat (alignment c) dvd unat (Address d) \<Longrightarrow> length (Bytes d) = unat (img_size c) \<Longrightarrow>
      movable c (Address d) \<Longrightarrow> unmoved c (Address d) \<Longrightarrow> runtime_ok c None 0 \<Longrightarrow>
      relocate (place c d) (Address d) None 0 = Inr (place c d, None)"
begin

lemma load_relocate_safe:
  assumes "valid c" "Address d \<noteq> 0" "unat (alignment c) dvd unat (Address d)" "length (Bytes d) = unat (img_size c)"
    and "movable c (Address d)" "runtime_ok c rt n"
  shows "wp (bindR (load c d (img_size c)) (\<lambda>c. bindR (address c) (\<lambda>a. relocate c a rt n)))
    (\<lambda>(c', rt'). \<exists>d'. c' = place c d' \<and> Address d' = Address d \<and> length (Bytes d') = unat (img_size c) \<and> (rt' = None \<longleftrightarrow> rt = None))"
proof -
  obtain b where "load c d (img_size c) = Inr (place c (d\<lparr>Bytes := b\<rparr>))" "length b = unat (img_size c)"
    using load_places [OF assms(1-4)] by blast
  then show ?thesis
    using relocate_keeps [of c "d\<lparr>Bytes := b\<rparr>" rt n] assms by (simp add: address_place)
qed

lemma load_unmoved_succeeds:
  assumes "valid c" "Address d \<noteq> 0" "unat (alignment c) dvd unat (Address d)" "length (Bytes d) = unat (img_size c)"
    and "movable c (Address d)" "unmoved c (Address d)" "runtime_ok c None 0"
  shows "\<exists>c'. load c d (img_size c) = Inr c' \<and>
    bindR (load c d (img_size c)) (\<lambda>c. bindR (address c) (\<lambda>a. relocate c a None 0)) = Inr (c', None)"
proof -
  obtain b where "load c d (img_size c) = Inr (place c (d\<lparr>Bytes := b\<rparr>))" "length b = unat (img_size c)"
    using load_places [OF assms(1-4)] by blast
  then show ?thesis
    using relocate_unmoved [of c "d\<lparr>Bytes := b\<rparr>"] assms by (simp add: address_place)
qed

end

section \<open>PE/COFF images\<close>

definition pe_place :: "pe_context \<Rightarrow> buffer \<Rightarrow> pe_context" where
  "pe_place c d = c\<lparr>ImageBuffer := Destination d\<rparr>"

lemma pe_place_fields [simp]:
  "wf_context cfg (pe_place c d) = wf_context cfg c" "ImageBytes (pe_place c d) = Bytes d"
  "SizeOfImage (pe_place c d) = SizeOfImage c" "ImageBase (pe_place c d) = ImageBase c"
  "RelocsStripped (pe_place c d) = RelocsStripped c" "RelocDirSize (pe_place c d) = RelocDirSize c"
  "wf_runtime_buffer (pe_place c d) rt n = wf_runtime_buffer c rt n"
  "set_ImageBytes (pe_place c d) b = pe_place c (d\<lparr>Bytes := b\<rparr>)" "ImageBuffer (pe_place c d) = Destination d"
  by (simp_all add: pe_place_def ImageBytes_def set_ImageBytes_def wf_runtime_buffer_def cong: option.case_cong)

lemma pe_place_inject [simp]: "pe_place c d = pe_place c d' \<longleftrightarrow> d = d'"
  by (rule iffI, drule arg_cong [where f = ImageBuffer], simp_all)

definition pe_movable :: "pe_context \<Rightarrow> u64 \<Rightarrow> bool" where
  "pe_movable c b \<longleftrightarrow> \<not> RelocsStripped c \<or> b = ImageBase c"

definition pe_unmoved :: "pe_context \<Rightarrow> u64 \<Rightarrow> bool" where
  "pe_unmoved c b \<longleftrightarrow> b = ImageBase c \<or> RelocDirSize c = 0"

lemma PeCoffRelocateImage_runtime:
  "PeCoffRelocateImage cfg c b rt n = Inr (c', rt') \<Longrightarrow> rt' = None \<longleftrightarrow> rt = None"
  by (auto simp: PeCoffRelocateImage_def Let_def bindR_Inr_iff assertR_def split: if_splits)

interpretation pe_format: executable_format "wf_context cfg" SizeOfImage SectionAlignment pe_place "PeCoffLoadImage cfg"
  PeCoffLoaderGetImageAddress "PeCoffRelocateImage cfg" pe_movable pe_unmoved wf_runtime_buffer for cfg
proof
  fix c :: pe_context and d :: buffer
  assume "wf_context cfg c" "Address d \<noteq> 0" "unat (SectionAlignment c) dvd unat (Address d)" "length (Bytes d) = unat (SizeOfImage c)"
  then show "\<exists>b. PeCoffLoadImage cfg c d (SizeOfImage c) = Inr (pe_place c (d\<lparr>Bytes := b\<rparr>)) \<and> length b = unat (SizeOfImage c)"
    using wf_contextD(2) [of cfg c]
    by (intro exI [of _ "loaded_image cfg c (unat (SizeOfImage c))"]) (simp add: PeCoffLoadImage_exact pe_place_def length_loaded_image IS_ALIGNED_iff_dvd IS_POW2_ucast_32_64 unat_ucast_32_64)
next
  fix c :: pe_context and d :: buffer
  show "PeCoffLoaderGetImageAddress (pe_place c d) = Inr (Address d)"
    by (simp add: PeCoffLoaderGetImageAddress_def)
next
  fix c :: pe_context and d :: buffer and rt n
  assume c: "wf_context cfg c" "length (Bytes d) = unat (SizeOfImage c)" "pe_movable c (Address d)" "wf_runtime_buffer c rt n"
  show "wp (PeCoffRelocateImage cfg (pe_place c d) (Address d) rt n)
     (\<lambda>(c', rt'). \<exists>d'. c' = pe_place c d' \<and> Address d' = Address d \<and> length (Bytes d') = unat (SizeOfImage c) \<and> (rt' = None) = (rt = None))"
    using PeCoffRelocateImage_wp [OF wf_context_reloc_image [of cfg "pe_place c d"], of "Address d" rt n cfg] c
      PeCoffRelocateImage_runtime [of cfg "pe_place c d" "Address d" rt n]
    by (auto simp: wp_iff pe_movable_def reloc_frame_def) 
next
  fix c :: pe_context and d :: buffer
  assume c: "wf_context cfg c" "length (Bytes d) = unat (SizeOfImage c)" "pe_movable c (Address d)" "pe_unmoved c (Address d)"
    "wf_runtime_buffer c None 0"
  show "PeCoffRelocateImage cfg (pe_place c d) (Address d) None 0 = Inr (pe_place c d, None)"
    using c PeCoffRelocateImage_exact [OF wf_context_reloc_image [of cfg "pe_place c d"], of "Address d" None 0 cfg]
    by (auto simp: pe_movable_def pe_unmoved_def)
qed

section \<open>UE images\<close>

definition ue_place :: "ue_context \<Rightarrow> buffer \<Rightarrow> ue_context" where
  "ue_place c d = c\<lparr>UeImageBuffer := Destination d\<rparr>"

lemma ue_place_fields [simp]:
  "wf_ue (ue_place c d) = wf_ue c" "UeImageBytes (ue_place c d) = Bytes d" "XIP (ue_place c d) = XIP c"
  "ImageSize (ue_place c d) = ImageSize c" "RelocTableSize (ue_place c d) = RelocTableSize c"
  "BaseAddress (ue_place c d) = BaseAddress c" "ue_chaining (ue_place c d) = ue_chaining c"
  "ue_loaded (ue_place c d) = (unat (ImageSize c) \<le> length (Bytes d))"
  "context_args_ok (ue_place c d) b rt n = context_args_ok c b rt n" "runtime_fits (ue_place c d) rt = runtime_fits c rt"
  "set_UeImageBytes (ue_place c d) img = ue_place c (d\<lparr>Bytes := img\<rparr>)"
  by (simp_all add: ue_place_def UeImageBytes_def set_UeImageBytes_def ue_chaining_def ue_loaded_def context_args_ok_def
      runtime_fits_def)

lemma ue_place_inject [simp]: "ue_place c d = ue_place c d' \<longleftrightarrow> d = d'"
  by (rule iffI, drule arg_cong [where f = UeImageBuffer], simp_all add: ue_place_def)

definition ue_valid :: "ue_context \<Rightarrow> bool" where
  "ue_valid c \<longleftrightarrow> wf_ue c \<and> \<not> XIP c"

definition ue_runtime_ok :: "ue_context \<Rightarrow> ue_runtime option \<Rightarrow> u32 \<Rightarrow> bool" where
  "ue_runtime_ok c rt n \<longleftrightarrow> (rt = None \<longrightarrow> n = 0) \<and> (n = 0 \<or> 40 \<le> unat n) \<and> runtime_fits c rt"

definition ue_unmoved :: "ue_context \<Rightarrow> u64 \<Rightarrow> bool" where
  "ue_unmoved c b \<longleftrightarrow> RelocTableSize c = 0 \<or> b = BaseAddress c \<and> \<not> ue_chaining c"

lemma ue_context_args:
  "unat (SegmentAlignment c) dvd unat b \<Longrightarrow> ue_runtime_ok c rt n \<Longrightarrow> context_args_ok c b rt n"
  by (simp add: ue_runtime_ok_def context_args_ok_def)

lemma UeLoadImage_places:
  assumes "ue_valid c" "Address d \<noteq> 0" "unat (SegmentAlignment c) dvd unat (Address d)" "length (Bytes d) = unat (ImageSize c)"
  shows "\<exists>b. UeLoadImage c d (ImageSize c) = Inr (ue_place c (d\<lparr>Bytes := b\<rparr>)) \<and> length b = unat (ImageSize c)"
proof -
  have wf: "wf_ue c" "unat (ImageSize c) = image_total (ue_segments c)"
    using assms(1) wf_ue_size by (simp_all add: ue_valid_def)
  have "length (ue_loaded_image c (unat (ImageSize c))) = unat (ImageSize c)"
    using length_segment_bytes [OF wf_ue_data(1,2) [OF wf(1)]] by (simp add: ue_loaded_image_def wf(2))
  then show ?thesis
    using UeLoadImage_exact [OF wf(1) assms(2,3), of "ImageSize c"] assms(4) wf(2)
    by (intro exI [of _ "ue_loaded_image c (unat (ImageSize c))"]) (simp add: ue_place_def)
qed

interpretation ue_format: executable_format ue_valid ImageSize SegmentAlignment ue_place UeLoadImage
  "\<lambda>c. Inr (UeLoaderGetImageAddress c)" "UeRelocateImage cfg ok D" "\<lambda>c b. True" ue_unmoved ue_runtime_ok for cfg ok D
proof
  fix c :: ue_context and d :: buffer
  show "Inr (UeLoaderGetImageAddress (ue_place c d)) = Inr (Address d)"
    by (simp add: UeLoaderGetImageAddress_def ue_place_def)
next
  fix c :: ue_context and d :: buffer and rt n
  assume c: "ue_valid c" "unat (SegmentAlignment c) dvd unat (Address d)" "length (Bytes d) = unat (ImageSize c)" "ue_runtime_ok c rt n"
  have "wp (UeRelocateImage cfg ok D (ue_place c d) (Address d) rt n) (\<lambda>(c', rt'). \<exists>Img.
      c' = set_UeImageBytes (ue_entry_adjusted (ue_place c d)) Img \<and> changes_only 0 (unat (ImageSize c)) (Bytes d) Img \<and>
      (rt' = None \<longleftrightarrow> rt = None))"
    using UeRelocateImage_wp [of "ue_place c d" "Address d" rt n cfg ok D] ue_context_args [OF c(2,4)] c
    by (simp add: ue_valid_def ue_runtime_ok_def)
  then show "wp (UeRelocateImage cfg ok D (ue_place c d) (Address d) rt n)
     (\<lambda>(c', rt'). \<exists>d'. c' = ue_place c d' \<and> Address d' = Address d \<and> length (Bytes d') = unat (ImageSize c) \<and> (rt' = None) = (rt = None))"
    using c(1,3) by (elim wp_mono) (auto simp: ue_entry_adjusted_def ue_valid_def dest: changes_only_length)
next
  fix c :: ue_context and d :: buffer
  assume c: "ue_valid c" "unat (SegmentAlignment c) dvd unat (Address d)" "length (Bytes d) = unat (ImageSize c)"
    "ue_unmoved c (Address d)" "ue_runtime_ok c None 0"
  show "UeRelocateImage cfg ok D (ue_place c d) (Address d) None 0 = Inr (ue_place c d, None)"
    using c ue_context_args [OF c(2,5)]
    by (auto simp: UeRelocateImage_eq ue_valid_def ue_unmoved_def InternaRelocateImage_def ue_reloc_args_def ue_entry_adjusted_def)
qed (rule UeLoadImage_places)

end
