(* ===== verification/UefiExecute.thy ===== *)
theory UefiExecute
  imports ImageFormat PeTablesSpec
begin

text \<open>
  Validation and loading for execution over both formats: what a successful validation establishes,
  and the composition of loading and relocation through the contract of the formats.
\<close>

section \<open>Validation\<close>

text \<open>A context of an enabled format that was made from the file Buffer by a validation that succeeded.\<close>

definition image_valid :: "image_cfg \<Rightarrow> buffer \<Rightarrow> image_context \<Rightarrow> bool" where
  "image_valid cfg Buffer c \<longleftrightarrow>
     format_enabled cfg (FormatIndex c) \<and>
     (case c of PeContext p \<Rightarrow> wf_context (LoaderCfg cfg) p \<and> FileBuffer p = Buffer
              | UeContext u \<Rightarrow> wf_ue u \<and> UeFileBuffer u = Buffer)"

abbreviation declares_xip :: "buffer \<Rightarrow> bool" where
  "declares_xip Buffer \<equiv> (get_word 8 (Bytes Buffer) 8 :: u64) AND UE_HEADER_IMAGE_INFO_XIP \<noteq> 0"

lemma PostHash_enabled:
  "format_enabled cfg UefiImageFormatPe \<Longrightarrow> UefiImageInitializeContextPostHash cfg (PeContext p) = Inr (PeContext p)"
  "format_enabled cfg UefiImageFormatUe \<Longrightarrow>
     UefiImageInitializeContextPostHash cfg (UeContext u) = map_result UeContext (UeInitializeContextPostHash u)"
  by (simp_all add: UefiImageInitializeContextPostHash_def UEFI_IMAGE_EXEC_enabled)

lemma initialize_pe_wpx:
  assumes "FORMAT_SUPPORTED cfg UefiImageFormatPe src" "wf_cfg (LoaderCfg cfg)" "Address Buffer \<noteq> 0" "length (Bytes Buffer) = unat Size"
  shows "wpx x (bindR (InternalInitializeContextPreHash cfg Buffer Size UefiImageFormatPe origin) (UefiImageInitializeContextPostHash cfg))
    (\<lambda>c. image_valid cfg Buffer c \<and> FORMAT_SUPPORTED cfg (FormatIndex c) src)"
proof -
  note en = FORMAT_SUPPORTED_enabled [OF assms(1)]
  show ?thesis
    using FORMAT_EQ_enabled [OF en] assms(1) en wp_wpx [OF PeCoffInitializeContext_wp [OF assms(2,4), of origin], of x] assms(3)
    by (auto simp: InternalInitializeContextPreHash_def PostHash_enabled image_valid_def elim!: wpx_mono)
qed

lemma UefiImageInitializeContext_wpx:
  assumes "FormatSupportAsserts cfg src" "wf_cfg (LoaderCfg cfg)" "Address Buffer \<noteq> 0" "length (Bytes Buffer) = unat Size"
  shows "wpx (declares_xip Buffer) (UefiImageInitializeContext cfg Buffer Size src origin)
    (\<lambda>c. image_valid cfg Buffer c \<and> FORMAT_SUPPORTED cfg (FormatIndex c) src)" (is "wpx ?x _ ?Q")
proof -
  note pe = initialize_pe_wpx [OF _ assms(2-4), of src ?x origin]
  show ?thesis
  proof (cases "FORMAT_SUPPORTED cfg UefiImageFormatUe src")
    case False
    then show ?thesis
      using pe assms(1) by (simp add: UefiImageInitializeContext_def UefiImageInitializeContextPreHash_def Let_def)
  next
    case True
    note en = FORMAT_SUPPORTED_enabled [OF True]
    have ue: "InternalInitializeContextPreHash cfg Buffer Size UefiImageFormatUe origin =
        map_result UeContext (UeInitializeContextPreHash Buffer Size)"
      using FORMAT_EQ_enabled [OF en] by (simp add: InternalInitializeContextPreHash_def)
    have post: "wpx ?x (bindR (UeInitializeContextPreHash Buffer Size) UeInitializeContextPostHash) (\<lambda>c. ?Q (UeContext c))"
      using UeInitialize_wpx [OF assms(3,4)] en True by (auto simp: image_valid_def elim!: wpx_mono)
    show ?thesis
      using post pe True assms(1) en
      by (cases "UeInitializeContextPreHash Buffer Size"; rename_tac e; case_tac e)
        (auto simp: UefiImageInitializeContext_def UefiImageInitializeContextPreHash_def Let_def ue PostHash_enabled)
  qed
qed


section \<open>Execution\<close>

text \<open>The size of the format's part of a runtime context.\<close>

abbreviation format_size :: "runtime_memory option \<Rightarrow> u32 \<Rightarrow> u32" where
  "format_size rt n \<equiv> (if rt = None then n else n - 8)"

lemma execution_pe:
  assumes "format_enabled cfg UefiImageFormatPe" "rt = None \<or> 8 \<le> n"
  shows "UefiImageLoadImageForExecution cfg env (PeContext p) d m rt n =
    map_result (\<lambda>(c, rt). (PeContext c, map_option PeRuntime rt))
      (bindR (PeCoffLoadImage (LoaderCfg cfg) p d m) (\<lambda>c. bindR (PeCoffLoaderGetImageAddress c) (\<lambda>a.
         PeCoffRelocateImage (LoaderCfg cfg) c a (map_option PeView rt) (format_size rt n))))"
  using assms
  by (simp add: UefiImageLoadImageForExecution_def UefiImageLoadImage_def UefiImageLoaderGetImageAddress_def
      UefiImageRelocateImage_def UefiImageGetImageSize_def EXEC_simps map_result_def bindR_assoc Let_def case_prod_unfold)

lemma execution_ue:
  assumes "format_enabled cfg UefiImageFormatUe" "rt = None \<or> 8 \<le> n"
  shows "UefiImageLoadImageForExecution cfg env (UeContext u) d m rt n =
    map_result (\<lambda>(c, rt). (UeContext c, map_option UeRuntime rt))
      (bindR (UeLoadImage u d m) (\<lambda>c. bindR (Inr (UeLoaderGetImageAddress c)) (\<lambda>a.
         UeRelocateImage (LoaderCfg cfg) (AllocOk env) (InitData env) c a (map_option UeView rt) (format_size rt n))))"
  using assms
  by (simp add: UefiImageLoadImageForExecution_def UefiImageLoadImage_def UefiImageLoaderGetImageAddress_def
      UefiImageRelocateImage_def UefiImageGetImageSize_def EXEC_simps map_result_def bindR_assoc Let_def case_prod_unfold)

text \<open>
  A destination for a context: aligned, of the size of the image, and at the preferred address where
  the image cannot be moved. Images that execute in place are not loaded.
\<close>

primrec destination_ok :: "image_context \<Rightarrow> buffer \<Rightarrow> bool" where
  "destination_ok (PeContext p) d \<longleftrightarrow>
     Address d \<noteq> 0 \<and> unat (SectionAlignment p) dvd unat (Address d) \<and> length (Bytes d) = unat (SizeOfImage p) \<and>
     pe_movable p (Address d)"
| "destination_ok (UeContext u) d \<longleftrightarrow>
     Address d \<noteq> 0 \<and> unat (SegmentAlignment u) dvd unat (Address d) \<and> length (Bytes d) = unat (ImageSize u) \<and> \<not> XIP u"

text \<open>A runtime context for a context: none, or one with room for what the format records.\<close>

primrec runtime_memory_ok :: "image_context \<Rightarrow> runtime_memory option \<Rightarrow> u32 \<Rightarrow> bool" where
  "runtime_memory_ok (PeContext p) rt n \<longleftrightarrow>
     (rt = None \<or> 8 \<le> n) \<and> wf_runtime_buffer p (map_option PeView rt) (format_size rt n)"
| "runtime_memory_ok (UeContext u) rt n \<longleftrightarrow>
     (rt = None \<or> 8 \<le> n) \<and> ue_runtime_ok u (map_option UeView rt) (format_size rt n)"

primrec context_size :: "image_context \<Rightarrow> u32" where
  "context_size (PeContext p) = SizeOfImage p"
| "context_size (UeContext u) = ImageSize u"

primrec place_image :: "image_context \<Rightarrow> buffer \<Rightarrow> image_context" where
  "place_image (PeContext p) d = PeContext (pe_place p d)"
| "place_image (UeContext u) d = UeContext (ue_place u d)"

primrec runtime_format :: "runtime_context \<Rightarrow> UEFI_IMAGE_FORMAT" where
  "runtime_format (PeRuntime R) = UefiImageFormatPe"
| "runtime_format (UeRuntime R) = UefiImageFormatUe"

text \<open>The entry point of a placed image.\<close>

lemma entry_point_placed:
  assumes "image_valid cfg Buffer c"
  shows "\<exists>e :: u32. UefiImageLoaderGetImageEntryPoint cfg (place_image c d) = Inr (Address d + ucast e) \<and>
    unat e \<le> unat (context_size c) \<and> (FormatIndex c = UefiImageFormatPe \<longrightarrow> unat e < unat (context_size c))"
proof (cases c)
  case (PeContext p)
  then show ?thesis
    using assms wf_contextD(4) [of "LoaderCfg cfg" p]
    by (intro exI [of _ "AddressOfEntryPoint p"])
      (simp add: image_valid_def UefiImageLoaderGetImageEntryPoint_def UefiImageLoaderGetImageAddress_def
        UefiImageGetEntryPointAddress_def EXEC_simps PeCoffLoaderGetImageAddress_def PeCoffGetAddressOfEntryPoint_def pe_place_def)
next
  case (UeContext u)
  then show ?thesis
    using assms
    by (intro exI [of _ "EntryPointAddress u"])
      (simp add: image_valid_def UefiImageLoaderGetImageEntryPoint_def UefiImageLoaderGetImageAddress_def
        UefiImageGetEntryPointAddress_def EXEC_simps UeLoaderGetImageAddress_def UeGetEntryPointAddress_def ue_place_def wf_ue_def)
qed

lemma LoadImageForExecution_wp:
  assumes "image_valid cfg Buffer c" "destination_ok c d" "runtime_memory_ok c rt n"
  shows "wp (UefiImageLoadImageForExecution cfg env c d (context_size c) rt n) (\<lambda>(c', rt').
    \<exists>d'. c' = place_image c d' \<and> Address d' = Address d \<and> length (Bytes d') = length (Bytes d) \<and>
      (rt' = None \<longleftrightarrow> rt = None) \<and> (\<forall>R. rt' = Some R \<longrightarrow> runtime_format R = FormatIndex c))"
proof (cases c)
  case (PeContext p)
  then show ?thesis
    using pe_format.load_relocate_safe [of "LoaderCfg cfg" p d "map_option PeView rt" "format_size rt n"] assms
    by (auto simp: image_valid_def execution_pe elim!: wp_mono)
next
  case (UeContext u)
  then show ?thesis
    using ue_format.load_relocate_safe [of u d "map_option UeView rt" "format_size rt n" "LoaderCfg cfg" "AllocOk env" "InitData env"] assms
    by (auto simp: image_valid_def execution_ue ue_valid_def elim!: wp_mono)
qed

end
