(* ===== verification/ModuleName.thy ===== *)
theory ModuleName
  imports UefiExecute
begin

text \<open>
  Module names (\<^verbatim>\<open>UefiImageGetModuleNameFromSymbolsPath\<close>): the name that is derived from a
  symbols path, and the bounds of the buffers that its computation needs.
\<close>

section \<open>Module names\<close>

abbreviation separator :: "u8 \<Rightarrow> bool" where "separator ch \<equiv> ch = 0x5C \<or> ch = 0x2F"

abbreviation stem_char :: "u8 \<Rightarrow> bool" where "stem_char ch \<equiv> ch \<noteq> 0 \<and> ch \<noteq> 0x2E"

text \<open>The start of the last component of the first \<open>n\<close> characters of a path.\<close>

definition last_component :: "u8 list \<Rightarrow> nat \<Rightarrow> nat \<Rightarrow> nat \<Rightarrow> bool" where
  "last_component f p n start \<longleftrightarrow>
     start \<le> n \<and> (start = 0 \<or> separator (f ! (p + start - 1))) \<and> (\<forall>i. start \<le> i \<longrightarrow> i < n \<longrightarrow> \<not> separator (f ! (p + i)))"

lemma last_component_0: "last_component f p 0 0"
  by (simp add: last_component_def)

lemma readU8_byte: "i < length b \<Longrightarrow> readU8 b i = Inr (b ! i)"
  by (simp add: readU8_def read_word_def get_byte [unfolded One_nat_def])

lemma LastComponent_exact:
  assumes "p + i + n \<le> length f" "last_component f p i start"
  shows "\<exists>r. LastComponent f p i n start = Inr r \<and> last_component f p (i + n) r"
  using assms
proof (induction n arbitrary: i start)
  case (Suc n)
  let ?s = "if separator (f ! (p + i)) then i + 1 else start"
  have "last_component f p (i + 1) ?s"
    using Suc.prems(2) by (auto simp: last_component_def less_Suc_eq)
  from Suc.IH [OF _ this] show ?case
    using Suc.prems(1) by (simp add: readU8_byte)
qed simp

text \<open>
  The name that is made of the characters of the last component: up to the full stop or the end of
  the path, with the file extension where there is room for it.
\<close>

definition derived_name :: "u32 \<Rightarrow> nat \<Rightarrow> nat \<Rightarrow> u8 list \<Rightarrow> u8 list" where
  "derived_name sz i n cs =
     (let stem = takeWhile stem_char (take n cs)
      in if length stem < n \<and> i + length stem < unat (sz - 4) then stem @ [0x2E, 0x65, 0x66, 0x69] else stem)"

lemma length_derived_name:
  assumes "n < unat sz" "4 \<le> sz"
  shows "length (derived_name sz 0 n cs) < unat sz"
proof -
  have "length (takeWhile stem_char (take n cs)) \<le> n"
    using length_takeWhile_le [of stem_char "take n cs"] by simp
  then show ?thesis
    using assms by (auto simp: derived_name_def Let_def unat_sub word_le_nat_alt)
qed

lemma derived_name_Cons:
  "derived_name sz i (Suc n) (ch # cs) =
     (if stem_char ch then ch # derived_name sz (Suc i) n cs
      else if i < unat (sz - 4) then [0x2E, 0x65, 0x66, 0x69] else [])"
  by (simp add: derived_name_def Let_def)

lemma write_bytes_take:
  assumes "write_bytes b i bs = Inr b'"
  shows "length b' = length b" "take (i + length bs) b' = take i b @ bs"
  using assms by (auto simp: write_bytes_def split: if_splits)

lemma CopyModuleName_exact:
  assumes "i + n < unat sz" "length nm = unat sz" "i \<le> t" "q + t < length f" "f ! (q + t) = 0" "4 \<le> sz"
  shows "\<exists>nm'. CopyModuleName f q sz i n nm = Inr (i + length (derived_name sz i n (drop (q + i) f)), nm') \<and> length nm' = length nm \<and>
    take (i + length (derived_name sz i n (drop (q + i) f))) nm' = take i nm @ derived_name sz i n (drop (q + i) f)"
  using assms
proof (induction n arbitrary: i nm)
  case 0
  then show ?case
    by (simp add: derived_name_def)
next
  case (Suc n)
  have room: "unat (sz - 4) + 4 = unat sz"
    using Suc.prems(6) by (simp add: unat_sub word_le_nat_alt)
  let ?ch = "f ! (q + i)"
  have dr: "drop (q + i) f = ?ch # drop (q + Suc i) f"
    using Suc.prems(3,4) by (simp add: Cons_nth_drop_Suc)
  obtain nm1 where w: "write_bytes nm i [if ?ch = 0 then 0x2E else ?ch] = Inr nm1"
    using Suc.prems(1,2) by (simp add: write_bytes_def)
  note nm1 = write_bytes_take [OF w]
  show ?case
  proof (cases "stem_char ?ch")
    case True
    then have "i \<noteq> t"
      using Suc.prems(5) by auto
    then have "\<exists>nm'. CopyModuleName f q sz (Suc i) n nm1 = Inr (Suc i + length (derived_name sz (Suc i) n (drop (q + Suc i) f)), nm') \<and>
        length nm' = length nm1 \<and> take (Suc i + length (derived_name sz (Suc i) n (drop (q + Suc i) f))) nm' =
          take (Suc i) nm1 @ derived_name sz (Suc i) n (drop (q + Suc i) f)"
      using Suc.prems nm1(1) by (intro Suc.IH) simp_all
    then show ?thesis
      using True w nm1 Suc.prems(3,4) by (auto simp: dr derived_name_Cons readU8_byte)
  next
    case False
    show ?thesis
    proof (cases "i < unat (sz - 4)")
      case True
      then obtain nm2 where w2: "write_bytes nm1 (i + 1) [0x65, 0x66, 0x69] = Inr nm2"
        using nm1(1) Suc.prems(2) room by (simp add: write_bytes_def)
      show ?thesis
        using False True w nm1 Suc.prems(3,4) w2 write_bytes_take [OF w2]
        by (auto simp: dr derived_name_Cons readU8_byte)
    next
      case no: False
      have "take i nm1 = take i nm"
        using arg_cong [OF nm1(2), of "take i"] Suc.prems(1,2) by simp
      then show ?thesis
        using False no w nm1 Suc.prems(1-4) by (auto simp: dr derived_name_Cons readU8_byte)
    qed
  qed
qed

text \<open>The debug information of a PE/COFF image is read from the loaded image.\<close>

primrec image_readable :: "image_context \<Rightarrow> bool" where
  "image_readable (PeContext p) \<longleftrightarrow> unat (SizeOfImage p) \<le> length (ImageBytes p)"
| "image_readable (UeContext u) \<longleftrightarrow> True"

lemma symbols_path_terminated:
  assumes "image_valid cfg Buffer c" "image_readable c"
  shows "wp (UefiImageGetSymbolsPath cfg c) (\<lambda>(f, p, k). 0 < unat k \<and> p + unat k \<le> length f \<and> f ! (p + unat k - 1) = 0)"
proof (cases c)
  case (PeContext p)
  then show ?thesis
    using assms PeCoffGetPdbPath_wp [of "LoaderCfg cfg" p]
    by (auto simp: image_valid_def UefiImageGetSymbolsPath_def EXEC_simps pdb_path_ok_def elim!: wp_mono)
next
  case (UeContext u)
  then show ?thesis
    using assms UeGetSymbolsPath_wp [of u]
    by (auto simp: image_valid_def UefiImageGetSymbolsPath_def EXEC_simps elim!: wp_mono)
qed

lemma module_name_path:
  assumes "0 < unat k" "p + unat k \<le> length f" "f ! (p + unat k - 1) = 0" "4 \<le> sz" "length nm = unat sz"
  shows "\<exists>start nm' rest. LastComponent f p 0 (unat (k - 1)) 0 = Inr start \<and> last_component f p (unat k - 1) start \<and>
    bindR (CopyModuleName f (p + start) sz 0 (unat (min sz k - 1)) nm) (\<lambda>(i, nm). write_bytes nm i [0]) = Inr nm' \<and>
    nm' = derived_name sz 0 (unat (min sz k) - 1) (drop (p + start) f) @ 0 # rest \<and> length nm' = length nm"
proof -
  have k: "unat (k - 1) = unat k - 1"
    using assms(1) by (simp add: unat_sub word_le_nat_alt)
  obtain start where start: "LastComponent f p 0 (unat (k - 1)) 0 = Inr start" "last_component f p (unat k - 1) start"
    using LastComponent_exact [OF _ last_component_0, of p "unat (k - 1)" f] assms(1,2) by (fastforce simp: k)
  let ?n = "unat (min sz k) - 1" and ?d = "derived_name sz 0 (unat (min sz k) - 1) (drop (p + start) f)"
  have n: "unat (min sz k - 1) = ?n" "?n < unat sz"
    using assms(1,4) by (auto simp: unat_sub word_le_nat_alt min_def)
  have last: "start \<le> unat k - 1" "p + unat k - Suc 0 < length f"
    using start(2) assms(1,2) by (simp_all add: last_component_def)
  then obtain nm1 where nm1: "CopyModuleName f (p + start) sz 0 ?n nm = Inr (length ?d, nm1)" "length nm1 = length nm"
    "take (length ?d) nm1 = ?d"
    using CopyModuleName_exact [of 0 ?n sz nm "unat k - 1 - start" "p + start" f] assms n last by auto
  have "length ?d < length nm"
    using length_derived_name [OF n(2) assms(4)] assms(5) by simp
  then obtain nm2 where w: "write_bytes nm1 (length ?d) [0] = Inr nm2"
    using nm1(2) by (simp add: write_bytes_def)
  have "nm2 = ?d @ 0 # drop (length ?d + 1) nm2"
    using append_take_drop_id [of "length ?d + length [0 :: u8]" nm2, unfolded write_bytes_take(2) [OF w] nm1(3)] by simp
  then show ?thesis
    using start nm1(1) w write_bytes_take(1) [OF w] nm1(2) n(1) by auto
qed


lemma GetModuleName_wp:
  assumes "image_valid cfg Buffer c" "image_readable c" "4 \<le> sz" "length nm = unat sz"
  shows "wp (UefiImageGetModuleNameFromSymbolsPath cfg c nm sz) (\<lambda>nm'. length nm' = length nm \<and>
    (\<exists>f p k start rest. UefiImageGetSymbolsPath cfg c = Inr (f, p, k) \<and> last_component f p (unat k - 1) start \<and>
       nm' = derived_name sz 0 (unat (min sz k) - 1) (drop (p + start) f) @ 0 # rest))"
proof -
  have "3 \<le> sz"
    using assms(3) by (simp add: word_le_nat_alt)
  moreover have "wp (case x of (f, p, k) \<Rightarrow> bindR (LastComponent f p 0 (unat (k - 1)) 0) (\<lambda>start.
      bindR (CopyModuleName f (p + start) sz 0 (unat (min sz k - 1)) nm) (\<lambda>(i, nm). write_bytes nm i [0])))
    (\<lambda>nm'. length nm' = length nm \<and>
      (\<exists>f p k start rest. UefiImageGetSymbolsPath cfg c = Inr (f, p, k) \<and> last_component f p (unat k - 1) start \<and>
         nm' = derived_name sz 0 (unat (min sz k) - 1) (drop (p + start) f) @ 0 # rest))"
    if x: "UefiImageGetSymbolsPath cfg c = Inr x" for x
  proof -
    obtain f p k where fpk: "x = (f, p, k)"
      by (cases x) auto
    have "0 < unat k" "p + unat k \<le> length f" "f ! (p + unat k - 1) = 0"
      using symbols_path_terminated [OF assms(1,2)] x by (simp_all add: fpk)
    from module_name_path [OF this assms(3,4)]
    obtain start nm' rest where "LastComponent f p 0 (unat (k - 1)) 0 = Inr start" "last_component f p (unat k - 1) start"
      "bindR (CopyModuleName f (p + start) sz 0 (unat (min sz k - 1)) nm) (\<lambda>(i, nm). write_bytes nm i [0]) = Inr nm'"
      "nm' = derived_name sz 0 (unat (min sz k) - 1) (drop (p + start) f) @ 0 # rest" "length nm' = length nm"
      by blast
    then show ?thesis
      using x by (simp add: fpk) blast
  qed
  ultimately show ?thesis
    using symbols_path_terminated [OF assms(1,2)]
    by (cases "UefiImageGetSymbolsPath cfg c") (auto simp: UefiImageGetModuleNameFromSymbolsPath_def wp_iff)
qed

end
