(* ===== verification/TcgMeasure.thy ===== *)
theory TcgMeasure
  imports UefiImage
begin

text \<open>
  The measurement of images into the TPM event log (\<^verbatim>\<open>SecurityPkg/Tcg/Tcg2Dxe\<close>). The hash library is
  a parameter: the start of a hash, its update, and its completion and extension of a register.
\<close>

definition UifiImageHashUpdate ::
  "image_cfg \<Rightarrow> EFI_IMAGE_SECTION_HEADER list option \<Rightarrow> 'h hash_update \<Rightarrow> image_context \<Rightarrow> 'h \<Rightarrow> 'h result" where
  "UifiImageHashUpdate cfg Pool HashUpdate ImageContext HashHandle =
     bindR (UefiImageHashImageDefault cfg Pool ImageContext HashUpdate HashHandle) (\<lambda>(Success, HashHandle).
     if Success then Inr HashHandle else fail RETURN_ABORTED)"

definition MeasureUefiImageAndExtend ::
  "image_cfg \<Rightarrow> EFI_IMAGE_SECTION_HEADER list option \<Rightarrow> 'h result \<Rightarrow> 'h hash_update \<Rightarrow> (u32 \<Rightarrow> 'h \<Rightarrow> 'd result) \<Rightarrow>
     u32 \<Rightarrow> buffer \<Rightarrow> u64 \<Rightarrow> 'd result" where
  "MeasureUefiImageAndExtend cfg Pool HashStart HashUpdate HashCompleteAndExtend PCRIndex Img ImageSz =
     bindR (UefiImageInitializeContextPreHash cfg Img (ucast ImageSz) UEFI_IMAGE_SOURCE_ALL UefiImageOriginFv) (\<lambda>ImageContext.
     bindR HashStart (\<lambda>HashHandle.
     bindR (UifiImageHashUpdate cfg Pool HashUpdate ImageContext HashHandle) (\<lambda>HashHandle.
     HashCompleteAndExtend PCRIndex HashHandle)))"

lemma FORMAT_SUPPORTED_ALL: "\<not> FORMAT_SUPPORTED cfg Format UEFI_IMAGE_SOURCE_ALL"
  by (simp add: FORMAT_SUPPORTED_def)

end
