(* ===== verification/Spec2Isabelle.thy ===== *)
theory Spec2Isabelle
  imports PeTablesSpec UeSpec UeFindings RecordSpec UefiImageSpec
begin

text \<open>
  \<^bold>\<open>What is verified.\<close> The part of the firmware that turns an untrusted file into code that is executed:
  the checked arithmetic (\<^verbatim>\<open>BaseOverflowLib\<close>), the PE/COFF loader (\<^verbatim>\<open>BasePeCoffLib2\<close>), the loader of
  the UE format (\<^verbatim>\<open>BaseUeImageLib\<close>), the library interface over both (\<^verbatim>\<open>BaseUefiImageLib\<close>) with the
  records of memory permissions, and one of its clients, the measurement of images in
  \<^verbatim>\<open>SecurityPkg/Tcg/Tcg2Dxe\<close>. A file is validated into an image context; the image is hashed, loaded
  into a destination or declared loaded in place, relocated to its address, and at runtime relocated
  once more with what the first relocation recorded; the context also gives access to certificates,
  debug symbols, HII data, and to the record from which the memory protection is set up.

  \<^bold>\<open>How the code is represented.\<close> \<^verbatim>\<open>Prelude\<close> fixes the vocabulary: fixed-width integers are words,
  so that arithmetic wraps as in C; UINTN has 64 bits. A function returns either a value or the
  reason why it does not: a status, an access outside of a buffer, a failed ASSERT, or exhausted
  fuel. The predicate \<open>wp r Q\<close> says that \<open>r\<close> is a status or a value with \<open>Q\<close>, hence none of the
  others; \<open>wpx x r Q\<close> admits a failed ASSERT where \<open>x\<close>. Memory is a buffer with an address and
  bytes; pointers into it are offsets, accesses are little-endian and checked against the bounds.
  Structures are records with the fields of the code, out-parameters are results, and functions that
  modify a context or a buffer return the modified one. Long C functions are split into phases that
  follow the order of the code; loops are recursive functions over what they iterate over.

  \<^bold>\<open>Theories and sources\<close> (below \<^verbatim>\<open>src/MdePkg\<close> unless stated otherwise).
  \<^item> \<^verbatim>\<open>Alignment\<close>: the alignment macros of \<^verbatim>\<open>Include/Base.h\<close>.
  \<^item> \<^verbatim>\<open>Overflow\<close>: \<^verbatim>\<open>Library/BaseOverflowLib\<close> and the 64-bit arithmetic of \<^verbatim>\<open>Library/BaseLib\<close> that it
    calls. The contract of an operation is the locale \<open>checked_op\<close>, that of a combination of two
    \<open>checked_pair\<close>; both are interpreted for every operation of the library.
  \<^item> \<^verbatim>\<open>PeImage\<close>, \<^verbatim>\<open>PeCoffInit\<close>, \<^verbatim>\<open>PeCoffLoad\<close>, \<^verbatim>\<open>PeCoffRelocate\<close>, \<^verbatim>\<open>PeCoffHash\<close>, \<^verbatim>\<open>PeCoffDebug\<close>,
    \<^verbatim>\<open>PeCoffHii\<close>: the files of the same names of \<^verbatim>\<open>Library/BasePeCoffLib2\<close>, and in \<^verbatim>\<open>PeImage\<close> the data
    of \<^verbatim>\<open>PeImage2.h\<close> and \<^verbatim>\<open>PeCoffLib2.h\<close> with the getters of \<^verbatim>\<open>PeCoffInfo.c\<close>. \<^verbatim>\<open>PeDirectories\<close> has the
    access to the data directory that the last three share.
  \<^item> \<^verbatim>\<open>PeRelocSpec\<close>: the specification of PE/COFF relocation. A fix-up is a \<open>byte_action\<close>, two of them
    that do not overlap are \<open>two_actions\<close>; the locales are interpreted for the relocation types.
  \<^item> \<^verbatim>\<open>UeImage\<close>, \<^verbatim>\<open>UeInit\<close>, \<^verbatim>\<open>UeLoad\<close>, \<^verbatim>\<open>UeRelocate\<close>, \<^verbatim>\<open>UeDebug\<close>:
    \<^verbatim>\<open>Library/BaseUeImageLib/UeImageLib.c\<close> with the formats of \<^verbatim>\<open>UeImage.h\<close>. \<^verbatim>\<open>UeChain\<close>, \<^verbatim>\<open>UeTable\<close>,
    \<^verbatim>\<open>UeReplay\<close> and \<^verbatim>\<open>UeRelocImage\<close> hold the theory of its relocation, from a fixup to the image.
  \<^item> \<^verbatim>\<open>ImageRecord\<close>, \<^verbatim>\<open>PeRecord\<close>, \<^verbatim>\<open>UeRecord\<close>: the image records of \<^verbatim>\<open>Library/BaseUefiImageLib\<close>.
  \<^item> \<^verbatim>\<open>UefiImage\<close>: \<^verbatim>\<open>UefiImageLib.c\<close>, \<^verbatim>\<open>CommonSupport.c\<close>, \<^verbatim>\<open>ExecutionSupport.c\<close> of the same library and
    the functions of \<^verbatim>\<open>PeSupport.c\<close> and \<^verbatim>\<open>UeSupport.c\<close> that do more than call a loader. \<^verbatim>\<open>ImageFormat\<close> is
    the contract of a format, the locale \<open>executable_format\<close>, interpreted for both loaders;
    \<^verbatim>\<open>UefiExecute\<close> and \<^verbatim>\<open>ModuleName\<close> prove the laws of the composed functions.
  \<^item> \<^verbatim>\<open>TcgMeasure\<close>: \<^verbatim>\<open>src/SecurityPkg/Tcg/Tcg2Dxe/MeasureBootUefiImage.c\<close>.
  \<^item> \<^verbatim>\<open>PeSample\<close>, \<^verbatim>\<open>PeTablesSample\<close>, \<^verbatim>\<open>UeSample\<close>: small complete files and what the loaders make of them;
    the properties are instantiated at them.
  \<^item> \<^verbatim>\<open>PeCoffSpec\<close>, \<^verbatim>\<open>PeTablesSpec\<close>, \<^verbatim>\<open>UeSpec\<close>, \<^verbatim>\<open>RecordSpec\<close>, \<^verbatim>\<open>UefiImageSpec\<close>, \<^verbatim>\<open>UeFindings\<close> and the
    end of \<^verbatim>\<open>Overflow\<close>: the properties.

  \<^bold>\<open>What is shown.\<close>
  \<^item> Arithmetic: the checked operations report an overflow exactly where the mathematical result does
    not fit, and otherwise return it; the 128-bit multiply-and-divide terminates and is exact.
  \<^item> PE/COFF: validation is safe on every byte sequence, and what it accepts is well-formed (\<open>wf_context\<close>):
    sections are disjoint and lie inside of file and image. Loading gives exactly the declared memory
    image. Relocation implements the specification, moves every target by the displacement, changes
    nothing else, and composes with the relocation at runtime. The hash covers the specified ranges;
    certificates, debug and resource data are walked in bounds and in finitely many steps.
  \<^item> UE: the same for validation (\<open>wf_ue\<close>) and loading; relocation ends within its buffers whatever the
    table holds and whenever memory runs out; the images at two addresses differ in the fixups only,
    by the distance; and the recorded fixups let the relocation at runtime produce the same image.
  \<^item> Records: the segments of a record give every byte of the image the permissions of its section or
    segment, within the allocated array, and keep writable memory from being executable.
  \<^item> Interface: a validated context is one of the format that every later dispatch selects; loading for
    execution is safe and ends with an entry point inside of the image; where nothing has to be
    relocated it succeeds; module names fit their buffers.
  \<^item> Deviations: inputs for which the code faults, fails an ASSERT or contradicts its documentation are
    stated as theorems about the same definitions.

  \<^bold>\<open>Bounds and fuel.\<close> The loops over the blocks of a PE/COFF relocation directory and over the roots and
  heads of a UE relocation table advance by amounts that they read, and take fuel. It is initialised
  with the size of the directory or table; every iteration consumes at least one byte of it, and the
  theorems exclude the outcome of exhausted fuel. A chain of UE fixups and the 128-bit
  multiply-and-divide have termination proofs; the walk over the certificates is shown to end within
  the security directory. All other loops are structural.

  \<^bold>\<open>Parameters and conventions.\<close> PCDs and page granularities are fields of a configuration, with the
  STATIC_ASSERTs of the code as \<open>wf_cfg\<close>. Whether an allocation of a given size succeeds, what fresh
  memory and the uninitialised variable of the UE relocation hold, and the hash algorithm are
  arguments. A NULL pool is the empty list. The portable branch of the checked arithmetic is
  modelled, not the compiler builtins. When a function fails, the bytes that it had already changed
  are not part of the result. The relocation table of an image that executes in place lies in the
  bytes being relocated, and is read from there. The union of the two contexts is a datatype whose
  constructor is the format index; the memory of a runtime context is given in the layout of each
  format. \<open>headers_fit\<close> excludes images for which the record of permissions cannot describe the headers:
  unaligned headers where sections must be adjacent, and an empty first section at address zero.

  \<^bold>\<open>Not modelled.\<close> Address wrap-around and alignment faults of the processor; the location of images in
  raw memory for debugging (\<^verbatim>\<open>UefiImageDebugLocateImage\<close>), which parses memory of unknown extent; debug
  prints, cache maintenance and the extra action after a relocation, which have no effect on the
  modelled state; code that the build excludes. \<^verbatim>\<open>CopyMem\<close>, \<^verbatim>\<open>ZeroMem\<close> and the unaligned accesses are the
  memory model rather than translations of their assembly implementations. The clients of the library
  in the DXE core, the drivers, platforms, file systems, network stack, shell, cryptography (third-party
  code in submodules) and the build tools are outside: they are hardware access, I/O and services over
  global databases, and their correctness is independent of the loader's.
\<close>

end
